(* ===== verification/Prelude.thy ===== *)
theory Prelude imports Main "HOL-Library.Sublist" begin

text \<open>
  Shared vocabulary of the development: the collections the component proofs draw on, the
  generic facts on lists and folds that more than one component needs, the two integer
  operations whose Go meaning differs from HOL's, and the locale of a transition system with
  an invariant, which the connection loop and the server life cycle both instantiate.
\<close>

named_theorems go_lib "equations of the modelled pieces of the Go library"
named_theorems conn_simps "how the operations of a connection change its fields"
named_theorems reader_simps "how the reads of a connection change its reader"

section \<open>Integers\<close>

text \<open>Go's integer division truncates towards zero.\<close>

definition go_quot :: "int \<Rightarrow> int \<Rightarrow> int" where
  "go_quot a b = sgn a * sgn b * (\<bar>a\<bar> div \<bar>b\<bar>)"

lemma nat_diff_int [simp]: "nat (x - int k) = nat x - k"
  by arith

section \<open>Lists\<close>

lemma concat_singletons [simp]: "concat (map (\<lambda>x. [x]) xs) = xs"
  by (induction xs) auto

lemma filter_all: "(\<And>x. x \<in> set xs \<Longrightarrow> P x) \<Longrightarrow> filter P xs = xs"
  by (induction xs) auto

lemma takeWhile_append_stop:
  "(\<And>x. x \<in> set xs \<Longrightarrow> P x) \<Longrightarrow> \<not> P y \<Longrightarrow> takeWhile P (xs @ y # ys) = xs"
  by (induction xs) auto

lemma butlast_append_two [simp]: "butlast (xs @ [a, b]) = xs @ [a]"
  by (induction xs) auto

section \<open>Transition systems with an invariant\<close>

text \<open>
  A component with state is a set of initial states and a step relation. What its operations
  promise is one law per side: the initial states satisfy the invariant and every step keeps
  it. The facts about runs and reachable states are proved once, here.
\<close>

inductive run_of :: "('s \<Rightarrow> 's \<Rightarrow> bool) \<Rightarrow> 's \<Rightarrow> 's \<Rightarrow> bool" for step where
  run_refl: "run_of step s s"
| run_step: "run_of step s t \<Longrightarrow> step t u \<Longrightarrow> run_of step s u"

locale invariant_system =
  fixes init :: "'s \<Rightarrow> bool"
    and step :: "'s \<Rightarrow> 's \<Rightarrow> bool"
    and inv :: "'s \<Rightarrow> bool"
  assumes inv_init: "init s \<Longrightarrow> inv s"
    and inv_step: "inv s \<Longrightarrow> step s t \<Longrightarrow> inv t"
begin

lemma run_keeps_inv: "run_of step s t \<Longrightarrow> inv s \<Longrightarrow> inv t"
  by (induction rule: run_of.induct) (auto intro: inv_step)

lemma reachable_inv: "init s \<Longrightarrow> run_of step s t \<Longrightarrow> inv t"
  using run_keeps_inv inv_init by blast

end

text \<open>
  Steps with a label, and a specification that computes what a label does to an abstract state: if
  every step agrees with it, so does every run.
\<close>

inductive trace_of :: "('s \<Rightarrow> 'e \<Rightarrow> 's \<Rightarrow> bool) \<Rightarrow> 's \<Rightarrow> 'e list \<Rightarrow> 's \<Rightarrow> bool" for step where
  trace_refl: "trace_of step s [] s"
| trace_step: "trace_of step s es t \<Longrightarrow> step t e u \<Longrightarrow> trace_of step s (es @ [e]) u"

inductive_simps trace_of_snoc: "trace_of step s (es @ [e]) u"

locale functional_refinement =
  fixes step :: "'s \<Rightarrow> 'e \<Rightarrow> 's \<Rightarrow> bool"
    and inv :: "'s \<Rightarrow> bool"
    and abs_of :: "'s \<Rightarrow> 'a"
    and spec :: "'e \<Rightarrow> 'a \<Rightarrow> 'a"
  assumes inv_kept: "inv s \<Longrightarrow> step s e t \<Longrightarrow> inv t"
    and simulates: "inv s \<Longrightarrow> step s e t \<Longrightarrow> abs_of t = spec e (abs_of s)"
begin

lemma trace_refines: "trace_of step s es t \<Longrightarrow> inv s \<Longrightarrow> inv t \<and> abs_of t = fold spec es (abs_of s)"
  by (induction rule: trace_of.induct) (auto intro: inv_kept simp: simulates)

end

lemma run_of_trans: "run_of step t u \<Longrightarrow> run_of step s t \<Longrightarrow> run_of step s u"
  by (induction rule: run_of.induct) (auto intro: run_of.intros)

lemma run_of_one: "step s t \<Longrightarrow> run_of step s t"
  by (blast intro: run_of.intros)

end
