(* ===== verification/Go_Strings.thy ===== *)
theory Go_Strings imports Prelude begin

text \<open>
  The pieces of Go's strings, bytes, unicode, strconv and fmt packages the program uses, on
  byte strings. A Go string is a sequence of bytes, here a char list. White space is Go's
  unicode.IsSpace on the UTF-8 encoding, complete. The case mappings cover the ASCII letters
  and the four other code points whose case partner is an ASCII letter (U+0130, U+0131, U+017F
  and U+212A); the bytes of every other code point are left alone, where Go maps between
  letters outside ASCII and replaces bytes that are no UTF-8 by U+FFFD.
\<close>

section \<open>Bytes\<close>

abbreviation CR :: char where "CR \<equiv> CHR 0x0D"
abbreviation LF :: char where "LF \<equiv> CHR 0x0A"
abbreviation TAB :: char where "TAB \<equiv> CHR 0x09"
abbreviation SP :: char where "SP \<equiv> CHR 0x20"
abbreviation QUOTE :: char where "QUOTE \<equiv> CHR 0x22"
abbreviation BACKSLASH :: char where "BACKSLASH \<equiv> CHR 0x5C"
abbreviation crlf :: string where "crlf \<equiv> [CR, LF]"

abbreviation byte :: "char \<Rightarrow> nat" where "byte c \<equiv> of_char c"

definition is_upper :: "char \<Rightarrow> bool" where
  "is_upper c \<longleftrightarrow> 65 \<le> byte c \<and> byte c \<le> 90"

definition is_lower :: "char \<Rightarrow> bool" where
  "is_lower c \<longleftrightarrow> 97 \<le> byte c \<and> byte c \<le> 122"

definition is_digit :: "char \<Rightarrow> bool" where
  "is_digit c \<longleftrightarrow> 48 \<le> byte c \<and> byte c \<le> 57"

definition lower_char :: "char \<Rightarrow> char" where
  "lower_char c = (if is_upper c then char_of (byte c + 32) else c)"

definition upper_char :: "char \<Rightarrow> char" where
  "upper_char c = (if is_lower c then char_of (byte c - 32) else c)"

definition ascii_space :: "char \<Rightarrow> bool" where
  "ascii_space c \<longleftrightarrow> c = SP \<or> (9 \<le> byte c \<and> byte c \<le> 13)"

text \<open>A byte that is no white space and cannot be part of the encoding of any.\<close>

definition plain :: "char \<Rightarrow> bool" where
  "plain c \<longleftrightarrow> \<not> ascii_space c \<and> byte c < 128"

section \<open>Prefixes, suffixes, searching\<close>

fun has_prefix :: "string \<Rightarrow> string \<Rightarrow> bool" where
  "has_prefix s [] = True"
| "has_prefix [] (p # ps) = False"
| "has_prefix (c # s) (p # ps) = (c = p \<and> has_prefix s ps)"

definition has_suffix :: "string \<Rightarrow> string \<Rightarrow> bool" where
  "has_suffix s p = has_prefix (rev s) (rev p)"

lemma has_prefix_iff: "has_prefix s p \<longleftrightarrow> (\<exists>t. s = p @ t)"
  by (induction s p rule: has_prefix.induct) auto

lemma has_prefix_append [simp]: "has_prefix (p @ t) p"
  by (auto simp: has_prefix_iff)

lemma has_suffix_iff: "has_suffix s p \<longleftrightarrow> (\<exists>t. s = t @ p)"
proof
  assume "has_suffix s p"
  then obtain t where "rev s = rev p @ t" by (auto simp: has_suffix_def has_prefix_iff)
  then have "s = rev t @ p" by (metis rev_append rev_rev_ident)
  then show "\<exists>t. s = t @ p" ..
next
  assume "\<exists>t. s = t @ p"
  then show "has_suffix s p" by (auto simp: has_suffix_def has_prefix_iff)
qed

text \<open>The first occurrence of sep: what is before and after it, as strings.Cut.\<close>

fun cut_at :: "string \<Rightarrow> string \<Rightarrow> (string \<times> string) option" where
  "cut_at sep [] = (if sep = [] then Some ([], []) else None)"
| "cut_at sep (c # s) =
     (if has_prefix (c # s) sep then Some ([], drop (length sep) (c # s))
      else map_option (\<lambda>(b, a). (c # b, a)) (cut_at sep s))"

definition go_cut :: "string \<Rightarrow> string \<Rightarrow> string \<times> string \<times> bool" where
  "go_cut s sep = (case cut_at sep s of Some (b, a) \<Rightarrow> (b, a, True) | None \<Rightarrow> (s, [], False))"

lemma cut_at_Some: "cut_at sep s = Some (b, a) \<Longrightarrow> s = b @ sep @ a"
proof (induction s arbitrary: b)
  case Nil
  then show ?case by (auto split: if_splits)
next
  case (Cons c s)
  show ?case
  proof (cases "has_prefix (c # s) sep")
    case True
    with Cons.prems show ?thesis by (auto simp: has_prefix_iff)
  next
    case False
    with Cons show ?thesis by auto
  qed
qed

lemma cut_at_char:
  "c \<notin> set b \<Longrightarrow> cut_at [c] (b @ c # a) = Some (b, a)"
  by (induction b) auto

lemma cut_at_char_None: "c \<notin> set s \<Longrightarrow> cut_at [c] s = None"
  by (induction s) auto

lemma go_cut_char: "c \<notin> set b \<Longrightarrow> go_cut (b @ c # a) [c] = (b, a, True)"
  by (simp add: go_cut_def cut_at_char)

lemma go_cut_char_absent: "c \<notin> set s \<Longrightarrow> go_cut s [c] = (s, [], False)"
  by (simp add: go_cut_def cut_at_char_None)

definition contains :: "string \<Rightarrow> string \<Rightarrow> bool" where
  "contains s sub = (cut_at sub s \<noteq> None)"

section \<open>Splitting and joining\<close>

text \<open>strings.Split with a separator of one byte: always at least one piece.\<close>

fun split_on :: "char \<Rightarrow> string \<Rightarrow> string list" where
  "split_on d [] = [[]]"
| "split_on d (c # s) =
     (if c = d then [] # split_on d s
      else (case split_on d s of [] \<Rightarrow> [[c]] | p # ps \<Rightarrow> (c # p) # ps))"

fun join :: "string \<Rightarrow> string list \<Rightarrow> string" where
  "join sep [] = []"
| "join sep [x] = x"
| "join sep (x # y # xs) = x @ sep @ join sep (y # xs)"

lemma split_on_nonempty [simp]: "split_on d s \<noteq> []"
  by (induction s) (auto split: list.splits)

lemma join_split_on [simp]: "join [d] (split_on d s) = s"
proof (induction s)
  case (Cons c s)
  obtain p ps where ps: "split_on d s = p # ps"
    by (meson list.exhaust split_on_nonempty)
  with Cons show ?case by (cases ps) auto
qed simp

lemma split_on_absent: "d \<notin> set s \<Longrightarrow> split_on d s = [s]"
  by (induction s) auto

lemma split_on_append: "d \<notin> set p \<Longrightarrow> split_on d (p @ d # s) = p # split_on d s"
  by (induction p) auto

lemma split_on_join:
  "ps \<noteq> [] \<Longrightarrow> (\<And>p. p \<in> set ps \<Longrightarrow> d \<notin> set p) \<Longrightarrow> split_on d (join [d] ps) = ps"
proof (induction "[d]" ps rule: join.induct)
  case (3 x y xs)
  then show ?case by (simp add: split_on_append)
qed (auto simp: split_on_absent)

lemma join_concat: "join sep (x # xs) = x @ concat (map (\<lambda>y. sep @ y) xs)"
  by (induction xs arbitrary: x) simp_all

lemma filter_join: "filter P sep = [] \<Longrightarrow> filter P (join sep ps) = filter P (concat ps)"
  by (induction sep ps rule: join.induct) simp_all

lemma set_join: "set (join sep ps) \<subseteq> set sep \<union> set (concat ps)"
  by (induction sep ps rule: join.induct) auto

lemma last_join:
  "ps \<noteq> [] \<Longrightarrow> last ps \<noteq> [] \<Longrightarrow> join sep ps \<noteq> [] \<and> last (join sep ps) = last (last ps)"
  by (induction sep ps rule: join.induct) simp_all

section \<open>White space\<close>

text \<open>
  The width of the white space at the head of a string, 0 if its first rune is none: the ASCII
  six, U+0085 and U+00A0 (two bytes), U+1680, U+2000 to U+200A, U+2028, U+2029, U+202F, U+205F
  and U+3000 (three bytes).
\<close>

definition space2 :: "char \<Rightarrow> char \<Rightarrow> bool" where
  "space2 a b \<longleftrightarrow> a = CHR 0xC2 \<and> (b = CHR 0x85 \<or> b = CHR 0xA0)"

definition space3 :: "char \<Rightarrow> char \<Rightarrow> char \<Rightarrow> bool" where
  "space3 a b c \<longleftrightarrow>
     (a = CHR 0xE1 \<and> b = CHR 0x9A \<and> c = CHR 0x80)
   \<or> (a = CHR 0xE2 \<and> b = CHR 0x80 \<and>
        ((0x80 \<le> byte c \<and> byte c \<le> 0x8A) \<or> c = CHR 0xA8 \<or> c = CHR 0xA9 \<or> c = CHR 0xAF))
   \<or> (a = CHR 0xE2 \<and> b = CHR 0x81 \<and> c = CHR 0x9F)
   \<or> (a = CHR 0xE3 \<and> b = CHR 0x80 \<and> c = CHR 0x80)"

fun space_width :: "string \<Rightarrow> nat" where
  "space_width (a # b # c # s) =
     (if ascii_space a then 1 else if space2 a b then 2 else if space3 a b c then 3 else 0)"
| "space_width [a, b] = (if ascii_space a then 1 else if space2 a b then 2 else 0)"
| "space_width [a] = (if ascii_space a then 1 else 0)"
| "space_width [] = 0"

text \<open>The same at the end of a string, which is given reversed.\<close>

fun space_width_rev :: "string \<Rightarrow> nat" where
  "space_width_rev (c # b # a # s) =
     (if ascii_space c then 1 else if space2 b c then 2 else if space3 a b c then 3 else 0)"
| "space_width_rev [b, a] = (if ascii_space b then 1 else if space2 a b then 2 else 0)"
| "space_width_rev [a] = (if ascii_space a then 1 else 0)"
| "space_width_rev [] = 0"

lemma space_width_le: "space_width s \<le> length s"
  by (induction s rule: space_width.induct) auto

lemma space_width_rev_le: "space_width_rev s \<le> length s"
  by (induction s rule: space_width_rev.induct) auto

function trim_left :: "string \<Rightarrow> string" where
  "trim_left s = (if space_width s = 0 then s else trim_left (drop (space_width s) s))"
  by pat_completeness auto
termination
  by (relation "measure length") (auto intro: diff_less dest: order.strict_trans2 [OF _ space_width_le])

function trim_left_rev :: "string \<Rightarrow> string" where
  "trim_left_rev s =
     (if space_width_rev s = 0 then s else trim_left_rev (drop (space_width_rev s) s))"
  by pat_completeness auto
termination
  by (relation "measure length") (auto intro: diff_less dest: order.strict_trans2 [OF _ space_width_rev_le])

declare trim_left.simps [simp del] trim_left_rev.simps [simp del]

text \<open>strings.TrimSpace.\<close>

definition trim_space :: "string \<Rightarrow> string" where
  "trim_space s = rev (trim_left_rev (rev (trim_left s)))"

lemma plain_not_space [simp]: "plain c \<Longrightarrow> \<not> ascii_space c"
  by (simp add: plain_def)

lemma plain_space2: "plain a \<Longrightarrow> \<not> space2 a b" "plain b \<Longrightarrow> \<not> space2 a b"
  by (auto simp: plain_def space2_def)

lemma plain_space3: "plain a \<Longrightarrow> \<not> space3 a b c" "plain c \<Longrightarrow> \<not> space3 a b c"
  by (auto simp: plain_def space3_def)

lemma space_width_plain [simp]: "plain c \<Longrightarrow> space_width (c # s) = 0"
  by (cases "c # s" rule: space_width.cases) (auto simp: plain_space2 plain_space3)

lemma space_width_rev_plain [simp]: "plain c \<Longrightarrow> space_width_rev (c # s) = 0"
  by (cases "c # s" rule: space_width_rev.cases) (auto simp: plain_space2 plain_space3)

lemma space_width_ascii [simp]: "ascii_space c \<Longrightarrow> space_width (c # s) = 1"
  by (cases "c # s" rule: space_width.cases) auto

lemma space_width_rev_ascii [simp]: "ascii_space c \<Longrightarrow> space_width_rev (c # s) = 1"
  by (cases "c # s" rule: space_width_rev.cases) auto

lemma trim_left_Nil [simp]: "trim_left [] = []"
  by (simp add: trim_left.simps)

lemma trim_left_rev_Nil [simp]: "trim_left_rev [] = []"
  by (simp add: trim_left_rev.simps)

lemma trim_left_plain [simp]: "plain c \<Longrightarrow> trim_left (c # s) = c # s"
  by (subst trim_left.simps) simp

lemma trim_left_rev_plain [simp]: "plain c \<Longrightarrow> trim_left_rev (c # s) = c # s"
  by (subst trim_left_rev.simps) simp

lemma trim_left_space [simp]: "ascii_space c \<Longrightarrow> trim_left (c # s) = trim_left s"
  by (subst trim_left.simps) simp

lemma trim_left_rev_space [simp]: "ascii_space c \<Longrightarrow> trim_left_rev (c # s) = trim_left_rev s"
  by (subst trim_left_rev.simps) simp

lemma trim_space_Nil [simp]: "trim_space [] = []"
  by (simp add: trim_space_def)

text \<open>A string that starts and ends with a plain byte is not trimmed.\<close>

lemma trim_space_id: "s = [] \<or> (plain (hd s) \<and> plain (last s)) \<Longrightarrow> trim_space s = s"
proof (cases s)
  case (Cons c t)
  assume "s = [] \<or> (plain (hd s) \<and> plain (last s))"
  with Cons have p: "plain (hd s)" "plain (last s)" by auto
  then have "trim_left s = s" using Cons by simp
  moreover have "rev s = last s # rev (butlast s)"
    using Cons by (metis append_butlast_last_id list.distinct(1) rev_eq_Cons_iff rev_rev_ident)
  ultimately have "trim_space s = rev (last s # rev (butlast s))"
    using p(2) by (metis trim_left_rev_plain trim_space_def)
  then show ?thesis using Cons by simp
qed simp

lemma trim_space_all_plain: "(\<And>c. c \<in> set s \<Longrightarrow> plain c) \<Longrightarrow> trim_space s = s"
  by (cases s) (auto intro!: trim_space_id)

lemma trim_space_lead [simp]: "ascii_space c \<Longrightarrow> trim_space (c # s) = trim_space s"
  by (simp add: trim_space_def)

lemma trim_space_blank: "(\<And>c. c \<in> set s \<Longrightarrow> ascii_space c) \<Longrightarrow> trim_space s = []"
  by (induction s) auto

text \<open>Trimming only removes: the result is a contiguous part of the string.\<close>

lemma trim_left_suffix: "\<exists>p. s = p @ trim_left s"
proof (induction s rule: trim_left.induct)
  case (1 s)
  show ?case
  proof (cases "space_width s = 0")
    case True
    then show ?thesis by (simp add: trim_left.simps [of s])
  next
    case False
    then obtain p where "drop (space_width s) s = p @ trim_left (drop (space_width s) s)"
      using 1 by blast
    then have "s = (take (space_width s) s @ p) @ trim_left s"
      using False by (metis append.assoc append_take_drop_id trim_left.simps)
    then show ?thesis ..
  qed
qed

lemma trim_left_rev_suffix: "\<exists>p. s = p @ trim_left_rev s"
proof (induction s rule: trim_left_rev.induct)
  case (1 s)
  show ?case
  proof (cases "space_width_rev s = 0")
    case True
    then show ?thesis by (simp add: trim_left_rev.simps [of s])
  next
    case False
    then obtain p where "drop (space_width_rev s) s = p @ trim_left_rev (drop (space_width_rev s) s)"
      using 1 by blast
    then have "s = (take (space_width_rev s) s @ p) @ trim_left_rev s"
      using False by (metis append.assoc append_take_drop_id trim_left_rev.simps)
    then show ?thesis ..
  qed
qed

lemma trim_space_part: "\<exists>p q. s = p @ trim_space s @ q"
proof -
  obtain p where p: "s = p @ trim_left s" using trim_left_suffix by blast
  obtain q where "rev (trim_left s) = q @ trim_left_rev (rev (trim_left s))"
    using trim_left_rev_suffix by blast
  then have "trim_left s = trim_space s @ rev q"
    by (metis rev_append rev_rev_ident trim_space_def)
  with p show ?thesis by metis
qed

lemma trim_space_subset: "set (trim_space s) \<subseteq> set s"
proof -
  obtain p q where "s = p @ trim_space s @ q" using trim_space_part by blast
  then have "set s = set p \<union> set (trim_space s) \<union> set q" by (metis set_append sup_assoc)
  then show ?thesis by blast
qed

text \<open>strings.Fields: the maximal runs without white space.\<close>

function fields_acc :: "string \<Rightarrow> string \<Rightarrow> string list" where
  "fields_acc acc [] = (if acc = [] then [] else [rev acc])"
| "fields_acc acc (c # s) =
     (let w = space_width (c # s) in
      if w = 0 then fields_acc (c # acc) s
      else (if acc = [] then [] else [rev acc]) @ fields_acc [] (drop w (c # s)))"
  by pat_completeness auto
termination
  by (relation "measure (\<lambda>(acc, s). length s)") auto

definition go_fields :: "string \<Rightarrow> string list" where
  "go_fields s = fields_acc [] s"

text \<open>strings.FieldsFunc for a predicate on single bytes.\<close>

fun fields_by :: "(char \<Rightarrow> bool) \<Rightarrow> string \<Rightarrow> string \<Rightarrow> string list" where
  "fields_by f acc [] = (if acc = [] then [] else [rev acc])"
| "fields_by f acc (c # s) =
     (if f c then (if acc = [] then [] else [rev acc]) @ fields_by f [] s
      else fields_by f (c # acc) s)"

lemma fields_acc_plain:
  "(\<And>c. c \<in> set s \<Longrightarrow> plain c) \<Longrightarrow>
     fields_acc acc s = (if acc = [] \<and> s = [] then [] else [rev acc @ s])"
  by (induction s arbitrary: acc) (auto simp: Let_def)

lemma fields_acc_plain_sep:
  "(\<And>c. c \<in> set s \<Longrightarrow> plain c) \<Longrightarrow> ascii_space d \<Longrightarrow>
     fields_acc acc (s @ d # t) = (if acc = [] \<and> s = [] then [] else [rev acc @ s]) @ fields_acc [] t"
  by (induction s arbitrary: acc) (auto simp: Let_def)

text \<open>Words of plain bytes joined by single spaces are their fields.\<close>

lemma fields_join:
  "(\<And>w. w \<in> set ws \<Longrightarrow> w \<noteq> [] \<and> (\<forall>c \<in> set w. plain c)) \<Longrightarrow> go_fields (join [SP] ws) = ws"
proof (induction "[SP]" ws rule: join.induct)
  case (2 x)
  then show ?case by (simp add: go_fields_def fields_acc_plain)
next
  case (3 x y xs)
  have sp: "ascii_space SP" by (simp add: ascii_space_def)
  have "fields_acc [] (join [SP] (y # xs)) = y # xs"
    using 3 by (auto simp: go_fields_def)
  moreover have "x \<noteq> []" "\<And>c. c \<in> set x \<Longrightarrow> plain c" using 3 by auto
  ultimately show ?case using sp by (simp add: go_fields_def fields_acc_plain_sep)
qed (simp add: go_fields_def)

section \<open>Case\<close>

text \<open>
  strings.ToUpper and ToLower: the ASCII letters, and the code points outside ASCII whose upper
  case (U+0131 and U+017F) or lower case (U+0130 and U+212A) is an ASCII letter.
\<close>

fun to_upper :: "string \<Rightarrow> string" where
  "to_upper (a # b # s) =
     (if a = CHR 0xC4 \<and> b = CHR 0xB1 then CHR ''I'' # to_upper s
      else if a = CHR 0xC5 \<and> b = CHR 0xBF then CHR ''S'' # to_upper s
      else upper_char a # to_upper (b # s))"
| "to_upper [a] = [upper_char a]"
| "to_upper [] = []"

fun to_lower :: "string \<Rightarrow> string" where
  "to_lower (a # b # c # s) =
     (if a = CHR 0xC4 \<and> b = CHR 0xB0 then CHR ''i'' # to_lower (c # s)
      else if a = CHR 0xE2 \<and> b = CHR 0x84 \<and> c = CHR 0xAA then CHR ''k'' # to_lower s
      else lower_char a # to_lower (b # c # s))"
| "to_lower [a, b] =
     (if a = CHR 0xC4 \<and> b = CHR 0xB0 then ''i'' else [lower_char a, lower_char b])"
| "to_lower [a] = [lower_char a]"
| "to_lower [] = []"

text \<open>
  A representative of the strings that strings.EqualFold identifies: U+212A folds to k and
  U+017F to s.
\<close>

fun fold_case :: "string \<Rightarrow> string" where
  "fold_case (a # b # c # s) =
     (if a = CHR 0xC5 \<and> b = CHR 0xBF then CHR ''s'' # fold_case (c # s)
      else if a = CHR 0xE2 \<and> b = CHR 0x84 \<and> c = CHR 0xAA then CHR ''k'' # fold_case s
      else lower_char a # fold_case (b # c # s))"
| "fold_case [a, b] =
     (if a = CHR 0xC5 \<and> b = CHR 0xBF then ''s'' else [lower_char a, lower_char b])"
| "fold_case [a] = [lower_char a]"
| "fold_case [] = []"

definition equal_fold :: "string \<Rightarrow> string \<Rightarrow> bool" where
  "equal_fold s t \<longleftrightarrow> fold_case s = fold_case t"

definition is_ascii :: "string \<Rightarrow> bool" where
  "is_ascii s \<longleftrightarrow> (\<forall>c \<in> set s. byte c < 128)"

lemma is_ascii_simps [simp]:
  "is_ascii []" "is_ascii (c # s) \<longleftrightarrow> byte c < 128 \<and> is_ascii s"
  "is_ascii (s @ t) \<longleftrightarrow> is_ascii s \<and> is_ascii t"
  by (auto simp: is_ascii_def)

lemma to_lower_ascii: "is_ascii s \<Longrightarrow> to_lower s = map lower_char s"
  by (induction s rule: to_lower.induct) auto

lemma lower_char_idem [simp]: "lower_char (lower_char c) = lower_char c"
  by (auto simp: lower_char_def is_upper_def)

lemma lower_char_ascii [simp]: "byte (lower_char c) < 128 \<longleftrightarrow> byte c < 128"
  by (auto simp: lower_char_def is_upper_def)

lemma length_to_upper: "length (to_upper s) \<le> length s"
  by (induction s rule: to_upper.induct) auto

section \<open>Numbers\<close>

fun show_nat :: "nat \<Rightarrow> string" where
  "show_nat n = (if n < 10 then [char_of (48 + n)] else show_nat (n div 10) @ [char_of (48 + n mod 10)])"

declare show_nat.simps [simp del]

definition show_int :: "int \<Rightarrow> string" where
  "show_int i = (if i < 0 then CHR ''-'' # show_nat (nat (- i)) else show_nat (nat i))"

fun digits_value :: "nat \<Rightarrow> string \<Rightarrow> nat option" where
  "digits_value acc [] = Some acc"
| "digits_value acc (c # s) =
     (if is_digit c then digits_value (acc * 10 + (byte c - 48)) s else None)"

text \<open>
  strconv.ParseInt in base 10 for 64 bits, and strconv.Atoi on a platform with 64-bit int: an
  optional sign, at least one digit, the value in range.
\<close>

definition parse_int64 :: "string \<Rightarrow> int option" where
  "parse_int64 s =
     (let (neg, ds) = (case s of
           [] \<Rightarrow> (False, [])
         | c # r \<Rightarrow> if c = CHR ''-'' then (True, r) else if c = CHR ''+'' then (False, r) else (False, s))
      in if ds = [] then None
         else case digits_value 0 ds of
             None \<Rightarrow> None
           | Some n \<Rightarrow>
               (let v = (if neg then - int n else int n)
                in if - (2 ^ 63) \<le> v \<and> v < 2 ^ 63 then Some v else None))"

lemma show_nat_nonempty [simp]: "show_nat n \<noteq> []"
  by (subst show_nat.simps) simp

lemma show_nat_digits: "c \<in> set (show_nat n) \<Longrightarrow> is_digit c"
proof (induction n rule: show_nat.induct)
  case (1 n)
  show ?case
  proof (cases "n < 10")
    case True
    with 1 show ?thesis by (simp add: show_nat.simps [of n] is_digit_def)
  next
    case False
    with 1 show ?thesis by (auto simp: show_nat.simps [of n] is_digit_def)
  qed
qed

lemma digits_value_append:
  "digits_value acc (s @ t) = (case digits_value acc s of None \<Rightarrow> None | Some n \<Rightarrow> digits_value n t)"
  by (induction s arbitrary: acc) auto

lemma digits_value_show_nat: "digits_value 0 (show_nat n) = Some n"
proof (induction n rule: show_nat.induct)
  case (1 n)
  then show ?case
    by (cases "n < 10") (simp_all add: show_nat.simps [of n] digits_value_append is_digit_def)
qed

lemma parse_show_int:
  assumes "- (2 ^ 63) \<le> i" "i < 2 ^ 63"
  shows "parse_int64 (show_int i) = Some i"
proof -
  have hd: "show_nat n = c # r \<Longrightarrow> c \<noteq> CHR ''-'' \<and> c \<noteq> CHR ''+''" for n c r
    using show_nat_digits [of c n] by (auto simp: is_digit_def)
  show ?thesis
  proof (cases "i < 0")
    case True
    with assms show ?thesis
      by (simp add: parse_int64_def show_int_def digits_value_show_nat Let_def)
  next
    case False
    obtain c r where c: "show_nat (nat i) = c # r" by (meson list.exhaust show_nat_nonempty)
    from digits_value_show_nat [of "nat i"] have "digits_value 0 (c # r) = Some (nat i)" by (simp add: c)
    with False assms hd [OF c] show ?thesis
      by (simp add: parse_int64_def show_int_def c Let_def)
  qed
qed

text \<open>
  strconv.Quote, with bytes outside ASCII left alone, and the text of the error of ParseInt or
  Atoi (the argument fn) for a string that is no number or out of range.
\<close>

definition hex_digit :: "nat \<Rightarrow> char" where
  "hex_digit n = (if n < 10 then char_of (48 + n) else char_of (87 + n))"

definition quote_char :: "char \<Rightarrow> string" where
  "quote_char c =
     (if c = QUOTE \<or> c = BACKSLASH then [BACKSLASH, c]
      else if 7 \<le> byte c \<and> byte c \<le> 13 then [BACKSLASH, ''abtnvfr'' ! (byte c - 7)]
      else if byte c < 32 \<or> byte c = 127
      then [BACKSLASH, CHR ''x'', hex_digit (byte c div 16), hex_digit (byte c mod 16)]
      else [c])"

definition go_quote :: "string \<Rightarrow> string" where
  "go_quote s = QUOTE # concat (map quote_char s) @ [QUOTE]"

definition int_syntax :: "string \<Rightarrow> bool" where
  "int_syntax s =
     (let ds = (if s \<noteq> [] \<and> (hd s = CHR ''-'' \<or> hd s = CHR ''+'') then tl s else s)
      in ds \<noteq> [] \<and> list_all is_digit ds)"

definition strconv_error :: "string \<Rightarrow> string \<Rightarrow> string" where
  "strconv_error fn s = ''strconv.'' @ fn @ '': parsing '' @ go_quote s @ '': '' @
     (if int_syntax s then ''value out of range'' else ''invalid syntax'')"

section \<open>Trimming ASCII\<close>

lemma ascii_plain: "byte c < 128 \<Longrightarrow> \<not> ascii_space c \<Longrightarrow> plain c"
  by (simp add: plain_def)

lemma trim_left_ascii: "is_ascii s \<Longrightarrow> trim_left s = dropWhile ascii_space s"
  by (induction s) (auto simp: ascii_plain)

lemma trim_left_rev_ascii: "is_ascii s \<Longrightarrow> trim_left_rev s = dropWhile ascii_space s"
  by (induction s) (auto simp: ascii_plain)

lemma is_ascii_rev [simp]: "is_ascii (rev s) = is_ascii s"
  by (simp add: is_ascii_def)

lemma is_ascii_dropWhile: "is_ascii s \<Longrightarrow> is_ascii (dropWhile P s)"
  by (auto simp: is_ascii_def dest: set_dropWhileD)

lemma trim_space_ascii:
  "is_ascii s \<Longrightarrow> trim_space s = rev (dropWhile ascii_space (rev (dropWhile ascii_space s)))"
  by (simp add: trim_space_def trim_left_ascii trim_left_rev_ascii is_ascii_dropWhile)

lemma is_ascii_trim_space: "is_ascii s \<Longrightarrow> is_ascii (trim_space s)"
  using trim_space_subset [of s] by (auto simp: is_ascii_def)

lemma trim_space_ends:
  assumes "is_ascii s" "trim_space s \<noteq> []"
  shows "plain (hd (trim_space s)) \<and> plain (last (trim_space s))"
proof -
  let ?a = "dropWhile ascii_space s"
  have t: "trim_space s = rev (dropWhile ascii_space (rev ?a))" by (rule trim_space_ascii [OF assms(1)])
  obtain p where p: "rev ?a = p @ dropWhile ascii_space (rev ?a)" by (metis takeWhile_dropWhile_id)
  then have "?a = trim_space s @ rev p" by (metis rev_append rev_rev_ident t)
  with assms(2) have "?a \<noteq> []" "hd (trim_space s) = hd ?a" by auto
  then have h: "\<not> ascii_space (hd (trim_space s))" by (metis hd_dropWhile)
  have "dropWhile ascii_space (rev ?a) \<noteq> []" using assms(2) t by simp
  then have l: "\<not> ascii_space (last (trim_space s))" by (metis hd_dropWhile last_rev t)
  have "is_ascii (trim_space s)" using assms(1) by (rule is_ascii_trim_space)
  with h l assms(2) show ?thesis by (simp add: ascii_plain is_ascii_def)
qed

lemma trim_space_idem: "is_ascii s \<Longrightarrow> trim_space (trim_space s) = trim_space s"
  using trim_space_ends [of s] trim_space_id [of "trim_space s"] by blast


text \<open>White space around a text that starts and ends with a plain byte is trimmed.\<close>

definition blank :: "string \<Rightarrow> bool" where
  "blank a \<longleftrightarrow> (\<forall>c \<in> set a. ascii_space c)"

lemma blank_simps [simp]:
  "blank []" "blank (c # a) \<longleftrightarrow> ascii_space c \<and> blank a" "blank (a @ b) \<longleftrightarrow> blank a \<and> blank b"
  by (auto simp: blank_def)

lemma blank_ascii [simp]: "ascii_space SP" "ascii_space CR" "ascii_space LF"
  by (simp_all add: ascii_space_def)

lemma trim_space_blank_left [simp]: "blank a \<Longrightarrow> trim_space (a @ s) = trim_space s"
  by (induction a) simp_all

lemma trim_left_rev_blank: "blank a \<Longrightarrow> trim_left_rev (a @ s) = trim_left_rev s"
  by (induction a) simp_all

lemma blank_rev [simp]: "blank (rev a) = blank a"
  by (simp add: blank_def)

lemma trim_space_core:
  assumes "s = [] \<or> plain (hd s) \<and> plain (last s)" "blank a" "blank b"
  shows "trim_space (a @ s @ b) = s"
proof (cases s)
  case Nil
  with assms show ?thesis
    using trim_space_blank [of b] by (simp add: blank_def)
next
  case (Cons c t)
  then have p: "plain (hd s)" "plain (last s)" "s \<noteq> []" using assms(1) by auto
  have "trim_left (s @ b) = s @ b" using p(1) Cons by simp
  moreover have "trim_left_rev (rev b @ rev s) = rev s"
    using assms(3) p by (cases "rev s") (simp_all add: trim_left_rev_blank hd_rev flip: hd_rev)
  ultimately have "trim_space (s @ b) = s" by (simp add: trim_space_def)
  with assms(2) show ?thesis by simp
qed

end
