(* ===== verification/Envelope.thy ===== *)
theory Envelope imports Go_Strings "HOL-Library.Word" begin

text \<open>
  The envelope a connection fills and the handlers receive: envelope/data.go (the rope of
  buffers that holds the message), envelope/envelope.go (the envelope, its context, and the
  headers that are put in front of the message) and utils/email.go (the domain of an address).
  Pointers to an envelope are shared between the connection and the handlers; the operations
  return the updated envelope instead.
\<close>

section \<open>The message as a rope of buffers (envelope/data.go)\<close>

record data =
  bufs :: "string list"

definition empty_data :: data where
  "empty_data = \<lparr>bufs = []\<rparr>"

text \<open>head and tail make the buffer that is written next: a fresh first one, or the last one.\<close>

definition data_head :: "data \<Rightarrow> data" where
  "data_head d = d\<lparr>bufs := [] # bufs d\<rparr>"

definition data_tail :: "data \<Rightarrow> data" where
  "data_tail d = (if bufs d = [] then d\<lparr>bufs := [[]]\<rparr> else d)"

definition data_Len :: "data \<Rightarrow> nat" where
  "data_Len d = fold (\<lambda>b len. len + length b) (bufs d) 0"

text \<open>Bytes copies every buffer to its offset in a slice of the length of all of them.\<close>

fun copy_bufs :: "string \<Rightarrow> nat \<Rightarrow> string list \<Rightarrow> string" where
  "copy_bufs result off [] = result"
| "copy_bufs result off (b # bs) =
     copy_bufs (take off result @ b @ drop (off + length b) result) (off + length b) bs"

definition data_Bytes :: "data \<Rightarrow> string" where
  "data_Bytes d = copy_bufs (replicate (data_Len d) (CHR 0x00)) 0 (bufs d)"

definition data_Write :: "string \<Rightarrow> data \<Rightarrow> data" where
  "data_Write p d =
     (let d' = data_tail d in d'\<lparr>bufs := butlast (bufs d') @ [last (bufs d') @ p]\<rparr>)"

definition data_Prepend :: "string \<Rightarrow> data \<Rightarrow> data" where
  "data_Prepend p d =
     (let d' = data_head d in d'\<lparr>bufs := (hd (bufs d') @ p) # tl (bufs d')\<rparr>)"

text \<open>ReadFrom appends what the reader delivers to the last buffer.\<close>

definition data_ReadFrom :: "string \<Rightarrow> data \<Rightarrow> data" where
  "data_ReadFrom content d =
     (let d' = data_tail d in d'\<lparr>bufs := butlast (bufs d') @ [last (bufs d') @ content]\<rparr>)"

text \<open>The bytes a reader made by Reader delivers: one reader per buffer, in order.\<close>

definition data_Reader :: "data \<Rightarrow> string" where
  "data_Reader d = concat (bufs d)"

text \<open>
  What the envelope and the middlewares rely on: a text that grows at both ends.
\<close>

locale byte_rope =
  fixes bytes :: "'d \<Rightarrow> string"
    and size_of :: "'d \<Rightarrow> nat"
    and append_bytes :: "string \<Rightarrow> 'd \<Rightarrow> 'd"
    and prepend_bytes :: "string \<Rightarrow> 'd \<Rightarrow> 'd"
    and none :: 'd
  assumes bytes_none: "bytes none = []"
    and bytes_append: "bytes (append_bytes p d) = bytes d @ p"
    and bytes_prepend: "bytes (prepend_bytes p d) = p @ bytes d"
    and size_bytes: "size_of d = length (bytes d)"
begin

lemma bytes_prepend_all: "bytes (fold prepend_bytes ps d) = concat (rev ps) @ bytes d"
  by (induction ps arbitrary: d) (auto simp: bytes_prepend)

lemma bytes_append_all: "bytes (fold append_bytes ps d) = bytes d @ concat ps"
  by (induction ps arbitrary: d) (auto simp: bytes_append)

text \<open>Prepends (Inl) and appends (Inr) in any order.\<close>

lemma bytes_operations:
  "bytes (fold (case_sum prepend_bytes append_bytes) ops d) =
     concat (rev [p. Inl p \<leftarrow> ops]) @ bytes d @ concat [p. Inr p \<leftarrow> ops]"
  by (induction ops arbitrary: d) (auto simp: bytes_prepend bytes_append split: sum.splits)

lemma prepend_append_commute:
  "bytes (prepend_bytes p (append_bytes q d)) = bytes (append_bytes q (prepend_bytes p d))"
  by (simp add: bytes_append bytes_prepend)

lemma size_prepend_all:
  "size_of (fold prepend_bytes ps d) = sum_list (map length ps) + size_of d"
  by (simp add: size_bytes bytes_prepend_all length_concat sum_list_rev flip: rev_map)

end

lemma data_Len_concat: "data_Len d = length (concat (bufs d))"
proof -
  have "fold (\<lambda>b len. len + length b) bs n = n + length (concat bs)" for bs :: "string list" and n
    by (induction bs arbitrary: n) auto
  then show ?thesis by (simp add: data_Len_def)
qed

lemma copy_bufs_concat:
  "off + length (concat bs) = length result \<Longrightarrow>
     copy_bufs result off bs = take off result @ concat bs"
proof (induction bs arbitrary: result off)
  case (Cons b bs)
  have "copy_bufs result off (b # bs) =
      copy_bufs (take off result @ b @ drop (off + length b) result) (off + length b) bs" by simp
  also have "\<dots> = take (off + length b) (take off result @ b @ drop (off + length b) result) @ concat bs"
    using Cons.prems by (intro Cons.IH) simp
  also have "\<dots> = take off result @ concat (b # bs)" using Cons.prems by simp
  finally show ?case .
qed simp

lemma data_Bytes_concat: "data_Bytes d = concat (bufs d)"
  by (simp add: data_Bytes_def data_Len_concat copy_bufs_concat)

lemma concat_tail_write: "bs \<noteq> [] \<Longrightarrow> concat (butlast bs @ [last bs @ p]) = concat bs @ p"
  by (induction bs) auto

lemma data_Bytes_Write: "data_Bytes (data_Write p d) = data_Bytes d @ p"
  using concat_tail_write [of "bufs d" p]
  by (cases "bufs d = []") (simp_all add: data_Bytes_concat data_Write_def data_tail_def)

interpretation message: byte_rope data_Bytes data_Len data_Write data_Prepend empty_data
  by unfold_locales
    (rule data_Bytes_Write
      | simp add: data_Bytes_concat data_Len_concat data_Prepend_def data_head_def empty_data_def)+

lemma data_ReadFrom_Write: "data_ReadFrom = data_Write"
  by (simp add: fun_eq_iff data_ReadFrom_def data_Write_def)

lemma data_Bytes_ReadFrom: "data_Bytes (data_ReadFrom s d) = data_Bytes d @ s"
  by (simp add: data_ReadFrom_Write message.bytes_append)

section \<open>Addresses (net/mail, utils/email.go)\<close>

record address =
  addr_Name :: string
  addr_Address :: string

definition DomainOfEmail :: "address option \<Rightarrow> string" where
  "DomainOfEmail email =
     (case email of
        None \<Rightarrow> []
      | Some a \<Rightarrow> (let parts = split_on (CHR ''@'') (addr_Address a) in to_lower (last parts)))"

text \<open>
  The address of the peer, as the connection knows it, or the one a proxy announced: a TCPAddr
  with the parsed IP (none if it did not parse) and port 0.
\<close>

datatype remote_addr = PeerAddr string | TCPAddr "string option"

fun RemoteAddr_String :: "remote_addr \<Rightarrow> string" where
  "RemoteAddr_String (PeerAddr s) = s"
| "RemoteAddr_String (TCPAddr None) = '':0''"
| "RemoteAddr_String (TCPAddr (Some ip)) =
     (if CHR '':'' \<in> set ip then ''['' @ ip @ '']:0'' else ip @ '':0'')"

section \<open>The envelope (envelope/envelope.go)\<close>

text \<open>A context is the list of the values put into it, the last one first.\<close>

datatype ctx_value = CtxUint64 "64 word" | CtxString string | CtxError string

type_synonym context_values = "(string \<times> ctx_value) list"

record envelope =
  ctx :: context_values
  RemoteAddr :: remote_addr
  Helo :: string
  TLS :: bool
  UTF8 :: bool
  ESMTP :: bool
  MailFrom :: "address option"
  RcptTo :: "address list"
  Data :: data

definition ConnectionId :: "envelope \<Rightarrow> 64 word" where
  "ConnectionId e = (case map_of (ctx e) ''connection-id'' of Some (CtxUint64 u) \<Rightarrow> u | _ \<Rightarrow> 0)"

definition EnvelopeId :: "envelope \<Rightarrow> string" where
  "EnvelopeId e = (case map_of (ctx e) ''envelope-id'' of Some (CtxString s) \<Rightarrow> s | _ \<Rightarrow> [])"

definition GetError :: "envelope \<Rightarrow> string option" where
  "GetError e = (case map_of (ctx e) ''err'' of Some (CtxError s) \<Rightarrow> Some s | _ \<Rightarrow> None)"

definition SetError :: "string \<Rightarrow> envelope \<Rightarrow> envelope" where
  "SetError err e = e\<lparr>ctx := (''err'', CtxError err) # ctx e\<rparr>"

definition WithContext :: "context_values \<Rightarrow> envelope \<Rightarrow> envelope" where
  "WithContext c e = e\<lparr>ctx := c\<rparr>"

text \<open>NewEnvelope; xid is what utils.XID returned for it.\<close>

definition NewEnvelope :: "remote_addr \<Rightarrow> 64 word \<Rightarrow> string \<Rightarrow> envelope" where
  "NewEnvelope remote connectionId xid =
     \<lparr>ctx = [(''envelope-id'', CtxString xid), (''connection-id'', CtxUint64 connectionId)],
      RemoteAddr = remote, Helo = [], TLS = False, UTF8 = False, ESMTP = False,
      MailFrom = None, RcptTo = [], Data = empty_data\<rparr>"

text \<open>textproto.CanonicalMIMEHeaderKey: only keys made of token characters are changed.\<close>

definition valid_header_field_byte :: "char \<Rightarrow> bool" where
  "valid_header_field_byte c \<longleftrightarrow>
     is_digit c \<or> is_upper c \<or> is_lower c \<or>
     c \<in> set (''!#$%&*+-.^_|~'' @ [CHR 0x27, CHR 0x60])"

fun canonical_key :: "bool \<Rightarrow> string \<Rightarrow> string" where
  "canonical_key upper [] = []"
| "canonical_key upper (c # s) =
     (let c' = (if upper then upper_char c else lower_char c)
      in c' # canonical_key (c' = CHR ''-'') s)"

definition CanonicalMIMEHeaderKey :: "string \<Rightarrow> string" where
  "CanonicalMIMEHeaderKey s =
     (if list_all valid_header_field_byte s then canonical_key True s else s)"

definition header_line :: "string \<Rightarrow> string \<Rightarrow> string" where
  "header_line key val = CanonicalMIMEHeaderKey key @ '': '' @ val @ crlf"

definition PrependHeader :: "string \<Rightarrow> string \<Rightarrow> envelope \<Rightarrow> envelope" where
  "PrependHeader key val e = e\<lparr>Data := data_Prepend (header_line key val) (Data e)\<rparr>"

section \<open>Properties\<close>

lemma Bytes_PrependHeader:
  "data_Bytes (Data (PrependHeader key val e)) = header_line key val @ data_Bytes (Data e)"
  by (simp add: PrependHeader_def message.bytes_prepend)

lemma NewEnvelope_ids:
  "ConnectionId (NewEnvelope ra cid xid) = cid" "EnvelopeId (NewEnvelope ra cid xid) = xid"
  "GetError (NewEnvelope ra cid xid) = None"
  by (simp_all add: NewEnvelope_def ConnectionId_def EnvelopeId_def GetError_def)

lemma SetError_GetError:
  "GetError (SetError err e) = Some err" "ConnectionId (SetError err e) = ConnectionId e"
  "EnvelopeId (SetError err e) = EnvelopeId e"
  by (simp_all add: SetError_def GetError_def ConnectionId_def EnvelopeId_def)

lemma canonical_key_valid: "canonical_key True ''return-path'' = ''Return-Path''"
  by code_simp

lemma CanonicalMIMEHeaderKey_length: "length (CanonicalMIMEHeaderKey s) = length s"
proof -
  have "length (canonical_key u t) = length t" for u t
    by (induction t arbitrary: u) (auto simp: Let_def)
  then show ?thesis by (simp add: CanonicalMIMEHeaderKey_def)
qed

text \<open>
  C29: However a message is built, by writes at its end (Inr) and headers put in front of it (Inl)
  in any order and over any number of buffers, Bytes returns the last written header first, then
  the earlier ones, then what was there, then the writes in order; Len is its length and Reader
  delivers the same bytes.
\<close>

theorem data_rope_correct:
  "data_Bytes (fold (case_sum data_Prepend data_Write) ops d) =
     concat (rev [p. Inl p \<leftarrow> ops]) @ data_Bytes d @ concat [p. Inr p \<leftarrow> ops]
   \<and> data_Len d = length (data_Bytes d) \<and> data_Reader d = data_Bytes d"
  by (simp add: message.bytes_operations message.size_bytes data_Reader_def data_Bytes_concat [of d])

end
