(* ===== verification/Responses.thy ===== *)
theory Responses imports Go_Strings begin

text \<open>
  The package responses (responses/consts.go, canned.go, enhanced.go) and the root package's
  response.go: the enhanced status codes with the table that gives their basic code, the
  responses the server sends, and the Response interface a handler answers with. The status
  code of a response is memoised in the response itself, so the operations return the updated
  response beside their result.
\<close>

section \<open>Status codes (responses/consts.go)\<close>

named_theorems status_consts "the status code constants"
named_theorems canned "the canned responses"

definition ClassSuccess :: int where [status_consts]: "ClassSuccess = 2"
definition ClassTransientFailure :: int where [status_consts]: "ClassTransientFailure = 4"
definition ClassPermanentFailure :: int where [status_consts]: "ClassPermanentFailure = 5"

definition OtherStatus :: string where [status_consts]: "OtherStatus = ''.0.0''"
definition OtherAddressStatus :: string where [status_consts]: "OtherAddressStatus = ''.1.0''"
definition BadDestinationMailboxAddress :: string where [status_consts]: "BadDestinationMailboxAddress = ''.1.1''"
definition BadDestinationSystemAddress :: string where [status_consts]: "BadDestinationSystemAddress = ''.1.2''"
definition BadDestinationMailboxAddressSyntax :: string where [status_consts]: "BadDestinationMailboxAddressSyntax = ''.1.3''"
definition DestinationMailboxAddressAmbiguous :: string where [status_consts]: "DestinationMailboxAddressAmbiguous = ''.1.4''"
definition DestinationMailboxAddressValid :: string where [status_consts]: "DestinationMailboxAddressValid = ''.1.5''"
definition MailboxHasMoved :: string where [status_consts]: "MailboxHasMoved = ''.1.6''"
definition BadSendersMailboxAddressSyntax :: string where [status_consts]: "BadSendersMailboxAddressSyntax = ''.1.7''"
definition BadSendersSystemAddress :: string where [status_consts]: "BadSendersSystemAddress = ''.1.8''"
definition OtherOrUndefinedMailboxStatus :: string where [status_consts]: "OtherOrUndefinedMailboxStatus = ''.2.0''"
definition MailboxDisabled :: string where [status_consts]: "MailboxDisabled = ''.2.1''"
definition MailboxFull :: string where [status_consts]: "MailboxFull = ''.2.2''"
definition MessageLengthExceedsAdministrativeLimit :: string where [status_consts]: "MessageLengthExceedsAdministrativeLimit = ''.2.3''"
definition MailingListExpansionProblem :: string where [status_consts]: "MailingListExpansionProblem = ''.2.4''"
definition OtherOrUndefinedMailSystemStatus :: string where [status_consts]: "OtherOrUndefinedMailSystemStatus = ''.3.0''"
definition MailSystemFull :: string where [status_consts]: "MailSystemFull = ''.3.1''"
definition SystemNotAcceptingNetworkMessages :: string where [status_consts]: "SystemNotAcceptingNetworkMessages = ''.3.2''"
definition SystemNotCapableOfSelectedFeatures :: string where [status_consts]: "SystemNotCapableOfSelectedFeatures = ''.3.3''"
definition MessageTooBigForSystem :: string where [status_consts]: "MessageTooBigForSystem = ''.3.4''"
definition OtherOrUndefinedNetworkOrRoutingStatus :: string where [status_consts]: "OtherOrUndefinedNetworkOrRoutingStatus = ''.4.0''"
definition NoAnswerFromHost :: string where [status_consts]: "NoAnswerFromHost = ''.4.1''"
definition BadConnection :: string where [status_consts]: "BadConnection = ''.4.2''"
definition RoutingServerFailure :: string where [status_consts]: "RoutingServerFailure = ''.4.3''"
definition UnableToRoute :: string where [status_consts]: "UnableToRoute = ''.4.4''"
definition NetworkCongestion :: string where [status_consts]: "NetworkCongestion = ''.4.5''"
definition RoutingLoopDetected :: string where [status_consts]: "RoutingLoopDetected = ''.4.6''"
definition DeliveryTimeExpired :: string where [status_consts]: "DeliveryTimeExpired = ''.4.7''"
definition OtherOrUndefinedProtocolStatus :: string where [status_consts]: "OtherOrUndefinedProtocolStatus = ''.5.0''"
definition InvalidCommand :: string where [status_consts]: "InvalidCommand = ''.5.1''"
definition SyntaxError :: string where [status_consts]: "SyntaxError = ''.5.2''"
definition TooManyRecipients :: string where [status_consts]: "TooManyRecipients = ''.5.3''"
definition InvalidCommandArguments :: string where [status_consts]: "InvalidCommandArguments = ''.5.4''"
definition WrongProtocolVersion :: string where [status_consts]: "WrongProtocolVersion = ''.5.5''"
definition OtherOrUndefinedMediaError :: string where [status_consts]: "OtherOrUndefinedMediaError = ''.6.0''"
definition MediaNotSupported :: string where [status_consts]: "MediaNotSupported = ''.6.1''"
definition ConversionRequiredAndProhibited :: string where [status_consts]: "ConversionRequiredAndProhibited = ''.6.2''"
definition ConversionRequiredButNotSupported :: string where [status_consts]: "ConversionRequiredButNotSupported = ''.6.3''"
definition ConversionWithLossPerformed :: string where [status_consts]: "ConversionWithLossPerformed = ''.6.4''"
definition ConversionFailed :: string where [status_consts]: "ConversionFailed = ''.6.5''"

type_synonym EnhancedStatusCode = "int \<times> string"

definition defaultTexts :: "(EnhancedStatusCode \<times> string) list" where
  "defaultTexts =
    [((ClassSuccess, ''.0.0''), ''OK''),
     ((ClassSuccess, ''.1.0''), ''OK''),
     ((ClassSuccess, ''.1.5''), ''OK''),
     ((ClassSuccess, ''.5.0''), ''OK''),
     ((ClassTransientFailure, ''.5.3''), ''Too many recipients''),
     ((ClassTransientFailure, ''.5.4''), ''Relay access denied''),
     ((ClassPermanentFailure, ''.5.1''), ''Invalid command'')]"

definition codeMap :: "(EnhancedStatusCode \<times> int) list" where
  "codeMap =
    [((ClassSuccess, OtherAddressStatus), 250),
     ((ClassSuccess, DestinationMailboxAddressValid), 250),
     ((ClassSuccess, OtherOrUndefinedMailSystemStatus), 250),
     ((ClassSuccess, OtherOrUndefinedProtocolStatus), 250),
     ((ClassSuccess, ConversionWithLossPerformed), 250),
     ((ClassSuccess, ''.6.8''), 252),
     ((ClassSuccess, ''.7.0''), 220),
     ((ClassTransientFailure, BadDestinationMailboxAddress), 451),
     ((ClassTransientFailure, BadSendersSystemAddress), 451),
     ((ClassTransientFailure, MailingListExpansionProblem), 450),
     ((ClassTransientFailure, OtherOrUndefinedMailSystemStatus), 421),
     ((ClassTransientFailure, MailSystemFull), 452),
     ((ClassTransientFailure, SystemNotAcceptingNetworkMessages), 453),
     ((ClassTransientFailure, NoAnswerFromHost), 451),
     ((ClassTransientFailure, BadConnection), 421),
     ((ClassTransientFailure, RoutingServerFailure), 451),
     ((ClassTransientFailure, NetworkCongestion), 451),
     ((ClassTransientFailure, OtherOrUndefinedProtocolStatus), 451),
     ((ClassTransientFailure, InvalidCommand), 430),
     ((ClassTransientFailure, TooManyRecipients), 452),
     ((ClassTransientFailure, InvalidCommandArguments), 451),
     ((ClassTransientFailure, ''.7.0''), 450),
     ((ClassTransientFailure, ''.7.1''), 451),
     ((ClassTransientFailure, ''.7.12''), 422),
     ((ClassTransientFailure, ''.7.15''), 450),
     ((ClassTransientFailure, ''.7.24''), 451),
     ((ClassPermanentFailure, BadDestinationMailboxAddress), 550),
     ((ClassPermanentFailure, BadDestinationMailboxAddressSyntax), 501),
     ((ClassPermanentFailure, BadSendersSystemAddress), 501),
     ((ClassPermanentFailure, ''.1.10''), 556),
     ((ClassPermanentFailure, MailboxFull), 552),
     ((ClassPermanentFailure, MessageLengthExceedsAdministrativeLimit), 552),
     ((ClassPermanentFailure, OtherOrUndefinedMailSystemStatus), 550),
     ((ClassPermanentFailure, MessageTooBigForSystem), 552),
     ((ClassPermanentFailure, RoutingServerFailure), 550),
     ((ClassPermanentFailure, OtherOrUndefinedProtocolStatus), 501),
     ((ClassPermanentFailure, InvalidCommand), 500),
     ((ClassPermanentFailure, SyntaxError), 500),
     ((ClassPermanentFailure, InvalidCommandArguments), 501),
     ((ClassPermanentFailure, ''.5.6''), 500),
     ((ClassPermanentFailure, ConversionRequiredButNotSupported), 554),
     ((ClassPermanentFailure, ''.6.6''), 554),
     ((ClassPermanentFailure, ''.6.7''), 553),
     ((ClassPermanentFailure, ''.6.8''), 550),
     ((ClassPermanentFailure, ''.6.9''), 550),
     ((ClassPermanentFailure, ''.7.0''), 550),
     ((ClassPermanentFailure, ''.7.1''), 551),
     ((ClassPermanentFailure, ''.7.2''), 550),
     ((ClassPermanentFailure, ''.7.4''), 504),
     ((ClassPermanentFailure, ''.7.8''), 554),
     ((ClassPermanentFailure, ''.7.9''), 534),
     ((ClassPermanentFailure, ''.7.10''), 523),
     ((ClassPermanentFailure, ''.7.11''), 524),
     ((ClassPermanentFailure, ''.7.13''), 525),
     ((ClassPermanentFailure, ''.7.14''), 535),
     ((ClassPermanentFailure, ''.7.15''), 550),
     ((ClassPermanentFailure, ''.7.16''), 552),
     ((ClassPermanentFailure, ''.7.17''), 500),
     ((ClassPermanentFailure, ''.7.18''), 500),
     ((ClassPermanentFailure, ''.7.19''), 500),
     ((ClassPermanentFailure, ''.7.20''), 550),
     ((ClassPermanentFailure, ''.7.21''), 550),
     ((ClassPermanentFailure, ''.7.22''), 550),
     ((ClassPermanentFailure, ''.7.23''), 550),
     ((ClassPermanentFailure, ''.7.24''), 550),
     ((ClassPermanentFailure, ''.7.25''), 550),
     ((ClassPermanentFailure, ''.7.26''), 550),
     ((ClassPermanentFailure, ''.7.27''), 550)]"

section \<open>Responses with an enhanced code (responses/enhanced.go)\<close>

record response =
  enhancedCode :: string
  basicCode :: int
  resp_class :: int
  comment :: string

text \<open>The verb c of fmt writes the code point, so class 2 prints as U+0002, not as the digit.\<close>

definition class_String :: "int \<Rightarrow> string" where
  "class_String c = char_of (nat c) # ''00''"

definition EnhancedStatusCode_String :: "EnhancedStatusCode \<Rightarrow> string" where
  "EnhancedStatusCode_String e = show_int (fst e) @ snd e"

definition getBasicStatusCode :: "EnhancedStatusCode \<Rightarrow> int" where
  "getBasicStatusCode e = (case map_of codeMap e of Some v \<Rightarrow> v | None \<Rightarrow> fst e * 100)"

definition response_StatusCode :: "response \<Rightarrow> int \<times> response" where
  "response_StatusCode r =
     (let r' = (if basicCode r = 0
                then r\<lparr>basicCode := getBasicStatusCode (resp_class r, enhancedCode r)\<rparr> else r)
      in (basicCode r', r'))"

definition response_Class :: "response \<Rightarrow> int" where
  "response_Class r = resp_class r"

definition response_String :: "response \<Rightarrow> string \<times> response" where
  "response_String r =
     (if enhancedCode r = [] then (comment r, r)
      else
        let cl = response_Class r;
            (code, r') = response_StatusCode r;
            enh = (cl, enhancedCode r);
            c1 = comment r;
            c2 = (if c1 = [] then (case map_of defaultTexts enh of Some t \<Rightarrow> t | None \<Rightarrow> []) else c1);
            c3 = (if c2 = []
                  then (if cl = 2 then ''OK'' else if cl = 4 then ''Temporary failure.''
                        else if cl = 5 then ''Permanent failure.'' else c2)
                  else c2)
        in (show_int code @ [SP] @ EnhancedStatusCode_String enh @ [SP] @ c3, r'))"

section \<open>The canned responses (responses/canned.go)\<close>

definition FailLineTooLong :: response where [canned]:
  "FailLineTooLong = \<lparr>enhancedCode = InvalidCommand, basicCode = 554,
     resp_class = ClassPermanentFailure, comment = ''Line too long.''\<rparr>"

definition FailNestedMailCmd :: response where [canned]:
  "FailNestedMailCmd = \<lparr>enhancedCode = InvalidCommand, basicCode = 503,
     resp_class = ClassPermanentFailure, comment = ''GetError: nested MAIL command''\<rparr>"

definition RejectedSenderMailCmd :: response where [canned]:
  "RejectedSenderMailCmd = \<lparr>enhancedCode = InvalidCommandArguments, basicCode = 553,
     resp_class = ClassPermanentFailure, comment = ''Sender address rejected: Access denied''\<rparr>"

definition RejectedRcptCmd :: response where [canned]:
  "RejectedRcptCmd = \<lparr>enhancedCode = InvalidCommandArguments, basicCode = 553,
     resp_class = ClassPermanentFailure, comment = ''Recipient address rejected: Access denied''\<rparr>"

definition SuccessMailCmd :: response where [canned]:
  "SuccessMailCmd = \<lparr>enhancedCode = OtherAddressStatus, basicCode = 0,
     resp_class = ClassSuccess, comment = ''''\<rparr>"

definition SuccessRcptCmd :: response where [canned]:
  "SuccessRcptCmd = \<lparr>enhancedCode = DestinationMailboxAddressValid, basicCode = 0,
     resp_class = ClassSuccess, comment = ''''\<rparr>"

definition SuccessResetCmd :: response where [canned]:
  "SuccessResetCmd = SuccessMailCmd"

definition SuccessNoopCmd :: response where [canned]:
  "SuccessNoopCmd = \<lparr>enhancedCode = OtherStatus, basicCode = 0,
     resp_class = ClassSuccess, comment = ''''\<rparr>"

definition SuccessVerifyCmd :: response where [canned]:
  "SuccessVerifyCmd = \<lparr>enhancedCode = OtherOrUndefinedProtocolStatus, basicCode = 252,
     resp_class = ClassSuccess, comment = ''Cannot verify user''\<rparr>"

definition ErrorTooManyRecipients :: response where [canned]:
  "ErrorTooManyRecipients = \<lparr>enhancedCode = TooManyRecipients, basicCode = 452,
     resp_class = ClassTransientFailure, comment = ''Too many recipients''\<rparr>"

definition ErrorRelayDenied :: response where [canned]:
  "ErrorRelayDenied = \<lparr>enhancedCode = BadDestinationMailboxAddress, basicCode = 454,
     resp_class = ClassTransientFailure, comment = ''GetError: Relay access denied:''\<rparr>"

definition SuccessQuitCmd :: response where [canned]:
  "SuccessQuitCmd = \<lparr>enhancedCode = OtherStatus, basicCode = 221,
     resp_class = ClassSuccess, comment = ''Bye''\<rparr>"

definition FailNoSenderDataCmd :: response where [canned]:
  "FailNoSenderDataCmd = \<lparr>enhancedCode = InvalidCommand, basicCode = 503,
     resp_class = ClassPermanentFailure, comment = ''GetError: No sender''\<rparr>"

definition FailNoRecipientsDataCmd :: response where [canned]:
  "FailNoRecipientsDataCmd = \<lparr>enhancedCode = InvalidCommand, basicCode = 503,
     resp_class = ClassPermanentFailure, comment = ''GetError: No recipients''\<rparr>"

definition SuccessDataCmd :: response where [canned]:
  "SuccessDataCmd = \<lparr>enhancedCode = '''', basicCode = 354,
     resp_class = 0, comment = ''354 Enter message, ending with '' @ [CHR 0x27, CHR ''.'', CHR 0x27] @ '' on a line by itself''\<rparr>"

definition SuccessStartTLSCmd :: response where [canned]:
  "SuccessStartTLSCmd = \<lparr>enhancedCode = OtherStatus, basicCode = 220,
     resp_class = ClassSuccess, comment = ''Ready to start TLS''\<rparr>"

definition FailUnrecognizedCmd :: response where [canned]:
  "FailUnrecognizedCmd = \<lparr>enhancedCode = InvalidCommand, basicCode = 554,
     resp_class = ClassPermanentFailure, comment = ''Unrecognized command''\<rparr>"

definition FailMaxUnrecognizedCmd :: response where [canned]:
  "FailMaxUnrecognizedCmd = \<lparr>enhancedCode = InvalidCommand, basicCode = 554,
     resp_class = ClassPermanentFailure, comment = ''Too many unrecognized commands''\<rparr>"

definition ErrorShutdown :: response where [canned]:
  "ErrorShutdown = \<lparr>enhancedCode = OtherOrUndefinedMailSystemStatus, basicCode = 421,
     resp_class = ClassTransientFailure, comment = ''Server is shutting down. Please try again later. Sayonara!''\<rparr>"

definition FailSyntaxError :: response where [canned]:
  "FailSyntaxError = \<lparr>enhancedCode = SyntaxError, basicCode = 550,
     resp_class = ClassPermanentFailure, comment = ''Syntax error''\<rparr>"

definition FailReadLimitExceededDataCmd :: response where [canned]:
  "FailReadLimitExceededDataCmd = \<lparr>enhancedCode = MessageLengthExceedsAdministrativeLimit, basicCode = 550,
     resp_class = ClassPermanentFailure, comment = ''GetError:''\<rparr>"

definition FailMessageSizeExceeded :: response where [canned]:
  "FailMessageSizeExceeded = \<lparr>enhancedCode = OtherOrUndefinedNetworkOrRoutingStatus, basicCode = 552,
     resp_class = ClassPermanentFailure, comment = ''GetError:''\<rparr>"

definition FailReadErrorDataCmd :: response where [canned]:
  "FailReadErrorDataCmd = \<lparr>enhancedCode = OtherOrUndefinedMailSystemStatus, basicCode = 451,
     resp_class = ClassTransientFailure, comment = ''GetError:''\<rparr>"

definition FailPathTooLong :: response where [canned]:
  "FailPathTooLong = \<lparr>enhancedCode = InvalidCommandArguments, basicCode = 550,
     resp_class = ClassPermanentFailure, comment = ''Path too long''\<rparr>"

definition FailInvalidAddress :: response where [canned]:
  "FailInvalidAddress = \<lparr>enhancedCode = InvalidCommandArguments, basicCode = 501,
     resp_class = ClassPermanentFailure, comment = ''Invalid address''\<rparr>"

definition FailCommandNotImplemented :: response where [canned]:
  "FailCommandNotImplemented = \<lparr>enhancedCode = InvalidCommand, basicCode = 502,
     resp_class = ClassPermanentFailure, comment = ''Command not implemented''\<rparr>"

definition FailLocalPartTooLong :: response where [canned]:
  "FailLocalPartTooLong = \<lparr>enhancedCode = InvalidCommandArguments, basicCode = 550,
     resp_class = ClassPermanentFailure, comment = ''Local part too long, cannot exceed 64 characters''\<rparr>"

definition FailDomainTooLong :: response where [canned]:
  "FailDomainTooLong = \<lparr>enhancedCode = InvalidCommandArguments, basicCode = 550,
     resp_class = ClassPermanentFailure, comment = ''Domain cannot exceed 255 characters''\<rparr>"

definition FailBackendNotRunning :: response where [canned]:
  "FailBackendNotRunning = \<lparr>enhancedCode = OtherOrUndefinedProtocolStatus, basicCode = 554,
     resp_class = ClassPermanentFailure, comment = ''Transaction failed - backend not running''\<rparr>"

definition FailBackendTransaction :: response where [canned]:
  "FailBackendTransaction = \<lparr>enhancedCode = OtherOrUndefinedProtocolStatus, basicCode = 554,
     resp_class = ClassPermanentFailure, comment = ''GetError:''\<rparr>"

definition SuccessMessageQueued :: response where [canned]:
  "SuccessMessageQueued = \<lparr>enhancedCode = OtherStatus, basicCode = 250,
     resp_class = ClassSuccess, comment = ''OK: queued''\<rparr>"

definition SuccessMessageAccepted :: response where [canned]:
  "SuccessMessageAccepted = \<lparr>enhancedCode = OtherStatus, basicCode = 250,
     resp_class = ClassSuccess, comment = ''Message accepted''\<rparr>"

definition FailBackendTimeout :: response where [canned]:
  "FailBackendTimeout = \<lparr>enhancedCode = OtherOrUndefinedProtocolStatus, basicCode = 554,
     resp_class = ClassPermanentFailure, comment = ''GetError: transaction timeout''\<rparr>"

definition FailRcptCmd :: response where [canned]:
  "FailRcptCmd = \<lparr>enhancedCode = BadDestinationMailboxAddress, basicCode = 550,
     resp_class = ClassPermanentFailure, comment = ''User unknown in local recipient table''\<rparr>"

definition FailMailCmd :: response where [canned]:
  "FailMailCmd = \<lparr>enhancedCode = BadDestinationMailboxAddress, basicCode = 550,
     resp_class = ClassPermanentFailure, comment = ''User unknown in local recipient table''\<rparr>"

text \<open>All of them, in the order of the file.\<close>

definition canned_responses :: "response list" where
  "canned_responses =
    [FailLineTooLong, FailNestedMailCmd, RejectedSenderMailCmd, RejectedRcptCmd,
     SuccessMailCmd, SuccessRcptCmd, SuccessResetCmd, SuccessNoopCmd, SuccessVerifyCmd,
     ErrorTooManyRecipients, ErrorRelayDenied, SuccessQuitCmd, FailNoSenderDataCmd,
     FailNoRecipientsDataCmd, SuccessDataCmd, SuccessStartTLSCmd, FailUnrecognizedCmd,
     FailMaxUnrecognizedCmd, ErrorShutdown, FailSyntaxError, FailReadLimitExceededDataCmd,
     FailMessageSizeExceeded, FailReadErrorDataCmd, FailPathTooLong, FailInvalidAddress,
     FailCommandNotImplemented, FailLocalPartTooLong, FailDomainTooLong,
     FailBackendNotRunning, FailBackendTransaction, SuccessMessageQueued,
     SuccessMessageAccepted, FailBackendTimeout, FailRcptCmd, FailMailCmd]"

section \<open>The Response interface (response.go)\<close>

text \<open>
  What a handler can answer with: a response of the package responses, the result of
  NewResponse, or a response wrapped with an error by WrapResponse.
\<close>

datatype Response = Canned response | Result int string | ResultErr Response string

definition NewResponse :: "int \<Rightarrow> string \<Rightarrow> Response" where
  "NewResponse code cmt = Result code cmt"

definition WrapResponse :: "Response \<Rightarrow> string \<Rightarrow> Response" where
  "WrapResponse res err = ResultErr res err"

definition result_String :: "int \<Rightarrow> string \<Rightarrow> string" where
  "result_String code str =
     (let q = go_quot code 100;
          clazz = (if q = 2 then ''OK'' else if q = 4 then ''Temporary failure''
                   else if q = 5 then ''Permanent failure'' else [])
      in show_int code @ [SP] @ clazz @ '': '' @ str)"

fun Response_String :: "Response \<Rightarrow> string" where
  "Response_String (Canned r) = fst (response_String r)"
| "Response_String (Result code str) = result_String code str"
| "Response_String (ResultErr res err) = Response_String res"

fun Response_StatusCode :: "Response \<Rightarrow> int" where
  "Response_StatusCode (Canned r) = fst (response_StatusCode r)"
| "Response_StatusCode (Result code str) = code"
| "Response_StatusCode (ResultErr res err) = Response_StatusCode res"

fun Response_Class :: "Response \<Rightarrow> int" where
  "Response_Class (Canned r) = response_Class r"
| "Response_Class (Result code str) = go_quot code 100"
| "Response_Class (ResultErr res err) = Response_Class res"

text \<open>The method Error, which only a wrapped response has.\<close>

fun Response_Error :: "Response \<Rightarrow> string option" where
  "Response_Error (ResultErr res err) = Some err"
| "Response_Error (Canned r) = None"
| "Response_Error (Result code str) = None"

section \<open>Properties\<close>

text \<open>Every code of the table lies in the hundred of its class.\<close>

lemma codeMap_class: "\<forall>(e, v) \<in> set codeMap. v div 100 = fst e"
  by (simp add: codeMap_def status_consts)

lemma getBasicStatusCode_class: "getBasicStatusCode e div 100 = fst e"
proof (cases "map_of codeMap e")
  case None
  then show ?thesis by (simp add: getBasicStatusCode_def)
next
  case (Some v)
  then have "(e, v) \<in> set codeMap" by (rule map_of_SomeD)
  with codeMap_class have "v div 100 = fst e" by fastforce
  with Some show ?thesis by (simp add: getBasicStatusCode_def)
qed

text \<open>A response answers every later query as it would have answered it first.\<close>

lemma StatusCode_memo:
  "response_StatusCode (snd (response_StatusCode r)) =
     (fst (response_StatusCode r), snd (response_StatusCode r))"
  by (simp add: response_StatusCode_def Let_def)

lemma String_updates: "snd (response_String r) = r \<or> snd (response_String r) = snd (response_StatusCode r)"
  by (simp add: response_String_def Let_def split: prod.splits)

lemma String_after_StatusCode:
  "fst (response_String (snd (response_StatusCode r))) = fst (response_String r)"
  by (simp add: response_String_def response_StatusCode_def response_Class_def Let_def)

lemma StatusCode_after_String:
  "fst (response_StatusCode (snd (response_String r))) = fst (response_StatusCode r)"
  using String_updates [of r] StatusCode_memo [of r] by (elim disjE) (simp_all only: fst_conv)

end
