(* ===== verification/Handlers.thy ===== *)
theory Handlers imports Envelope Responses begin

text \<open>
  Handlers and the chain the server builds from them: backend.go, and the part of server.go's
  DATA case that wraps the handler with the middlewares. A handler works on a shared envelope
  and answers with a response, with nil, or by panicking; a panic leaves the envelope as the
  handler had changed it.
\<close>

section \<open>Handlers (backend.go)\<close>

datatype outcome = Returned "Response option" | Panicked string

type_synonym HandlerFunc = "envelope \<Rightarrow> outcome \<times> envelope"
type_synonym Middleware = "HandlerFunc \<Rightarrow> HandlerFunc"

text \<open>Reading a field through a nil pointer, here the missing sender.\<close>

definition nil_pointer :: string where
  "nil_pointer = ''runtime error: invalid memory address or nil pointer dereference''"

definition NewHandler :: "HandlerFunc \<Rightarrow> HandlerFunc" where
  "NewHandler f = (\<lambda>e. f e)"

definition NoopBackend :: HandlerFunc where
  "NoopBackend = NewHandler (\<lambda>e. (Returned None, e))"

section \<open>The chain (server.go)\<close>

definition nil2success :: "HandlerFunc \<Rightarrow> HandlerFunc" where
  "nil2success h e =
     (case h e of
        (Returned None, e') \<Rightarrow> (Returned (Some (Canned SuccessMessageAccepted)), e')
      | (out, e') \<Rightarrow> (out, e'))"

text \<open>The middlewares from the last to the first, nil ones passed over, around the handler.\<close>

definition build_chain :: "Middleware option list \<Rightarrow> HandlerFunc \<Rightarrow> HandlerFunc" where
  "build_chain mws h =
     fold (\<lambda>m start. case m of None \<Rightarrow> start | Some f \<Rightarrow> nil2success (f start)) (rev mws)
       (nil2success h)"

section \<open>What every middleware of a chain keeps\<close>

text \<open>
  A contract on handlers that nil2success keeps and that every allowed middleware passes on from
  the handler it wraps: the whole chain has it.
\<close>

locale handler_contract =
  fixes keeps :: "HandlerFunc \<Rightarrow> bool"
    and allowed :: "Middleware \<Rightarrow> bool"
  assumes keeps_nil2success: "keeps h \<Longrightarrow> keeps (nil2success h)"
    and keeps_middleware: "allowed m \<Longrightarrow> keeps h \<Longrightarrow> keeps (m h)"
begin

lemma keeps_fold:
  "(\<And>m. Some m \<in> set ms \<Longrightarrow> allowed m) \<Longrightarrow> keeps h \<Longrightarrow>
     keeps (fold (\<lambda>m start. case m of None \<Rightarrow> start | Some f \<Rightarrow> nil2success (f start)) ms h)"
  by (induction ms arbitrary: h)
    (auto intro: keeps_nil2success keeps_middleware split: option.splits)

lemma keeps_chain:
  "(\<And>m. Some m \<in> set mws \<Longrightarrow> allowed m) \<Longrightarrow> keeps h \<Longrightarrow> keeps (build_chain mws h)"
  unfolding build_chain_def by (rule keeps_fold) (auto intro: keeps_nil2success)

end

section \<open>Properties\<close>

lemma build_chain_Nil [simp]: "build_chain [] h = nil2success h"
  by (simp add: build_chain_def)

lemma build_chain_Cons:
  "build_chain (m # mws) h =
     (case m of None \<Rightarrow> build_chain mws h | Some f \<Rightarrow> nil2success (f (build_chain mws h)))"
  unfolding build_chain_def by simp

lemma nil2success_idem [simp]: "nil2success (nil2success h) = nil2success h"
  by (rule ext) (auto simp: nil2success_def split: prod.splits outcome.splits option.splits)

lemma nil2success_never_nil: "fst (nil2success h e) \<noteq> Returned None"
  by (auto simp: nil2success_def split: prod.splits outcome.splits option.splits)

lemma nil2success_build_chain [simp]: "nil2success (build_chain mws h) = build_chain mws h"
  by (induction mws) (auto simp: build_chain_Cons split: option.splits)

lemma build_chain_append: "build_chain (pre @ post) h = build_chain pre (build_chain post h)"
  by (induction pre) (auto simp: build_chain_Cons split: option.splits)

lemma build_chain_filter:
  "build_chain mws h = build_chain (map Some [f. Some f \<leftarrow> mws]) h"
  by (induction mws) (auto simp: build_chain_Cons split: option.splits)

lemma build_chain_never_nil: "fst (build_chain mws h e) \<noteq> Returned None"
proof (induction mws)
  case (Cons m mws)
  then show ?case by (cases m) (auto simp: build_chain_Cons nil2success_never_nil)
qed (simp add: nil2success_never_nil)

text \<open>
  A middleware that runs a piece of code before and one after the handler it wraps, as the ones
  of the package do; traced records the two in the envelope's context, for the order of a chain.
\<close>

definition traced :: "string \<Rightarrow> Middleware" where
  "traced n nxt e =
     (let (out, e') = nxt (WithContext ((''pre'', CtxString n) # ctx e) e)
      in (out, WithContext ((''post'', CtxString n) # ctx e') e'))"

lemma nil2success_ctx: "ctx (snd (nil2success h e)) = ctx (snd (h e))"
  by (auto simp: nil2success_def split: prod.splits outcome.splits option.splits)

lemma traced_ctx:
  "ctx (snd (traced n h e)) =
     (''post'', CtxString n) # ctx (snd (h (WithContext ((''pre'', CtxString n) # ctx e) e)))"
  by (simp add: traced_def WithContext_def split: prod.splits)

lemma chain_order_acc:
  "(\<And>e. ctx (snd (h e)) = ctx e) \<Longrightarrow>
     ctx (snd (build_chain (map (Some \<circ> traced) ns) h e)) =
       map (\<lambda>n. (''post'', CtxString n)) ns @ rev (map (\<lambda>n. (''pre'', CtxString n)) ns) @ ctx e"
  by (induction ns arbitrary: e)
    (simp_all add: build_chain_Cons nil2success_ctx traced_ctx WithContext_def)


end
