(* ===== verification/Middleware.thy ===== *)
theory Middleware imports Handlers begin

text \<open>
  The middlewares of the package middleware: middleware.go (headers put in front of the message),
  recover.go, email.go and domains.go (filters on recipients and senders) and log.go. Each is a
  function from the handler it wraps to a handler, as in the code. The clock is an argument: the
  formatted time AddReceivedHeaders prints.
\<close>

section \<open>Headers (middleware.go)\<close>

definition AddReturnPath :: Middleware where
  "AddReturnPath nxt e =
     (case MailFrom e of
        None \<Rightarrow> (Panicked nil_pointer, e)
      | Some a \<Rightarrow> nxt (PrependHeader ''Return-Path'' (''<'' @ addr_Address a @ ''>'') e))"

definition AddDeliveredHeaders :: Middleware where
  "AddDeliveredHeaders nxt e =
     (case RcptTo e of
        [r] \<Rightarrow> nxt (PrependHeader ''Delivered-To'' (addr_Address r) e)
      | _ \<Rightarrow> nxt e)"

definition received_protocol :: "envelope \<Rightarrow> string" where
  "received_protocol e =
     (let p = ''SMTP''; p1 = (if ESMTP e then ''E'' @ p else p)
      in if TLS e then p1 @ ''S'' else p1)"

definition received_value :: "string \<Rightarrow> string \<Rightarrow> envelope \<Rightarrow> string" where
  "received_value hostname now e =
     (let ident = show_nat (unat (ConnectionId e)) @ ''-'' @ EnvelopeId e @ ''@'' @ hostname;
          r1 = ''from '' @ Helo e @ '' ('' @ Helo e @ '' ['' @ RemoteAddr_String (RemoteAddr e) @ ''])'' @ crlf;
          r2 = r1 @ ''  by '' @ hostname @ '' with '' @ received_protocol e @ '' id '' @ ident @ crlf;
          r3 = (case RcptTo e of [r] \<Rightarrow> r2 @ ''  for <'' @ addr_Address r @ ''>'' @ crlf | _ \<Rightarrow> r2)
      in trim_space r3 @ '';'' @ crlf @ ''  '' @ now)"

definition AddReceivedHeaders :: "string \<Rightarrow> string \<Rightarrow> Middleware" where
  "AddReceivedHeaders hostname now nxt e =
     nxt (PrependHeader ''Received'' (received_value hostname now e) e)"

section \<open>Recover (recover.go)\<close>

definition Recover :: Middleware where
  "Recover nxt e =
     (case nxt e of
        (Panicked r, e') \<Rightarrow>
          (Returned (Some (NewResponse 500 ''Internal Server GetError'')),
           SetError (''recovered: '' @ r) e')
      | (Returned res, e') \<Rightarrow> (Returned res, e'))"

section \<open>Recipients and senders (email.go, domains.go)\<close>

definition FilterRecipient :: "(address \<Rightarrow> bool) \<Rightarrow> Middleware" where
  "FilterRecipient include_rcpt nxt e =
     (let res = filter include_rcpt (RcptTo e); e' = e\<lparr>RcptTo := res\<rparr>
      in if RcptTo e' \<noteq> [] then nxt e'
         else (Returned (Some (NewResponse 550 ''filtered recipient'')), e'))"

text \<open>The lookup table of the configured domains, in lower case.\<close>

definition domain_table :: "string list \<Rightarrow> string list" where
  "domain_table domain = map to_lower domain"

definition FilterRecipientDomains :: "string list \<Rightarrow> Middleware" where
  "FilterRecipientDomains domain nxt e =
     (let tbl = domain_table domain in
      if tbl = [] then nxt e
      else
        let res = filter (\<lambda>r. DomainOfEmail (Some r) \<in> set tbl) (RcptTo e);
            e' = e\<lparr>RcptTo := res\<rparr>
        in if res \<noteq> [] then nxt e'
           else (Returned (Some (NewResponse 550 ''Recipient domain not allowed'')), e'))"

definition RecipientDomainsWhitelist :: "string list \<Rightarrow> Middleware" where
  "RecipientDomainsWhitelist domain nxt e =
     (let tbl = domain_table domain in
      if tbl = [] then nxt e
      else if list_ex (\<lambda>r. to_lower (DomainOfEmail (Some r)) \<in> set tbl) (RcptTo e) then nxt e
      else (Returned (Some (NewResponse 550 ''Recipient domain not allowed'')), e))"

definition SenderDomainsWhitelist :: "string list \<Rightarrow> Middleware" where
  "SenderDomainsWhitelist domain nxt e =
     (let tbl = domain_table domain in
      if tbl = [] then nxt e
      else if to_lower (DomainOfEmail (MailFrom e)) \<notin> set tbl
      then (Returned (Some (NewResponse 550 ''Sender domain not allowed'')), e)
      else nxt e)"

section \<open>Logger (log.go)\<close>

text \<open>
  The values of the fields and the records made of them; a field function can panic (Inl).
  Writing the records has no effect on the envelope or the response.
\<close>

datatype log_value =
  LogString string | LogBool bool | LogStrings "string list" | LogInt int | LogAddr remote_addr
  | LogError string

type_synonym log_field = "string \<times> log_value"

record LoggerSettings =
  Skip :: "(envelope \<Rightarrow> bool) option"
  PreFields :: "(envelope \<Rightarrow> string + log_field) list"
  PostFields :: "(envelope \<Rightarrow> Response option \<Rightarrow> string + log_field) list"

definition default_settings :: LoggerSettings where
  "default_settings = \<lparr>Skip = None,
     PreFields =
       [\<lambda>e. Inr (''HELO'', LogString (Helo e)),
        \<lambda>e. Inr (''remote-ip'', LogAddr (RemoteAddr e)),
        \<lambda>e. (case MailFrom e of None \<Rightarrow> Inl nil_pointer
              | Some a \<Rightarrow> Inr (''MAIL'', LogString (addr_Address a))),
        \<lambda>e. Inr (''RCPT'', LogStrings (map addr_Address (RcptTo e))),
        \<lambda>e. Inr (''TLS'', LogBool (TLS e)),
        \<lambda>e. Inr (''ESMTP'', LogBool (ESMTP e)),
        \<lambda>e. Inr (''UTF8'', LogBool (UTF8 e)),
        \<lambda>e. Inr (''size'', LogInt (int (data_Len (Data e))))],
     PostFields =
       [\<lambda>e res. Inr (''code'', LogInt (case res of None \<Rightarrow> 250 | Some r \<Rightarrow> Response_StatusCode r)),
        \<lambda>e res. Inr (''response'', LogString (case res of None \<Rightarrow> [] | Some r \<Rightarrow> Response_String r)),
        \<lambda>e res. Inr (''size'', LogInt (int (data_Len (Data e))))]\<rparr>"

definition WithSkipper :: "(envelope \<Rightarrow> bool) \<Rightarrow> LoggerSettings \<Rightarrow> LoggerSettings" where
  "WithSkipper s settings = settings\<lparr>Skip := Some s\<rparr>"

fun run_fields :: "('x \<Rightarrow> string + log_field) list \<Rightarrow> 'x \<Rightarrow> string + log_field list" where
  "run_fields [] x = Inr []"
| "run_fields (f # fs) x =
     (case f x of Inl p \<Rightarrow> Inl p
      | Inr fld \<Rightarrow> (case run_fields fs x of Inl p \<Rightarrow> Inl p | Inr args \<Rightarrow> Inr (fld # args)))"

definition response_fields ::
  "LoggerSettings \<Rightarrow> envelope \<Rightarrow> Response option \<Rightarrow> string + log_field list" where
  "response_fields settings e res =
     (case run_fields (map (\<lambda>f (e, r). f e r) (PostFields settings)) (e, res) of
        Inl p \<Rightarrow> Inl p
      | Inr args \<Rightarrow>
          Inr (args @ (case GetError e of None \<Rightarrow> [] | Some err \<Rightarrow> [(''err'', LogError err)])))"

text \<open>have_logger is false for a nil logger, opts are the options that are not nil.\<close>

definition Logger :: "bool \<Rightarrow> (LoggerSettings \<Rightarrow> LoggerSettings) list \<Rightarrow> Middleware" where
  "Logger have_logger opts nxt e =
     (let settings = fold (\<lambda>opt s. opt s) opts default_settings in
      if \<not> have_logger then nxt e
      else if (case Skip settings of None \<Rightarrow> False | Some s \<Rightarrow> s e) then nxt e
      else (case run_fields (PreFields settings) e of
          Inl p \<Rightarrow> (Panicked p, e)
        | Inr args \<Rightarrow>
            (case nxt e of
               (Panicked p, e') \<Rightarrow> (Panicked p, e')
             | (Returned res, e') \<Rightarrow>
                 (case response_fields settings e' res of
                    Inl p \<Rightarrow> (Panicked p, e')
                  | Inr args' \<Rightarrow> (Returned res, e')))))"

section \<open>What the middlewares keep\<close>

text \<open>
  From the envelope that enters a handler to the one that leaves it: headers are put in front of
  the message, recipients are dropped, and nothing else of the transaction changes.
\<close>

definition only_adds_headers :: "envelope \<Rightarrow> envelope \<Rightarrow> bool" where
  "only_adds_headers e e' \<longleftrightarrow>
     (\<exists>hs. data_Bytes (Data e') = hs @ data_Bytes (Data e)) \<and> subseq (RcptTo e') (RcptTo e) \<and>
     MailFrom e' = MailFrom e \<and> Helo e' = Helo e \<and> RemoteAddr e' = RemoteAddr e \<and>
     TLS e' = TLS e \<and> UTF8 e' = UTF8 e \<and> ESMTP e' = ESMTP e \<and>
     ConnectionId e' = ConnectionId e \<and> EnvelopeId e' = EnvelopeId e"

definition adds_headers :: "HandlerFunc \<Rightarrow> bool" where
  "adds_headers h \<longleftrightarrow> (\<forall>e. only_adds_headers e (snd (h e)))"

text \<open>The middlewares of the package, with any arguments.\<close>

inductive package_middleware :: "Middleware \<Rightarrow> bool" where
  "package_middleware AddReturnPath"
| "package_middleware AddDeliveredHeaders"
| "package_middleware (AddReceivedHeaders hostname now)"
| "package_middleware Recover"
| "package_middleware (FilterRecipient inc)"
| "package_middleware (FilterRecipientDomains ds)"
| "package_middleware (RecipientDomainsWhitelist ds)"
| "package_middleware (SenderDomainsWhitelist ds)"
| "package_middleware (Logger l opts)"

lemma only_adds_headers_refl [simp]: "only_adds_headers e e"
  by (simp add: only_adds_headers_def)

lemma only_adds_headers_trans:
  "only_adds_headers e f \<Longrightarrow> only_adds_headers f g \<Longrightarrow> only_adds_headers e g"
  by (auto simp: only_adds_headers_def intro: subseq_order.order_trans)

lemma only_adds_headers_steps:
  "only_adds_headers e (PrependHeader k v e)"
  "only_adds_headers e (e\<lparr>RcptTo := filter P (RcptTo e)\<rparr>)"
  "only_adds_headers e (e\<lparr>RcptTo := []\<rparr>)"
  "only_adds_headers e (SetError err e)"
  by (simp_all add: only_adds_headers_def Bytes_PrependHeader SetError_GetError)
    (simp_all add: PrependHeader_def ConnectionId_def EnvelopeId_def SetError_def)

lemma adds_headersD: "adds_headers h \<Longrightarrow> only_adds_headers e f \<Longrightarrow> only_adds_headers e (snd (h f))"
  unfolding adds_headers_def by (blast intro: only_adds_headers_trans)

lemma adds_headers_middleware:
  assumes "package_middleware m" "adds_headers h"
  shows "adds_headers (m h)"
  unfolding adds_headers_def
proof
  fix e
  note step = adds_headersD [OF assms(2)] only_adds_headers_steps
  note here = adds_headersD [OF assms(2) only_adds_headers_refl]
  show "only_adds_headers e (snd (m h e))"
    using assms(1)
  proof cases
    case 1
    then show ?thesis by (auto simp: AddReturnPath_def split: option.splits intro: step)
  next
    case 2
    then show ?thesis by (auto simp: AddDeliveredHeaders_def split: list.splits intro: step here)
  next
    case (3 hostname now)
    then show ?thesis by (auto simp: AddReceivedHeaders_def intro: step)
  next
    case 4
    then show ?thesis using here [of e]
      by (auto simp: Recover_def split: prod.splits outcome.splits
          intro: only_adds_headers_trans only_adds_headers_steps)
  next
    case (5 inc)
    then show ?thesis by (auto simp: FilterRecipient_def Let_def intro: step)
  next
    case (6 ds)
    then show ?thesis by (auto simp: FilterRecipientDomains_def Let_def intro: step here)
  next
    case (7 ds)
    then show ?thesis by (auto simp: RecipientDomainsWhitelist_def Let_def intro: here)
  next
    case (8 ds)
    then show ?thesis by (auto simp: SenderDomainsWhitelist_def Let_def intro: here)
  next
    case (9 l opts)
    then show ?thesis using here [of e]
      by (auto simp: Logger_def Let_def split: prod.splits outcome.splits sum.splits option.splits)
  qed
qed

lemma snd_nil2success: "snd (nil2success h e) = snd (h e)"
  by (auto simp: nil2success_def split: prod.splits outcome.splits option.splits)

interpretation headers_contract: handler_contract adds_headers package_middleware
  by unfold_locales (simp add: adds_headers_def snd_nil2success, rule adds_headers_middleware)

text \<open>No panic leaves a handler.\<close>

definition panic_free :: "HandlerFunc \<Rightarrow> bool" where
  "panic_free h \<longleftrightarrow> (\<forall>e. \<exists>res. fst (h e) = Returned res)"

lemma panic_free_Recover: "panic_free (Recover h)"
  by (auto simp: panic_free_def Recover_def split: prod.splits outcome.splits)

lemma panic_free_nil2success: "panic_free h \<Longrightarrow> panic_free (nil2success h)"
  unfolding panic_free_def nil2success_def
  by (auto split: prod.splits outcome.splits option.splits) (metis fst_conv outcome.distinct(1))

text \<open>The middlewares that cannot panic themselves: those that do not read the sender's address.\<close>

inductive total_middleware :: "Middleware \<Rightarrow> bool" where
  "total_middleware AddDeliveredHeaders"
| "total_middleware (AddReceivedHeaders hostname now)"
| "total_middleware Recover"
| "total_middleware (FilterRecipient inc)"
| "total_middleware (FilterRecipientDomains ds)"
| "total_middleware (RecipientDomainsWhitelist ds)"
| "total_middleware (SenderDomainsWhitelist ds)"

lemma panic_free_middleware: "total_middleware m \<Longrightarrow> panic_free h \<Longrightarrow> panic_free (m h)"
  by (induction rule: total_middleware.induct)
    (auto simp: panic_free_def AddDeliveredHeaders_def AddReceivedHeaders_def Recover_def
      FilterRecipient_def FilterRecipientDomains_def RecipientDomainsWhitelist_def
      SenderDomainsWhitelist_def Let_def split: list.splits prod.splits outcome.splits)

interpretation panic_contract: handler_contract panic_free total_middleware
  by unfold_locales (auto intro: panic_free_nil2success panic_free_middleware)

section \<open>Properties\<close>

text \<open>
  C21: Recover as the first middleware contains every panic of the rest of the chain: the client
  gets a 500 response and the envelope carries the panic as its error; a chain that returns is
  left alone, and an answer is always a response.
\<close>

theorem recover_contains_panics:
  "build_chain (Some Recover # mws) h e =
     (case build_chain mws h e of
        (Panicked p, e') \<Rightarrow>
          (Returned (Some (Result 500 ''Internal Server GetError'')), SetError (''recovered: '' @ p) e')
      | (Returned res, e') \<Rightarrow> (Returned res, e'))
   \<and> (\<exists>r. fst (build_chain (Some Recover # mws) h e) = Returned (Some r))"
proof -
  have "fst (build_chain (Some Recover # mws) h e) \<noteq> Returned None"
    by (rule build_chain_never_nil)
  moreover have "panic_free (build_chain (Some Recover # mws) h)"
    by (simp add: build_chain_Cons panic_free_nil2success panic_free_Recover)
  ultimately have "\<exists>r. fst (build_chain (Some Recover # mws) h e) = Returned (Some r)"
    unfolding panic_free_def by (metis not_None_eq)
  then show ?thesis using build_chain_never_nil [of mws h e]
    by (auto simp: build_chain_Cons nil2success_def Recover_def NewResponse_def
        split: prod.splits outcome.splits option.splits)
qed

text \<open>
  Middlewares that read no sender cannot panic, so a chain in which only such ones stand
  before Recover never panics, whatever stands behind it.
\<close>

theorem recover_anywhere:
  assumes "\<And>m. Some m \<in> set pre \<Longrightarrow> total_middleware m"
  shows "\<exists>r. fst (build_chain (pre @ Some Recover # post) h e) = Returned (Some r)"
proof -
  have "panic_free (build_chain (Some Recover # post) h)"
    by (simp add: build_chain_Cons panic_free_nil2success panic_free_Recover)
  then have "panic_free (build_chain pre (build_chain (Some Recover # post) h))"
    using panic_contract.keeps_chain [of pre "build_chain (Some Recover # post) h"] assms by blast
  then obtain res where "fst (build_chain (pre @ Some Recover # post) h e) = Returned res"
    unfolding panic_free_def build_chain_append by blast
  then show ?thesis using build_chain_never_nil [of "pre @ Some Recover # post" h e]
    by (cases res) auto
qed

theorem recover_anywhere_witness:
  "\<exists>r. fst (build_chain ([Some AddDeliveredHeaders] @ Some Recover # [Some AddReturnPath]) NoopBackend
      (NewEnvelope (PeerAddr ''::1'') 1 ''x'')) = Returned (Some r)"
proof -
  have "\<And>m. Some m \<in> set [Some AddDeliveredHeaders] \<Longrightarrow> total_middleware m"
    by (auto intro: total_middleware.intros)
  from recover_anywhere [OF this] show ?thesis by blast
qed

text \<open>
  A chain of any of the package's middlewares around a handler that at most adds headers and
  drops recipients does no more: the received message is a suffix of what comes out, the
  recipients are a subsequence of the received ones, and the rest of the transaction is as received.
\<close>

theorem chain_only_adds_headers:
  assumes "\<And>m. Some m \<in> set mws \<Longrightarrow> package_middleware m" "\<And>e. only_adds_headers e (snd (h e))"
  shows "only_adds_headers e (snd (build_chain mws h e))"
  using headers_contract.keeps_chain [of mws h] assms by (simp add: adds_headers_def)

theorem chain_only_adds_headers_witness:
  "only_adds_headers (NewEnvelope (PeerAddr ''::1'') 1 ''x'')
     (snd (build_chain [Some AddReturnPath, Some Recover, None] NoopBackend
       (NewEnvelope (PeerAddr ''::1'') 1 ''x'')))"
proof -
  have "\<And>m. Some m \<in> set [Some AddReturnPath, Some Recover, None] \<Longrightarrow> package_middleware m"
    by (auto intro: package_middleware.intros)
  moreover have "\<And>e. only_adds_headers e (snd (NoopBackend e))"
    by (simp add: NoopBackend_def NewHandler_def)
  ultimately show ?thesis by (rule chain_only_adds_headers)
qed

text \<open>
  FilterRecipientDomains calls the next handler with exactly the recipients of the configured
  domains, in order and with nothing else changed; if there are none it answers 550 and does not
  call it; with no domain configured it does nothing. The comparison ignores case on both sides.
\<close>

theorem FilterRecipientDomains_correct:
  "FilterRecipientDomains ds nxt e =
     (let good = [r \<leftarrow> RcptTo e. \<exists>d \<in> set ds. to_lower (last (split_on (CHR ''@'') (addr_Address r))) = to_lower d]
      in if ds = [] then nxt e
         else if good = [] then (Returned (Some (Result 550 ''Recipient domain not allowed'')), e\<lparr>RcptTo := []\<rparr>)
         else nxt (e\<lparr>RcptTo := good\<rparr>))"
  by (auto simp: FilterRecipientDomains_def domain_table_def DomainOfEmail_def Let_def
      NewResponse_def image_iff intro!: arg_cong [where f = nxt] filter_cong)

text \<open>
  AddReturnPath dereferences the sender: with a sender it puts a Return-Path header with the
  address in front of the message and calls on; without one it panics and never calls on.
\<close>

theorem AddReturnPath_sender:
  "AddReturnPath nxt (e\<lparr>MailFrom := None\<rparr>) = (Panicked nil_pointer, e\<lparr>MailFrom := None\<rparr>)
   \<and> (\<exists>e'. AddReturnPath nxt (e\<lparr>MailFrom := Some a\<rparr>) = nxt e' \<and>
        data_Bytes (Data e') = ''Return-Path: <'' @ addr_Address a @ ''>'' @ crlf @ data_Bytes (Data e))"
proof -
  have key: "CanonicalMIMEHeaderKey ''Return-Path'' = ''Return-Path''" by code_simp
  show ?thesis by (auto simp: AddReturnPath_def Bytes_PrependHeader header_line_def key
        intro!: exI [of _ "PrependHeader ''Return-Path'' _ _"])
qed

end
