(* ===== verification/Reader.thy ===== *)
theory Reader imports Go_Strings begin

text \<open>
  The reader of a connection (reader.go) with the parts of bufio and net/textproto it is built
  on. The connection is the list of the chunks its Read calls will find, in order, and the
  error that follows them; how a message is cut into chunks is arbitrary. limitedReader counts
  the bytes taken from the connection; bufio.Reader takes up to 4096 of them ahead of what the
  lines and the DATA section consume.
\<close>

section \<open>The connection and the limit (reader.go)\<close>

text \<open>
  The errors a read can end with. LimitReached is the join of io.EOF and LimitError that
  limitedReader returns: errors.Is finds LimitError in it, and it is not equal to io.EOF.
\<close>

datatype ioerr = EOF | UnexpectedEOF | LimitReached | Timeout | OtherErr string

definition LimitError_Error :: string where
  "LimitError_Error = ''read limit reached''"

fun ioerr_Error :: "ioerr \<Rightarrow> string" where
  "ioerr_Error EOF = ''EOF''"
| "ioerr_Error UnexpectedEOF = ''unexpected EOF''"
| "ioerr_Error LimitReached = ''EOF'' @ [LF] @ LimitError_Error"
| "ioerr_Error Timeout = ''i/o timeout''"
| "ioerr_Error (OtherErr s) = s"

record raw_conn =
  chunks :: "string list"
  raw_end :: ioerr

text \<open>
  Read with a slice of p bytes, for p positive: at most p bytes of the next chunk, or the error
  once there is none. A Read that returns neither a byte nor an error does not happen on a
  network connection; empty chunks are passed over.
\<close>

fun conn_read :: "nat \<Rightarrow> string list \<Rightarrow> ioerr \<Rightarrow> (string \<times> ioerr option) \<times> string list" where
  "conn_read p [] e = (([], Some e), [])"
| "conn_read p (c # cs) e =
     (if c = [] then conn_read p cs e
      else ((take p c, None), if drop p c = [] then cs else drop p c # cs))"

text \<open>smtpReader with its limitedReader and the state of the buffer between them and textproto.\<close>

record smtpReader =
  rd_n :: int
  limit_N :: int
  conn_raw :: raw_conn
  buffered :: string
  buf_err :: "ioerr option"

definition limited_read :: "nat \<Rightarrow> smtpReader \<Rightarrow> (string \<times> ioerr option) \<times> smtpReader" where
  "limited_read p r =
     (if limit_N r \<le> 0 then (([], Some LimitReached), r)
      else
        let q = (if int p > limit_N r then nat (limit_N r) else p);
            ((bs, e), cs) = conn_read q (chunks (conn_raw r)) (raw_end (conn_raw r))
        in ((bs, e), r\<lparr>limit_N := limit_N r - int (length bs),
                       conn_raw := (conn_raw r)\<lparr>chunks := cs\<rparr>\<rparr>))"

definition NewSMTPReader :: "raw_conn \<Rightarrow> int \<Rightarrow> smtpReader" where
  "NewSMTPReader raw n =
     \<lparr>rd_n = n, limit_N = n, conn_raw = raw, buffered = [], buf_err = None\<rparr>"

definition Limit :: "smtpReader \<Rightarrow> int" where
  "Limit r = rd_n r"

definition ResetLimit :: "smtpReader \<Rightarrow> smtpReader" where
  "ResetLimit r = r\<lparr>limit_N := rd_n r\<rparr>"

section \<open>bufio.Reader\<close>

definition bufsize :: nat where
  "bufsize = 4096"

definition fill :: "smtpReader \<Rightarrow> smtpReader" where
  "fill r =
     (let ((bs, e), r') = limited_read (bufsize - length (buffered r)) r
      in r'\<lparr>buffered := buffered r @ bs,
            buf_err := (case e of None \<Rightarrow> buf_err r | Some x \<Rightarrow> Some x)\<rparr>)"

text \<open>How many bytes, and chunk boundaries, are still to come from the connection.\<close>

definition raw_size :: "raw_conn \<Rightarrow> nat" where
  "raw_size c = sum_list (map (\<lambda>x. Suc (length x)) (chunks c))"

definition pending :: "smtpReader \<Rightarrow> nat" where
  "pending r = length (buffered r) + raw_size (conn_raw r)"

lemma conn_read_size:
  "0 < p \<Longrightarrow> conn_read p cs e = ((bs, x), cs') \<Longrightarrow>
     sum_list (map (\<lambda>y. Suc (length y)) cs') + length bs \<le> sum_list (map (\<lambda>y. Suc (length y)) cs)
     \<and> (x = None \<longrightarrow> 0 < length bs) \<and> (x \<noteq> None \<longrightarrow> bs = [])"
  by (induction cs) (auto split: if_splits)

lemma limited_read_size:
  assumes "0 < p" "limited_read p r = ((bs, x), r')"
  shows "raw_size (conn_raw r') + length bs \<le> raw_size (conn_raw r)
    \<and> (x = None \<longrightarrow> 0 < length bs) \<and> (x \<noteq> None \<longrightarrow> bs = [])"
proof (cases "limit_N r \<le> 0")
  case True
  with assms show ?thesis by (auto simp: limited_read_def)
next
  case False
  define q where "q = (if int p > limit_N r then nat (limit_N r) else p)"
  have "0 < q" using False assms(1) by (simp add: q_def)
  obtain bs' x' cs where cr: "conn_read q (chunks (conn_raw r)) (raw_end (conn_raw r)) = ((bs', x'), cs)"
    by (metis prod.exhaust)
  with assms False have eqs: "bs = bs'" "x = x'" "chunks (conn_raw r') = cs"
    by (auto simp: limited_read_def Let_def q_def [symmetric])
  from conn_read_size [OF \<open>0 < q\<close> cr] show ?thesis
    by (simp add: eqs raw_size_def)
qed

lemma fill_size:
  assumes "length (buffered r) < bufsize" "buf_err r = None"
  shows "raw_size (conn_raw (fill r)) < raw_size (conn_raw r) \<and> buf_err (fill r) = None
       \<or> raw_size (conn_raw (fill r)) \<le> raw_size (conn_raw r) \<and> buf_err (fill r) \<noteq> None"
    and "pending (fill r) \<le> pending r"
    and "buf_err (fill r) = None \<Longrightarrow> length (buffered (fill r)) > length (buffered r)"
    and "buf_err (fill r) \<noteq> None \<Longrightarrow> buffered (fill r) = buffered r"
proof -
  obtain bs x r' where lr: "limited_read (bufsize - length (buffered r)) r = ((bs, x), r')"
    by (metis prod.exhaust)
  have s: "raw_size (conn_raw r') + length bs \<le> raw_size (conn_raw r)
      \<and> (x = None \<longrightarrow> 0 < length bs) \<and> (x \<noteq> None \<longrightarrow> bs = [])"
    using limited_read_size [OF _ lr] assms by simp
  have f: "fill r = r'\<lparr>buffered := buffered r @ bs, buf_err := x\<rparr>"
    using assms(2) by (cases x) (simp_all add: fill_def lr)
  show "raw_size (conn_raw (fill r)) < raw_size (conn_raw r) \<and> buf_err (fill r) = None
       \<or> raw_size (conn_raw (fill r)) \<le> raw_size (conn_raw r) \<and> buf_err (fill r) \<noteq> None"
    using s by (cases x) (auto simp: f simp del: length_greater_0_conv)
  show "pending (fill r) \<le> pending r" using s by (auto simp: f pending_def)
  show "buf_err (fill r) = None \<Longrightarrow> length (buffered (fill r)) > length (buffered r)"
    using s by (auto simp: f)
  show "buf_err (fill r) \<noteq> None \<Longrightarrow> buffered (fill r) = buffered r"
    using s by (auto simp: f)
qed

text \<open>ReadSlice for a line feed: how it ended, beside the bytes it returns.\<close>

datatype slice_end = Delim | BufferFull | SliceErr ioerr

function read_slice :: "smtpReader \<Rightarrow> (string \<times> slice_end) \<times> smtpReader" where
  "read_slice r =
     (if LF \<in> set (buffered r) then
        (let l = takeWhile (\<lambda>c. c \<noteq> LF) (buffered r) @ [LF]
         in ((l, Delim), r\<lparr>buffered := drop (length l) (buffered r)\<rparr>))
      else (case buf_err r of
          Some e \<Rightarrow> ((buffered r, SliceErr e), r\<lparr>buffered := [], buf_err := None\<rparr>)
        | None \<Rightarrow>
            if bufsize \<le> length (buffered r)
            then ((buffered r, BufferFull), r\<lparr>buffered := []\<rparr>)
            else read_slice (fill r)))"
  by pat_completeness auto
termination
proof (relation "measure (\<lambda>r. raw_size (conn_raw r) + (if buf_err r = None then 1 else 0))",
    goal_cases)
  case (2 r)
  then have "length (buffered r) < bufsize" "buf_err r = None" by auto
  from fill_size(1) [OF this] this(2) show ?case by auto
qed simp

declare read_slice.simps [simp del]

text \<open>ReadLine: a fragment of a line, whether more of it follows, or an error.\<close>

definition read_fragment :: "smtpReader \<Rightarrow> (ioerr + string \<times> bool) \<times> smtpReader" where
  "read_fragment r =
     (let ((line, fin), r') = read_slice r in
      (case fin of
         BufferFull \<Rightarrow>
           if line \<noteq> [] \<and> last line = CR
           then (Inr (butlast line, True), r'\<lparr>buffered := CR # buffered r'\<rparr>)
           else (Inr (line, True), r')
       | Delim \<Rightarrow>
           (let drop_n = (if 1 < length line \<and> line ! (length line - 2) = CR then 2 else 1)
            in (Inr (take (length line - drop_n) line, False), r'))
       | SliceErr e \<Rightarrow>
           if line = [] then (Inl e, r') else (Inr (line, False), r')))"

lemma read_slice_pending:
  "read_slice r = ((l, x), r') \<Longrightarrow> pending r' + length l \<le> pending r
     \<and> (x = Delim \<longrightarrow> 0 < length l) \<and> (x = BufferFull \<longrightarrow> bufsize \<le> length l)"
proof (induction r rule: read_slice.induct)
  case (1 r)
  show ?case
  proof (cases "LF \<in> set (buffered r)")
    case True
    with "1.prems" have "l = takeWhile (\<lambda>c. c \<noteq> LF) (buffered r) @ [LF]" "x = Delim"
      "r' = r\<lparr>buffered := drop (length l) (buffered r)\<rparr>"
      by (auto simp: read_slice.simps [of r] Let_def)
    moreover have "length (takeWhile (\<lambda>c. c \<noteq> LF) (buffered r)) < length (buffered r)"
      using True by (metis (mono_tags, lifting) length_takeWhile_le nless_le set_takeWhileD
          takeWhile_eq_all_conv takeWhile_eq_take take_all)
    ultimately show ?thesis by (simp add: pending_def)
  next
    case False
    show ?thesis
    proof (cases "buf_err r")
      case None
      show ?thesis
      proof (cases "bufsize \<le> length (buffered r)")
        case True
        with None False "1.prems" show ?thesis
          by (auto simp: read_slice.simps [of r] pending_def)
      next
        case small: False
        with None False "1.prems" have "read_slice (fill r) = ((l, x), r')"
          by (simp add: read_slice.simps [of r])
        from "1.IH" [OF False None small this] fill_size(2) [of r] small None show ?thesis by simp
      qed
    next
      case (Some e)
      with False "1.prems" show ?thesis by (auto simp: read_slice.simps [of r] pending_def)
    qed
  qed
qed

lemma read_fragment_pending:
  assumes "read_fragment r = (Inr (l, mor), r')"
  shows "pending r' < pending r"
proof -
  obtain sl x rs where rs: "read_slice r = ((sl, x), rs)" by (metis prod.exhaust)
  from read_slice_pending [OF rs] have p: "pending rs + length sl \<le> pending r"
    and q: "x = Delim \<longrightarrow> 0 < length sl" "x = BufferFull \<longrightarrow> bufsize \<le> length sl" by auto
  have b: "1 < bufsize" by (simp add: bufsize_def)
  have "pending r' + 1 \<le> pending rs + length sl"
  proof (cases x)
    case Delim
    with assms rs q have "r' = rs" by (auto simp: read_fragment_def Let_def)
    with Delim q show ?thesis by (simp add: Suc_le_eq)
  next
    case BufferFull
    with assms rs q b show ?thesis
      by (auto simp: read_fragment_def pending_def split: if_splits)
  next
    case (SliceErr e)
    with assms rs have "r' = rs" "sl \<noteq> []" by (auto simp: read_fragment_def split: if_splits)
    then show ?thesis by (simp flip: length_greater_0_conv)
  qed
  with p show ?thesis by simp
qed

end
