(* ===== verification/Textproto.thy ===== *)
theory Textproto imports Reader begin

text \<open>
  The two ways the server reads: textproto's ReadLine for commands and its DotReader for the
  DATA section, both over the buffered, limited reader. What they return depends only on the
  bytes still available under the limit and on the error behind them, not on the chunks the
  bytes arrive in (avail, fin_err); the second half shows it, and that DotReader undoes the dot
  stuffing of a client.
\<close>

section \<open>ReadLine\<close>

function readLine_acc :: "string \<Rightarrow> smtpReader \<Rightarrow> (ioerr + string) \<times> smtpReader" where
  "readLine_acc acc r =
     (case read_fragment r of
        (Inl e, r') \<Rightarrow> (Inl e, r')
      | (Inr (l, mor), r') \<Rightarrow>
          if mor then readLine_acc (acc @ l) r' else (Inr (acc @ l), r'))"
  by pat_completeness auto
termination
  by (relation "measure (\<lambda>(acc, r). pending r)") (auto dest: read_fragment_pending [OF sym])

declare readLine_acc.simps [simp del]

definition ReadLine :: "smtpReader \<Rightarrow> (ioerr + string) \<times> smtpReader" where
  "ReadLine r = readLine_acc [] r"

section \<open>DotReader\<close>

definition read_byte :: "smtpReader \<Rightarrow> (ioerr + char) \<times> smtpReader" where
  "read_byte r =
     (case buffered r of
        c # b \<Rightarrow> (Inr c, r\<lparr>buffered := b\<rparr>)
      | [] \<Rightarrow>
          (case buf_err r of
             Some e \<Rightarrow> (Inl e, r\<lparr>buf_err := None\<rparr>)
           | None \<Rightarrow>
               (let r' = fill r in
                case buffered r' of
                  c # b \<Rightarrow> (Inr c, r'\<lparr>buffered := b\<rparr>)
                | [] \<Rightarrow> (Inl (case buf_err r' of Some e \<Rightarrow> e | None \<Rightarrow> EOF), r'\<lparr>buf_err := None\<rparr>))))"

definition unread_byte :: "char \<Rightarrow> smtpReader \<Rightarrow> smtpReader" where
  "unread_byte c r = r\<lparr>buffered := c # buffered r\<rparr>"

datatype dot_state = BeginLine | Dot | DotCR | StCR | StData

datatype dot_action = Finish | Skip dot_state | Emit dot_state | EmitSavedCR

text \<open>What one byte does in each state; EmitSavedCR gives the byte back and writes a CR.\<close>

fun dot_step :: "dot_state \<Rightarrow> char \<Rightarrow> dot_action" where
  "dot_step BeginLine c =
     (if c = CHR ''.'' then Skip Dot else if c = CR then Skip StCR else Emit StData)"
| "dot_step Dot c =
     (if c = CR then Skip DotCR else if c = LF then Finish else Emit StData)"
| "dot_step DotCR c = (if c = LF then Finish else EmitSavedCR)"
| "dot_step StCR c = (if c = LF then Emit BeginLine else EmitSavedCR)"
| "dot_step StData c =
     (if c = CR then Skip StCR else if c = LF then Emit BeginLine else Emit StData)"

fun holds_cr :: "dot_state \<Rightarrow> nat" where
  "holds_cr DotCR = 1"
| "holds_cr StCR = 1"
| "holds_cr _ = 0"

lemma read_byte_pending: "read_byte r = (Inr c, r') \<Longrightarrow> pending r' < pending r"
proof (cases "buffered r")
  case Nil
  assume rb: "read_byte r = (Inr c, r')"
  with Nil have n: "buf_err r = None" by (auto simp: read_byte_def split: option.splits)
  with Nil rb have r': "buffered (fill r) \<noteq> []" "r' = (fill r)\<lparr>buffered := tl (buffered (fill r))\<rparr>"
    by (auto simp: read_byte_def Let_def split: list.splits)
  from fill_size(2) [of r] n Nil have "pending (fill r) \<le> pending r" by (simp add: bufsize_def)
  moreover have "length (tl (buffered (fill r))) < length (buffered (fill r))" using r'(1) by simp
  ultimately show ?thesis by (simp add: r'(2) pending_def del: length_tl)
qed (auto simp: read_byte_def pending_def)

function dot_read :: "dot_state \<Rightarrow> smtpReader \<Rightarrow> (string \<times> ioerr option) \<times> smtpReader" where
  "dot_read st r =
     (case read_byte r of
        (Inl e, r1) \<Rightarrow> (([], Some (if e = EOF then UnexpectedEOF else e)), r1)
      | (Inr c, r1) \<Rightarrow>
          (case dot_step st c of
             Finish \<Rightarrow> (([], None), r1)
           | Skip st' \<Rightarrow> dot_read st' r1
           | Emit st' \<Rightarrow> (let ((out, e), r2) = dot_read st' r1 in ((c # out, e), r2))
           | EmitSavedCR \<Rightarrow>
               (let ((out, e), r2) = dot_read StData (unread_byte c r1) in ((CR # out, e), r2))))"
  by pat_completeness auto
termination
proof (relation "measure (\<lambda>(st, r). 2 * pending r + holds_cr st)", goal_cases)
  case (2 st r a b c st')
  then show ?case using read_byte_pending [of r c b] by (cases st') auto
next
  case (3 st r a b c st')
  then show ?case using read_byte_pending [of r c b] by (cases st') auto
next
  case (4 st r a b c)
  then have p: "pending b < pending r" using read_byte_pending [of r c b] by simp
  from 4 have "holds_cr st = 1" by (cases st) (auto split: if_splits)
  with p show ?case by (simp add: pending_def unread_byte_def)
qed simp

declare dot_read.simps [simp del]

text \<open>
  Data.ReadFrom on a DotReader: io.EOF from the DotReader is the end of the section, any other
  error is returned, and the bytes read before it stay in the buffer.
\<close>

definition ReadDot :: "smtpReader \<Rightarrow> (string \<times> ioerr option) \<times> smtpReader" where
  "ReadDot r = dot_read BeginLine r"

section \<open>What is available to read\<close>

definition avail :: "smtpReader \<Rightarrow> string" where
  "avail r = buffered r @ take (nat (limit_N r)) (concat (chunks (conn_raw r)))"

definition fin_err :: "smtpReader \<Rightarrow> ioerr" where
  "fin_err r =
     (if nat (limit_N r) \<le> length (concat (chunks (conn_raw r))) then LimitReached
      else raw_end (conn_raw r))"

lemma avail_update [simp]:
  "avail (r\<lparr>buf_err := e\<rparr>) = avail r" "fin_err (r\<lparr>buf_err := e\<rparr>) = fin_err r"
  "fin_err (r\<lparr>buffered := b\<rparr>) = fin_err r"
  by (simp_all add: avail_def fin_err_def)

text \<open>What the session finds between two reads: no error is pending.\<close>

definition settled :: "smtpReader \<Rightarrow> bool" where
  "settled r \<longleftrightarrow> buf_err r = None"

lemma conn_read_concat:
  "0 < p \<Longrightarrow> conn_read p cs e = ((bs, x), cs') \<Longrightarrow>
     bs @ concat cs' = concat cs \<and> length bs \<le> p \<and>
     (if concat cs = [] then x = Some e else x = None)"
  by (induction cs) (auto split: if_splits simp flip: append_assoc dest: sym [of "_ @ _"])

lemma fill_avail:
  assumes "settled r" "length (buffered r) < bufsize"
  shows "avail (fill r) = avail r" "fin_err (fill r) = fin_err r"
    and "buf_err (fill r) = None \<or> buf_err (fill r) = Some (fin_err r) \<and> avail r = buffered r"
    and "rd_n (fill r) = rd_n r" "length (buffered (fill r)) \<le> bufsize"
    and "limit_N (fill r) \<le> limit_N r" "raw_end (conn_raw (fill r)) = raw_end (conn_raw r)"
proof -
  have n: "buf_err r = None" using assms(1) by (simp add: settled_def)
  let ?p = "bufsize - length (buffered r)"
  have facts: "avail (fill r) = avail r \<and> fin_err (fill r) = fin_err r \<and>
      (buf_err (fill r) = None \<or> buf_err (fill r) = Some (fin_err r) \<and> avail r = buffered r) \<and>
      rd_n (fill r) = rd_n r \<and> length (buffered (fill r)) \<le> bufsize \<and>
      limit_N (fill r) \<le> limit_N r \<and> raw_end (conn_raw (fill r)) = raw_end (conn_raw r)"
  proof (cases "limit_N r \<le> 0")
    case True
    then show ?thesis using assms(2)
      by (simp add: fill_def limited_read_def avail_def fin_err_def)
  next
    case False
    define q where "q = (if int ?p > limit_N r then nat (limit_N r) else ?p)"
    have q: "0 < q" "int q \<le> limit_N r" "q \<le> ?p" using False assms(2) by (auto simp: q_def)
    obtain bs x cs where cr: "conn_read q (chunks (conn_raw r)) (raw_end (conn_raw r)) = ((bs, x), cs)"
      by (metis prod.exhaust)
    note c = conn_read_concat [OF q(1) cr]
    have f: "fill r = r\<lparr>limit_N := limit_N r - int (length bs),
        conn_raw := (conn_raw r)\<lparr>chunks := cs\<rparr>, buffered := buffered r @ bs, buf_err := x\<rparr>"
      using False n by (cases x) (simp_all add: fill_def limited_read_def Let_def q_def [symmetric] cr)
    have lb: "length bs \<le> nat (limit_N r)" using c q by linarith
    have "take (nat (limit_N r)) (concat (chunks (conn_raw r)))
        = bs @ take (nat (limit_N r) - length bs) (concat cs)"
      using c lb by (metis take_all take_append)
    then have a: "avail (fill r) = avail r" by (simp add: f avail_def)
    have lc: "length (concat (chunks (conn_raw r))) = length bs + length (concat cs)"
      using c by (metis length_append)
    have e: "fin_err (fill r) = fin_err r" using lb
      by (simp add: f fin_err_def lc le_diff_conv add.commute)
    have "x = None \<or> x = Some (fin_err r) \<and> avail r = buffered r"
      using c False by (cases "concat (chunks (conn_raw r)) = []") (auto simp: fin_err_def avail_def simp del: concat_eq_Nil_conv)
    moreover have "length bs \<le> bufsize - length (buffered r)" using c q by linarith
    ultimately show ?thesis using a e assms(2) by (simp add: f)
  qed
  then show "avail (fill r) = avail r" "fin_err (fill r) = fin_err r"
    and "buf_err (fill r) = None \<or> buf_err (fill r) = Some (fin_err r) \<and> avail r = buffered r"
    and "rd_n (fill r) = rd_n r" "length (buffered (fill r)) \<le> bufsize"
    and "limit_N (fill r) \<le> limit_N r" "raw_end (conn_raw (fill r)) = raw_end (conn_raw r)"
    by auto
qed

text \<open>What no read of the connection changes, and what all of them keep.\<close>

definition read_frame :: "smtpReader \<Rightarrow> smtpReader \<Rightarrow> bool" where
  "read_frame r r' \<longleftrightarrow> settled r' \<and> rd_n r' = rd_n r \<and> fin_err r' = fin_err r \<and>
     length (buffered r') \<le> bufsize \<and> limit_N r' \<le> limit_N r \<and>
     raw_end (conn_raw r') = raw_end (conn_raw r)"

lemma read_frame_trans: "read_frame r s \<Longrightarrow> read_frame s t \<Longrightarrow> read_frame r t"
  by (auto simp: read_frame_def)

lemma read_byte_avail:
  assumes "settled r" "length (buffered r) \<le> bufsize"
  shows "\<exists>r'. read_frame r r' \<and>
     (case avail r of [] \<Rightarrow> read_byte r = (Inl (fin_err r), r') \<and> avail r' = []
      | c # cs \<Rightarrow> read_byte r = (Inr c, r') \<and> avail r' = cs \<and> length (buffered r') < bufsize)"
proof (cases "buffered r")
  case (Cons c b)
  let ?r' = "r\<lparr>buffered := b\<rparr>"
  have "read_byte r = (Inr c, ?r')" "avail r = c # avail ?r'"
    using Cons by (simp_all add: read_byte_def avail_def)
  moreover have "read_frame r ?r'"
    using assms Cons by (simp add: read_frame_def settled_def)
  moreover have "length b < bufsize" using assms Cons by simp
  ultimately show ?thesis by auto
next
  case Nil
  then have small: "length (buffered r) < bufsize" by (simp add: bufsize_def)
  note f = fill_avail [OF assms(1) small]
  have n: "buf_err r = None" using assms(1) by (simp add: settled_def)
  show ?thesis
  proof (cases "buffered (fill r)")
    case (Cons c b)
    let ?r' = "(fill r)\<lparr>buffered := b\<rparr>"
    have "read_byte r = (Inr c, ?r')" using Nil n Cons by (simp add: read_byte_def Let_def)
    moreover have "avail r = c # avail ?r'" using f(1) Cons by (simp add: avail_def)
    moreover have "buf_err (fill r) = None"
      using fill_size(4) [OF small n] Nil Cons by (cases "buf_err (fill r)") auto
    then have "read_frame r ?r'"
      using f Cons by (simp add: read_frame_def settled_def)
    moreover have "length b < bufsize" using f(5) Cons by simp
    ultimately show ?thesis by auto
  next
    case empty: Nil
    have e: "buf_err (fill r) = Some (fin_err r)" "avail r = []"
      using f(3) fill_size(3) [OF small n] empty Nil by auto
    let ?r' = "(fill r)\<lparr>buf_err := None\<rparr>"
    have "read_byte r = (Inl (fin_err r), ?r')"
      using Nil n empty e by (simp add: read_byte_def Let_def)
    moreover have "read_frame r ?r'"
      using f by (simp add: read_frame_def settled_def)
    ultimately show ?thesis using e f(1) by auto
  qed
qed


section \<open>Lines do not depend on the chunks\<close>

lemma read_slice_avail:
  "settled r \<Longrightarrow> length (buffered r) \<le> bufsize \<Longrightarrow> read_slice r = ((l, x), r') \<Longrightarrow>
     read_frame r r' \<and> l @ avail r' = avail r \<and>
     (case x of Delim \<Rightarrow> \<exists>p. l = p @ [LF] \<and> LF \<notin> set p
      | BufferFull \<Rightarrow> LF \<notin> set l \<and> l \<noteq> [] \<and> buffered r' = []
      | SliceErr e \<Rightarrow> LF \<notin> set l \<and> avail r' = [] \<and> e = fin_err r)"
proof (induction r rule: read_slice.induct)
  case (1 r)
  have n: "buf_err r = None" using "1.prems"(1) by (simp add: settled_def)
  show ?case
  proof (cases "LF \<in> set (buffered r)")
    case True
    then obtain p q where q: "buffered r = p @ LF # q" "LF \<notin> set p"
      by (meson split_list_first)
    then have tw: "takeWhile (\<lambda>c. c \<noteq> LF) (buffered r) = p" by (auto intro: takeWhile_append_stop)
    with q True "1.prems"(3) have r': "l = p @ [LF]" "x = Delim" "r' = r\<lparr>buffered := q\<rparr>"
      by (auto simp: read_slice.simps [of r] Let_def)
    have "l @ avail r' = avail r" by (simp add: r' avail_def q(1))
    moreover have "length q \<le> bufsize" using "1.prems"(2) q(1) by simp
    ultimately show ?thesis using n r' q(2) by (auto simp: read_frame_def settled_def)
  next
    case False
    show ?thesis
    proof (cases "bufsize \<le> length (buffered r)")
      case True
      with False n "1.prems" have "l = buffered r" "x = BufferFull" "r' = r\<lparr>buffered := []\<rparr>"
        by (auto simp: read_slice.simps [of r])
      moreover have "buffered r \<noteq> []" using True by (auto simp: bufsize_def)
      ultimately show ?thesis using False n by (auto simp: read_frame_def settled_def avail_def)
    next
      case small: False
      then have sm: "length (buffered r) < bufsize" by simp
      note f = fill_avail [OF "1.prems"(1) sm]
      have rs: "read_slice (fill r) = ((l, x), r')"
        using "1.prems"(3) False n small by (simp add: read_slice.simps [of r])
      show ?thesis
      proof (cases "buf_err (fill r)")
        case None
        then have "settled (fill r)" by (simp add: settled_def)
        from "1.IH" [OF False n small this f(5) rs] f show ?thesis
          by (auto simp: read_frame_def split: slice_end.splits)
      next
        case (Some e)
        then have e: "e = fin_err r" "avail r = buffered r" "buffered (fill r) = buffered r"
          using f(3) fill_size(4) [OF sm n] by auto
        with Some False rs have r': "l = buffered r" "x = SliceErr e"
            "r' = (fill r)\<lparr>buffered := [], buf_err := None\<rparr>"
          by (auto simp: read_slice.simps [of "fill r"])
        have "avail (fill r) = buffered (fill r) @ avail r'" by (simp add: r' avail_def)
        then have "avail r' = []" using f(1) e by simp
        then show ?thesis using f e False
          by (simp add: r' read_frame_def settled_def)
      qed
    qed
  qed
qed

text \<open>A line loses its line feed and one carriage return before it.\<close>

definition chomp_cr :: "string \<Rightarrow> string" where
  "chomp_cr l = (if l \<noteq> [] \<and> last l = CR then butlast l else l)"

lemma chomp_cr_crlf [simp]: "chomp_cr (l @ [CR]) = l"
  by (simp add: chomp_cr_def)

lemma read_fragment_delim:
  assumes "read_slice r = ((p @ [LF], Delim), r')"
  shows "read_fragment r = (Inr (chomp_cr p, False), r')"
proof (cases "p = [] \<or> last p \<noteq> CR")
  case True
  show ?thesis
  proof (cases "p = []")
    case True
    with assms show ?thesis by (simp add: read_fragment_def chomp_cr_def Let_def)
  next
    case False
    then have "(p @ [LF]) ! (length p - 1) = last p" by (simp add: nth_append last_conv_nth)
    with True False assms show ?thesis
      by (simp add: read_fragment_def chomp_cr_def Let_def del: nth_append_length)
  qed
next
  case False
  then obtain q where "p = q @ [CR]" by (metis append_butlast_last_id)
  with assms show ?thesis by (simp add: read_fragment_def chomp_cr_def Let_def nth_append)
qed

lemma readLine_acc_line:
  assumes "settled r" "length (buffered r) \<le> bufsize" "avail r = l @ LF # rest" "LF \<notin> set l"
    and "l \<noteq> [] \<or> acc = [] \<or> last acc \<noteq> CR"
  shows "\<exists>r'. readLine_acc acc r = (Inr (chomp_cr (acc @ l)), r') \<and> avail r' = rest \<and> read_frame r r'"
  using assms
proof (induction acc r arbitrary: l rule: readLine_acc.induct)
  case (1 acc r)
  obtain sl x rs where rs: "read_slice r = ((sl, x), rs)" by (metis prod.exhaust)
  note a = read_slice_avail [OF "1.prems"(1,2) rs]
  show ?case
  proof (cases x)
    case Delim
    with a obtain p where p: "sl = p @ [LF]" "LF \<notin> set p" by auto
    with a "1.prems"(3,4) have "l = p" "avail rs = rest"
      by (auto simp: append_eq_append_conv2 append_eq_Cons_conv Cons_eq_append_conv)
    moreover have "read_fragment r = (Inr (chomp_cr p, False), rs)"
      using read_fragment_delim rs Delim p by simp
    moreover have "acc @ chomp_cr p = chomp_cr (acc @ p)"
      using "1.prems"(5) \<open>l = p\<close> by (cases "p = []") (auto simp: chomp_cr_def butlast_append)
    ultimately show ?thesis using a by (simp add: readLine_acc.simps [of acc r])
  next
    case (SliceErr e)
    with a "1.prems"(3,4) show ?thesis by auto
  next
    case BufferFull
    with a have b: "LF \<notin> set sl" "sl \<noteq> []" "buffered rs = []" "sl @ avail rs = avail r" by auto
    with "1.prems"(3,4) obtain m where m: "l = sl @ m" "avail rs = m @ LF # rest"
      by (auto simp: append_eq_append_conv2 append_eq_Cons_conv Cons_eq_append_conv)
    show ?thesis
    proof (cases "last sl = CR")
      case True
      let ?r1 = "rs\<lparr>buffered := [CR]\<rparr>"
      have fr: "read_fragment r = (Inr (butlast sl, True), ?r1)"
        using rs BufferFull True b by (simp add: read_fragment_def)
      have sl: "sl = butlast sl @ [CR]" using True b by (metis append_butlast_last_id)
      have av: "avail ?r1 = CR # avail rs" using b(3) by (simp add: avail_def)
      have rf: "read_frame r ?r1" using a by (simp add: read_frame_def settled_def bufsize_def)
      have "\<exists>r'. readLine_acc (acc @ butlast sl) ?r1 = (Inr (chomp_cr ((acc @ butlast sl) @ CR # m)), r')
          \<and> avail r' = rest \<and> read_frame ?r1 r'"
        by (rule "1.IH" [OF fr [symmetric] refl refl])
          (use rf m av "1.prems"(4) in \<open>auto simp: read_frame_def bufsize_def\<close>)
      then obtain r' where r': "readLine_acc (acc @ butlast sl) ?r1 = (Inr (chomp_cr (acc @ butlast sl @ CR # m)), r')"
          "avail r' = rest" "read_frame ?r1 r'" by auto
      have "butlast sl @ CR # m = l" using sl m(1) by (metis append.assoc append_Cons append_Nil)
      then show ?thesis using fr r' read_frame_trans [OF rf r'(3)]
        by (auto simp: readLine_acc.simps [of acc r])
    next
      case False
      have fr: "read_fragment r = (Inr (sl, True), rs)"
        using rs BufferFull False by (simp add: read_fragment_def)
      have "\<exists>r'. readLine_acc (acc @ sl) rs = (Inr (chomp_cr ((acc @ sl) @ m)), r')
          \<and> avail r' = rest \<and> read_frame rs r'"
        by (rule "1.IH" [OF fr [symmetric] refl refl])
          (use a b m False "1.prems"(4) in \<open>auto simp: read_frame_def\<close>)
      then show ?thesis using fr m a
        by (auto simp: readLine_acc.simps [of acc r] intro: read_frame_trans)
    qed
  qed
qed

lemma ReadLine_line:
  assumes "settled r" "length (buffered r) \<le> bufsize" "avail r = l @ LF # rest" "LF \<notin> set l"
  shows "\<exists>r'. ReadLine r = (Inr (chomp_cr l), r') \<and> avail r' = rest \<and> read_frame r r'"
  using readLine_acc_line [OF assms, of "[]"] by (simp add: ReadLine_def)

lemma readLine_acc_frame:
  "settled r \<Longrightarrow> length (buffered r) \<le> bufsize \<Longrightarrow> readLine_acc acc r = (res, r') \<Longrightarrow>
     read_frame r r' \<and> length (avail r') \<le> length (avail r) \<and>
     (case res of Inl e \<Rightarrow> e = fin_err r \<and> avail r' = [] | Inr l \<Rightarrow> avail r \<noteq> [])"
proof (induction acc r rule: readLine_acc.induct)
  case (1 acc r)
  obtain sl x rs where rs: "read_slice r = ((sl, x), rs)" by (metis prod.exhaust)
  note a = read_slice_avail [OF "1.prems"(1,2) rs]
  then have len: "length (avail rs) \<le> length (avail r)" by (metis le_add2 length_append)
  show ?case
  proof (cases x)
    case Delim
    with a obtain p where "sl = p @ [LF]" by auto
    with rs Delim have "read_fragment r = (Inr (chomp_cr p, False), rs)"
      using read_fragment_delim by simp
    with "1.prems"(3) a len \<open>sl = p @ [LF]\<close> show ?thesis
      by (auto simp: readLine_acc.simps [of acc r])
  next
    case (SliceErr e)
    with a rs "1.prems"(3) show ?thesis
      by (auto simp: readLine_acc.simps [of acc r] read_fragment_def split: if_splits)
  next
    case BufferFull
    with a have b: "sl \<noteq> []" "buffered rs = []" "sl @ avail rs = avail r" by auto
    have av: "avail (rs\<lparr>buffered := [CR]\<rparr>) = CR # avail rs" using b(2) by (simp add: avail_def)
    obtain sl' r1 where fr: "read_fragment r = (Inr (sl', True), r1)"
      and r1: "r1 = rs \<and> sl' = sl \<or> r1 = rs\<lparr>buffered := [CR]\<rparr> \<and> sl = sl' @ [CR]"
    proof (cases "last sl = CR")
      case True
      with b have "sl = butlast sl @ [CR]" by (metis append_butlast_last_id)
      with True that [of "butlast sl"] rs BufferFull b show ?thesis by (simp add: read_fragment_def)
    next
      case False
      with that [of sl] rs BufferFull show ?thesis by (simp add: read_fragment_def)
    qed
    have f1: "read_frame r r1" using a r1 by (auto simp: read_frame_def settled_def bufsize_def)
    have l1: "length (avail r1) \<le> length (avail r)" and n1: "avail r \<noteq> []"
      using r1 av b(1) by (auto simp flip: b(3))
    have "readLine_acc (acc @ sl') r1 = (res, r')" using "1.prems"(3) fr
      by (simp add: readLine_acc.simps [of acc r])
    from "1.IH" [OF fr [symmetric] refl refl TrueI _ _ this] f1
    have "read_frame r1 r' \<and> length (avail r') \<le> length (avail r1) \<and>
        (case res of Inl e \<Rightarrow> e = fin_err r1 \<and> avail r' = [] | Inr l \<Rightarrow> avail r1 \<noteq> [])"
      by (simp add: read_frame_def)
    then show ?thesis using f1 l1 n1
      by (auto intro: read_frame_trans simp: read_frame_def split: sum.splits)
  qed
qed


section \<open>The DATA section does not depend on the chunks\<close>

text \<open>DotReader on a list of bytes: the data, whether the final dot was found, and the rest.\<close>

function dot_decode :: "dot_state \<Rightarrow> string \<Rightarrow> string \<times> bool \<times> string" where
  "dot_decode st [] = ([], False, [])"
| "dot_decode st (c # s) =
     (case dot_step st c of
        Finish \<Rightarrow> ([], True, s)
      | Skip st' \<Rightarrow> dot_decode st' s
      | Emit st' \<Rightarrow> (case dot_decode st' s of (out, fin) \<Rightarrow> (c # out, fin))
      | EmitSavedCR \<Rightarrow> (case dot_decode StData (c # s) of (out, fin) \<Rightarrow> (CR # out, fin)))"
  by pat_completeness auto
termination
proof (relation "measure (\<lambda>(st, s). 2 * length s + holds_cr st)", goal_cases)
  case (2 st c s st')
  then show ?case by (cases st') auto
next
  case (3 st c s st')
  then show ?case by (cases st') auto
next
  case (4 st c s)
  then show ?case by (cases st) (auto split: if_splits)
qed simp

declare dot_decode.simps(2) [simp del]

definition dot_error :: "ioerr \<Rightarrow> ioerr" where
  "dot_error e = (if e = EOF then UnexpectedEOF else e)"

lemma dot_read_avail:
  assumes "settled r" "length (buffered r) \<le> bufsize" "dot_decode st (avail r) = (out, fin, rest)"
  shows "\<exists>r'. read_frame r r' \<and> avail r' = rest \<and>
     dot_read st r = ((out, if fin then None else Some (dot_error (fin_err r))), r')"
  using assms
proof (induction st r arbitrary: out fin rest rule: dot_read.induct)
  case (1 st r)
  from read_byte_avail [OF "1.prems"(1,2)] obtain r1 where r1: "read_frame r r1" and
    rb: "case avail r of [] \<Rightarrow> read_byte r = (Inl (fin_err r), r1) \<and> avail r1 = []
      | c # cs \<Rightarrow> read_byte r = (Inr c, r1) \<and> avail r1 = cs \<and> length (buffered r1) < bufsize" by blast
  show ?case
  proof (cases "avail r")
    case Nil
    with rb r1 "1.prems"(3) show ?thesis by (simp add: dot_read.simps [of st r] dot_error_def)
  next
    case (Cons c cs)
    with rb have rb: "read_byte r = (Inr c, r1)" and av: "avail r1 = cs"
      and bl: "length (buffered r1) < bufsize" by auto
    have "dot_decode st (c # cs) = (out, fin, rest)" using "1.prems"(3) Cons by simp
    note dd = trans [OF dot_decode.simps(2) [symmetric] this]
    have s1: "settled r1" "length (buffered r1) \<le> bufsize" "fin_err r1 = fin_err r"
      using r1 by (auto simp: read_frame_def)
    show ?thesis
    proof (cases "dot_step st c")
      case Finish
      with rb r1 av dd show ?thesis by (simp add: dot_read.simps [of st r])
    next
      case (Skip st')
      with dd have "dot_decode st' (avail r1) = (out, fin, rest)" by (simp add: av)
      from "1.IH"(1) [OF rb [symmetric] refl Skip s1(1,2) this] show ?thesis
        using read_frame_trans [OF r1] by (auto simp: dot_read.simps [of st r] rb Skip s1)
    next
      case (Emit st')
      with dd obtain out' where o: "dot_decode st' (avail r1) = (out', fin, rest)" "out = c # out'"
        by (auto simp: av split: prod.splits)
      from "1.IH"(2) [OF rb [symmetric] refl Emit s1(1,2) o(1)] show ?thesis
        using read_frame_trans [OF r1] by (auto simp: dot_read.simps [of st r] rb Emit s1 o)
    next
      case EmitSavedCR
      let ?u = "unread_byte c r1"
      have u: "settled ?u" "length (buffered ?u) \<le> bufsize" "avail ?u = c # cs" "fin_err ?u = fin_err r"
        using s1 bl av by (auto simp: unread_byte_def settled_def avail_def)
      have ru: "read_frame r ?u" using r1 u by (simp add: read_frame_def unread_byte_def)
      from dd EmitSavedCR obtain out' where o: "dot_decode StData (avail ?u) = (out', fin, rest)"
          "out = CR # out'"
        by (auto simp: u split: prod.splits)
      from "1.IH"(3) [OF rb [symmetric] refl EmitSavedCR u(1,2) o(1)] show ?thesis
        using read_frame_trans [OF ru] by (auto simp: dot_read.simps [of st r] rb EmitSavedCR u o)
    qed
  qed
qed

text \<open>The data never exceeds what was available when the section began.\<close>

lemma dot_decode_length:
  "dot_decode st s = (out, fin, rest) \<Longrightarrow> length out + length rest \<le> length s + holds_cr st"
proof (induction st s arbitrary: out fin rest rule: dot_decode.induct)
  case (2 st c s)
  show ?case
  proof (cases "dot_step st c")
    case (Skip st')
    with 2 have "length out + length rest \<le> length s + holds_cr st'" by (simp add: dot_decode.simps(2))
    then show ?thesis by (cases st') auto
  next
    case (Emit st')
    then have z: "holds_cr st' = 0" by (cases st) (auto split: if_splits)
    from Emit "2.prems" obtain out' where "dot_decode st' s = (out', fin, rest)" "out = c # out'"
      by (auto simp: dot_decode.simps(2) split: prod.splits)
    with "2.IH"(2) [OF Emit] z show ?thesis by simp
  next
    case EmitSavedCR
    then have z: "holds_cr st = 1" by (cases st) (auto split: if_splits)
    from EmitSavedCR "2.prems" obtain out' where "dot_decode StData (c # s) = (out', fin, rest)"
        "out = CR # out'"
      by (auto simp: dot_decode.simps(2) split: prod.splits)
    with "2.IH"(3) [OF EmitSavedCR] z show ?thesis by simp
  qed (use 2 in \<open>auto simp: dot_decode.simps(2)\<close>)
qed simp

section \<open>Dot stuffing\<close>

text \<open>What a client sends for the lines of a message, and what the server stores.\<close>

definition stuff_line :: "string \<Rightarrow> string" where
  "stuff_line l = (if l \<noteq> [] \<and> hd l = CHR ''.'' then CHR ''.'' # l else l) @ crlf"

definition stuff :: "string list \<Rightarrow> string" where
  "stuff ls = concat (map stuff_line ls) @ CHR ''.'' # crlf"

definition lf_lines :: "string list \<Rightarrow> string" where
  "lf_lines ls = concat (map (\<lambda>l. l @ [LF]) ls)"

lemma dot_decode_rest_of_line:
  "LF \<notin> set l \<Longrightarrow> dot_decode StData (l @ CR # LF # s) =
     (case dot_decode BeginLine s of (out, fin) \<Rightarrow> (l @ LF # out, fin))
   \<and> dot_decode StCR (l @ CR # LF # s) =
     (case dot_decode BeginLine s of (out, fin) \<Rightarrow> (CR # l @ LF # out, fin))"
proof (induction l)
  case Nil
  then show ?case by (simp add: dot_decode.simps(2) split: prod.splits)
next
  case (Cons c l)
  then have "c \<noteq> LF" by auto
  with Cons show ?case by (auto simp: dot_decode.simps(2) split: prod.splits)
qed

lemma dot_decode_line:
  assumes "LF \<notin> set l"
  shows "dot_decode BeginLine (stuff_line l @ s) =
     (case dot_decode BeginLine s of (out, fin) \<Rightarrow> (l @ LF # out, fin))"
proof (cases l)
  case Nil
  then show ?thesis by (simp add: stuff_line_def dot_decode.simps(2) split: prod.splits)
next
  case (Cons c l')
  with assms have "LF \<notin> set l'" "c \<noteq> LF" by auto
  then show ?thesis using dot_decode_rest_of_line [of l' s]
    by (auto simp: stuff_line_def Cons dot_decode.simps(2) split: prod.splits)
qed

lemma dot_decode_stuff:
  "(\<And>l. l \<in> set ls \<Longrightarrow> LF \<notin> set l) \<Longrightarrow>
     dot_decode BeginLine (stuff ls @ s) = (lf_lines ls, True, s)"
proof (induction ls)
  case Nil
  then show ?case by (simp add: stuff_def lf_lines_def dot_decode.simps(2))
next
  case (Cons l ls)
  have "stuff (l # ls) @ s = stuff_line l @ (stuff ls @ s)" by (simp add: stuff_def)
  with Cons show ?case by (simp add: dot_decode_line lf_lines_def)
qed

lemma ReadDot_stuff:
  assumes "settled r" "length (buffered r) \<le> bufsize" "avail r = stuff ls @ rest"
    and "\<And>l. l \<in> set ls \<Longrightarrow> LF \<notin> set l"
  shows "\<exists>r'. ReadDot r = ((lf_lines ls, None), r') \<and> avail r' = rest \<and> read_frame r r'"
  using dot_read_avail [OF assms(1,2), of BeginLine] dot_decode_stuff [of ls rest] assms(3,4)
  by (fastforce simp: ReadDot_def)

lemma ReadDot_frame:
  assumes "settled r" "length (buffered r) \<le> bufsize" "ReadDot r = ((out, e), r')"
  shows "read_frame r r' \<and> length out + length (avail r') \<le> length (avail r) \<and>
    e \<in> {None, Some (dot_error (fin_err r))} \<and> (e = None \<longrightarrow> avail r \<noteq> [])"
proof -
  obtain o' fin rest where d: "dot_decode BeginLine (avail r) = (o', fin, rest)" by (metis prod_cases3)
  from dot_read_avail [OF assms(1,2) this] dot_decode_length [OF d] d assms(3) show ?thesis
    by (auto simp: ReadDot_def)
qed

text \<open>Reading never enlarges what is still to come, and a line or a byte consumes some of it.\<close>

lemma readLine_acc_pending:
  "readLine_acc acc r = (Inr l, r') \<Longrightarrow> pending r' < pending r"
proof (induction acc r rule: readLine_acc.induct)
  case (1 acc r)
  obtain res r1 where rf: "read_fragment r = (res, r1)" by (metis prod.exhaust)
  with "1.prems" obtain l1 mor where res: "res = Inr (l1, mor)"
    by (cases res) (auto simp: readLine_acc.simps [of acc r])
  have p: "pending r1 < pending r" using rf res read_fragment_pending by blast
  show ?case
  proof (cases mor)
    case True
    with "1.prems" rf res have "readLine_acc (acc @ l1) r1 = (Inr l, r')"
      by (simp add: readLine_acc.simps [of acc r])
    with "1.IH" [OF rf [symmetric] res refl True] p show ?thesis by simp
  next
    case False
    with "1.prems" rf res p show ?thesis by (simp add: readLine_acc.simps [of acc r])
  qed
qed

lemma ReadLine_pending: "ReadLine r = (Inr l, r') \<Longrightarrow> pending r' < pending r"
  by (simp add: ReadLine_def readLine_acc_pending)

end
