(* ===== verification/Connection.thy ===== *)
theory Connection imports Textproto Handlers begin

text \<open>
  One client connection: connection.go, the commands of server.go and the server's
  configuration. What lies outside the repository is the record platform: the parsers of
  addresses and IP numbers, the TLS handshake, the identifiers of utils.XID and the clock. The
  write side of the connection is the list of what was written, with the outcome of the writes
  to come; a write that fails leaves bufErr set.
\<close>

section \<open>Configuration and environment\<close>

text \<open>consts.go\<close>

definition Name :: string where "Name = ''Brevx''"
definition Version :: string where "Version = ''0.0.1''"
definition defaultMaxClients :: int where "defaultMaxClients = 100"
definition defaultTimeout :: int where "defaultTimeout = 30"
definition defaultInterface :: string where "defaultInterface = '':2525''"
definition defaultMaxSize :: int where "defaultMaxSize = 10485760"
definition defaultMaxRecipients :: int where "defaultMaxRecipients = 100"
definition defaultMaxUnrecognizedCommands :: int where "defaultMaxUnrecognizedCommands = 5"

text \<open>
  type Server of server.go, without its synchronisation. TLSConfig says whether there is one;
  closedListener, whether the channel has been made.
\<close>

record server =
  has_Logger :: bool
  Middlewares :: "Middleware option list"
  Handler :: "HandlerFunc option"
  TLSConfig :: bool
  TLSAlwaysOn :: bool
  Hostname :: string
  Addr :: string
  MaxSize :: int
  ServerTimeout :: int
  MaxClients :: int
  XClientOn :: bool
  ProxyOn :: bool
  MaxRecipients :: int
  MaxUnrecognizedCommands :: int
  has_closedListener :: bool

definition Use :: "Middleware option list \<Rightarrow> server \<Rightarrow> server" where
  "Use mw s = s\<lparr>Middlewares := Middlewares s @ mw\<rparr>"

text \<open>os_Hostname is what os.Hostname answers: an error or the name.\<close>

definition setDefaults :: "string + string \<Rightarrow> server \<Rightarrow> string option \<times> server" where
  "setDefaults os_Hostname s =
     (let s1 = (if has_Logger s then s else s\<lparr>has_Logger := True\<rparr>);
          s2 = (if Addr s1 = [] then s1\<lparr>Addr := defaultInterface\<rparr> else s1)
      in case (if Hostname s2 = [] then map_sum id Some os_Hostname else Inr None) of
           Inl err \<Rightarrow> (Some err, s2)
         | Inr h \<Rightarrow>
             (let s3 = (case h of None \<Rightarrow> s2 | Some n \<Rightarrow> s2\<lparr>Hostname := n\<rparr>);
                  s4 = (if MaxClients s3 = 0 then s3\<lparr>MaxClients := defaultMaxClients\<rparr> else s3);
                  s5 = (if ServerTimeout s4 = 0 then s4\<lparr>ServerTimeout := defaultTimeout\<rparr> else s4);
                  s6 = (if MaxSize s5 = 0 then s5\<lparr>MaxSize := defaultMaxSize\<rparr> else s5);
                  s7 = (if MaxRecipients s6 = 0 then s6\<lparr>MaxRecipients := defaultMaxRecipients\<rparr> else s6);
                  s8 = (if MaxUnrecognizedCommands s7 = 0
                        then s7\<lparr>MaxUnrecognizedCommands := defaultMaxUnrecognizedCommands\<rparr> else s7);
                  s9 = (if has_closedListener s8 then s8 else s8\<lparr>has_closedListener := True\<rparr>)
              in (None, s9)))"

record platform =
  ParseAddress :: "string \<Rightarrow> string + address"
  ParseIP :: "string \<Rightarrow> string option"
  Handshake :: "raw_conn \<Rightarrow> string option \<times> raw_conn"
  XID :: "nat \<Rightarrow> string"
  Now :: string

section \<open>Commands (server.go)\<close>

type_synonym command = string

definition cmdHELO :: command where "cmdHELO = ''HELO''"
definition cmdEHLO :: command where "cmdEHLO = ''EHLO''"
definition cmdHELP :: command where "cmdHELP = ''HELP''"
definition cmdXCLIENT :: command where "cmdXCLIENT = ''XCLIENT''"
definition cmdMAIL :: command where "cmdMAIL = ''MAIL FROM:''"
definition cmdRCPT :: command where "cmdRCPT = ''RCPT TO:''"
definition cmdRSET :: command where "cmdRSET = ''RSET''"
definition cmdVRFY :: command where "cmdVRFY = ''VRFY''"
definition cmdNOOP :: command where "cmdNOOP = ''NOOP''"
definition cmdQUIT :: command where "cmdQUIT = ''QUIT''"
definition cmdDATA :: command where "cmdDATA = ''DATA''"
definition cmdSTARTTLS :: command where "cmdSTARTTLS = ''STARTTLS''"
definition cmdPROXY :: command where "cmdPROXY = ''PROXY ''"

lemmas cmd_defs = cmdHELO_def cmdEHLO_def cmdHELP_def cmdXCLIENT_def cmdMAIL_def cmdRCPT_def
  cmdRSET_def cmdVRFY_def cmdNOOP_def cmdQUIT_def cmdDATA_def cmdSTARTTLS_def cmdPROXY_def

definition commands :: "command list" where
  "commands = [cmdHELO, cmdEHLO, cmdXCLIENT, cmdMAIL, cmdRCPT, cmdRSET, cmdVRFY, cmdNOOP,
     cmdQUIT, cmdDATA, cmdSTARTTLS, cmdPROXY, cmdHELP]"

definition cmd_match :: "command \<Rightarrow> string \<Rightarrow> bool" where
  "cmd_match c cmd = has_prefix (to_upper cmd) c"

text \<open>The slice expression panics for an input shorter than the command; see match_content.\<close>

definition content :: "command \<Rightarrow> string \<Rightarrow> string option" where
  "content c inp = (if length c \<le> length inp then Some (trim_space (drop (length c) inp)) else None)"

section \<open>The connection (connection.go)\<close>

datatype ClientState = ConnGreeting | ConnCmd | ConnData | ConnStartTLS | ConnShutdown

definition CharsetDefault :: string where "CharsetDefault = ''default''"
definition CharsetUtf8 :: string where "CharsetUtf8 = ''SMTPUTF8''"

text \<open>
  type connection, with the write side of its net.Conn, the number of identifiers it has drawn
  and extTLS, the variable of handleConn that says whether STARTTLS is advertised. ID is the
  field no code assigns.
\<close>

record connection =
  Env :: envelope
  ID :: "64 word"
  errors :: int
  state :: ClientState
  charset :: string
  messagesSent :: int
  bufErr :: bool
  conn_in :: smtpReader
  killed :: bool
  sent :: "string list"
  write_fails :: "bool list"
  conn_closed :: bool
  xids :: nat
  extTLS :: bool

definition newConnection ::
  "platform \<Rightarrow> raw_conn \<Rightarrow> bool list \<Rightarrow> remote_addr \<Rightarrow> int \<Rightarrow> 64 word \<Rightarrow> connection" where
  "newConnection p raw wfails remote maxMessageSize connectionId =
     \<lparr>Env = NewEnvelope remote connectionId (XID p 0), ID = 0, errors = 0, state = ConnGreeting,
      charset = CharsetDefault, messagesSent = 0, bufErr = False,
      conn_in = NewSMTPReader raw maxMessageSize, killed = False, sent = [],
      write_fails = wfails, conn_closed = False, xids = 1, extTLS = True\<rparr>"

definition readCommand :: "connection \<Rightarrow> (ioerr + string) \<times> connection" where
  "readCommand c =
     (case ReadLine (conn_in c) of
        (Inl e, r) \<Rightarrow> (Inl e, c\<lparr>conn_in := r\<rparr>)
      | (Inr cmd, r) \<Rightarrow> (Inr cmd, c\<lparr>conn_in := r\<rparr>))"

text \<open>
  The items of a reply. The type switch looks for an error before it looks for a Stringer, so a
  response that is also an error is written as its error text.
\<close>

datatype reply_item = Resp Response | Text string

fun item_text :: "reply_item \<Rightarrow> string" where
  "item_text (Resp r) =
     (case Response_Error r of Some err \<Rightarrow> err | None \<Rightarrow> Response_String r)"
| "item_text (Text s) = s"

definition commandSuffix :: string where "commandSuffix = crlf"

definition sendResponse :: "reply_item list \<Rightarrow> connection \<Rightarrow> connection" where
  "sendResponse items c =
     (let out = concat (map item_text items) @ commandSuffix in
      case write_fails c of
        True # fs \<Rightarrow> c\<lparr>bufErr := True, write_fails := fs\<rparr>
      | False # fs \<Rightarrow> c\<lparr>bufErr := False, write_fails := fs, sent := sent c @ [out]\<rparr>
      | [] \<Rightarrow> c\<lparr>bufErr := False, sent := sent c @ [out]\<rparr>)"

definition resetTransaction :: "platform \<Rightarrow> connection \<Rightarrow> connection" where
  "resetTransaction p c =
     c\<lparr>Env := NewEnvelope (RemoteAddr (Env c)) (ConnectionId (Env c)) (XID p (xids c)),
       xids := xids c + 1, conn_in := ResetLimit (conn_in c)\<rparr>"

definition isInTransaction :: "connection \<Rightarrow> bool" where
  "isInTransaction c =
     (case MailFrom (Env c) of None \<Rightarrow> False | Some a \<Rightarrow> addr_Address a \<noteq> [])"

definition kill :: "connection \<Rightarrow> connection" where
  "kill c = c\<lparr>killed := True\<rparr>"

definition isAlive :: "connection \<Rightarrow> bool" where
  "isAlive c \<longleftrightarrow> \<not> killed c"

text \<open>
  setTimeout, which no code calls: the deadline, in nanoseconds, that SetDeadline of the connection
  is given, and its error. The duration is multiplied by a second, with the wrap-around of 64 bits.
\<close>

definition setTimeout :: "(int \<Rightarrow> ioerr option) \<Rightarrow> int \<Rightarrow> 64 word \<Rightarrow> ioerr option" where
  "setTimeout SetDeadline now t = SetDeadline (now + sint (t * 1000000000))"

definition closeConn :: "connection \<Rightarrow> connection" where
  "closeConn c = c\<lparr>conn_closed := True\<rparr>"

text \<open>
  A handshake takes its bytes from the connection, not from the reader's buffer; after it the
  connection delivers what the client sends inside TLS, through a reader with an empty buffer.
\<close>

definition upgradeTLS :: "platform \<Rightarrow> connection \<Rightarrow> string option \<times> connection" where
  "upgradeTLS p c =
     (let (err, raw) = Handshake p (conn_raw (conn_in c)) in
      case err of
        Some e \<Rightarrow> (Some e, c\<lparr>conn_in := (conn_in c)\<lparr>conn_raw := raw\<rparr>\<rparr>)
      | None \<Rightarrow> (None, c\<lparr>conn_in := NewSMTPReader raw (Limit (conn_in c)),
                          Env := (Env c)\<lparr>TLS := True\<rparr>\<rparr>))"

section \<open>How the operations change a connection\<close>

lemma sendResponse_fields [simp, conn_simps]:
  "Env (sendResponse it c) = Env c" "ID (sendResponse it c) = ID c"
  "errors (sendResponse it c) = errors c" "state (sendResponse it c) = state c"
  "charset (sendResponse it c) = charset c" "messagesSent (sendResponse it c) = messagesSent c"
  "conn_in (sendResponse it c) = conn_in c" "killed (sendResponse it c) = killed c"
  "conn_closed (sendResponse it c) = conn_closed c" "xids (sendResponse it c) = xids c"
  "extTLS (sendResponse it c) = extTLS c"
  by (simp_all add: sendResponse_def Let_def split: list.splits bool.splits)

lemma sendResponse_ok [simp]:
  "write_fails c = [] \<Longrightarrow> sent (sendResponse it c) = sent c @ [concat (map item_text it) @ crlf]"
  "write_fails c = [] \<Longrightarrow> write_fails (sendResponse it c) = []"
  "write_fails c = [] \<Longrightarrow> bufErr (sendResponse it c) = False"
  by (simp_all add: sendResponse_def commandSuffix_def)

lemma resetTransaction_fields [simp, conn_simps]:
  "ID (resetTransaction p c) = ID c" "errors (resetTransaction p c) = errors c"
  "state (resetTransaction p c) = state c" "charset (resetTransaction p c) = charset c"
  "messagesSent (resetTransaction p c) = messagesSent c" "bufErr (resetTransaction p c) = bufErr c"
  "conn_in (resetTransaction p c) = ResetLimit (conn_in c)"
  "killed (resetTransaction p c) = killed c" "sent (resetTransaction p c) = sent c"
  "write_fails (resetTransaction p c) = write_fails c"
  "conn_closed (resetTransaction p c) = conn_closed c"
  "xids (resetTransaction p c) = Suc (xids c)" "extTLS (resetTransaction p c) = extTLS c"
  "Env (resetTransaction p c) =
     NewEnvelope (RemoteAddr (Env c)) (ConnectionId (Env c)) (XID p (xids c))"
  by (simp_all add: resetTransaction_def)

lemma NewEnvelope_fields [simp]:
  "RemoteAddr (NewEnvelope ra i x) = ra" "Helo (NewEnvelope ra i x) = []"
  "TLS (NewEnvelope ra i x) = False" "UTF8 (NewEnvelope ra i x) = False"
  "ESMTP (NewEnvelope ra i x) = False" "MailFrom (NewEnvelope ra i x) = None"
  "RcptTo (NewEnvelope ra i x) = []" "Data (NewEnvelope ra i x) = empty_data"
  by (simp_all add: NewEnvelope_def)

lemma kill_fields [simp]:
  "Env (kill c) = Env c" "state (kill c) = state c" "conn_in (kill c) = conn_in c"
  "killed (kill c)" "sent (kill c) = sent c" "errors (kill c) = errors c" "bufErr (kill c) = bufErr c"
  "write_fails (kill c) = write_fails c" "messagesSent (kill c) = messagesSent c"
  by (simp_all add: kill_def)

lemma readCommand_fields:
  assumes "readCommand c = (res, c')"
  shows "c' = c\<lparr>conn_in := conn_in c'\<rparr>" "ReadLine (conn_in c) = (res, conn_in c')"
  using assms by (auto simp: readCommand_def split: prod.splits sum.splits)

text \<open>A command that matches is at least as long as its keyword, so content never slices out of range.\<close>

lemma match_content: "cmd_match c cmd \<Longrightarrow> content c cmd = Some (trim_space (drop (length c) cmd))"
proof -
  assume "cmd_match c cmd"
  then obtain t where "to_upper cmd = c @ t" by (auto simp: cmd_match_def has_prefix_iff)
  then have "length c \<le> length (to_upper cmd)" by simp
  also have "\<dots> \<le> length cmd" by (rule length_to_upper)
  finally show ?thesis by (simp add: content_def)
qed

end
