(* ===== verification/Session.thy ===== *)
theory Session imports Connection begin

text \<open>
  handleConn of server.go: the loop that serves one connection. One iteration of the loop is a
  turn; a turn in the command state reads a line and dispatches it to one of the commands, each
  a definition of its own in the order of the code. A turn goes on with the loop, returns, or
  ends in a panic that leaves the goroutine. The flag sd is what isShuttingDown answers in the
  turn. The loop is serve, with a bound on the number of turns that Session_Termination shows to be
  enough for any input.
\<close>

datatype flow = Go_on | Return | Crash string

section \<open>The replies that depend on the configuration\<close>

definition greeting :: "server \<Rightarrow> platform \<Rightarrow> connection \<Rightarrow> string" where
  "greeting s p c = ''220 '' @ Hostname s @ '' SMTP '' @ Name @ ''('' @ Version @ '') #'' @
     show_nat (unat (ID c)) @ ''  '' @ Now p"

definition helo_reply :: "server \<Rightarrow> string" where
  "helo_reply s = ''250 '' @ Hostname s @ '' Hello''"

definition ehlo_reply :: "server \<Rightarrow> connection \<Rightarrow> reply_item list" where
  "ehlo_reply s c =
     [Text (''250-'' @ Hostname s @ '' Hello'' @ crlf),
      Text (''250-SIZE '' @ show_int (MaxSize s) @ crlf),
      Text (''250-PIPELINING'' @ crlf),
      Text (if extTLS c then ''250-STARTTLS'' @ crlf else []),
      Text (''250-ENHANCEDSTATUSCODES'' @ crlf),
      Text (''250-SMTPUTF8'' @ crlf),
      Text ''250 HELP'']"

definition help_reply :: "reply_item list" where
  "help_reply =
     [Text (''214-Supported commands:'' @ crlf),
      Text (''214-'' @ join '' '' (map (\<lambda>c. fst (go_cut c '' '')) commands) @ crlf),
      Text ''214 End of HELP info'']"

abbreviation reply :: "response \<Rightarrow> connection \<Rightarrow> connection" where
  "reply r \<equiv> sendResponse [Resp (Canned r)]"

definition add_error :: "connection \<Rightarrow> connection" where
  "add_error c = c\<lparr>errors := errors c + 1\<rparr>"

definition set_env :: "(envelope \<Rightarrow> envelope) \<Rightarrow> connection \<Rightarrow> connection" where
  "set_env f c = c\<lparr>Env := f (Env c)\<rparr>"

text \<open>A slice out of range would panic; match_content says it does not happen.\<close>

definition with_content ::
  "command \<Rightarrow> string \<Rightarrow> connection \<Rightarrow> (string \<Rightarrow> flow \<times> connection) \<Rightarrow> flow \<times> connection" where
  "with_content k cmd c f =
     (case content k cmd of
        None \<Rightarrow> (Crash ''runtime error: slice bounds out of range'', c)
      | Some s \<Rightarrow> f s)"

section \<open>The commands\<close>

definition cmd_helo :: "server \<Rightarrow> platform \<Rightarrow> string \<Rightarrow> connection \<Rightarrow> flow \<times> connection" where
  "cmd_helo s p cmd c =
     (let c1 = resetTransaction p c in
      with_content cmdHELO cmd c1 (\<lambda>ct.
        let c2 = set_env (\<lambda>e. e\<lparr>Helo := trim_space ct\<rparr>) c1
        in (Go_on, sendResponse [Text (helo_reply s)] c2)))"

definition cmd_ehlo :: "server \<Rightarrow> platform \<Rightarrow> string \<Rightarrow> connection \<Rightarrow> flow \<times> connection" where
  "cmd_ehlo s p cmd c =
     (let c1 = resetTransaction p c in
      with_content cmdHELO cmd c1 (\<lambda>ct.
        let c2 = set_env (\<lambda>e. e\<lparr>Helo := ct, ESMTP := True\<rparr>) c1
        in (Go_on, sendResponse (ehlo_reply s c2) c2)))"

definition cmd_help :: "connection \<Rightarrow> flow \<times> connection" where
  "cmd_help c = (Go_on, sendResponse help_reply c)"

text \<open>One token of XCLIENT.\<close>

definition xclient_token :: "platform \<Rightarrow> string \<Rightarrow> envelope \<Rightarrow> envelope" where
  "xclient_token p tok e =
     (let (key, val, found) = go_cut tok ''='' in
      if found then
        (if val = ''[UNAVAILABLE]'' then e
         else
           let e1 = (if key = ''ADDR'' then e\<lparr>RemoteAddr := TCPAddr (ParseIP p val)\<rparr> else e)
           in if key = ''HELO'' then e1\<lparr>Helo := val\<rparr> else e1)
      else e)"

definition cmd_xclient :: "platform \<Rightarrow> string \<Rightarrow> connection \<Rightarrow> flow \<times> connection" where
  "cmd_xclient p cmd c =
     with_content cmdXCLIENT cmd c (\<lambda>ct.
       let c1 = set_env (fold (xclient_token p) (go_fields ct)) c
       in (Go_on, reply SuccessMailCmd c1))"

definition cmd_proxy :: "server \<Rightarrow> platform \<Rightarrow> string \<Rightarrow> connection \<Rightarrow> flow \<times> connection" where
  "cmd_proxy s p cmd c =
     with_content cmdPROXY cmd c (\<lambda>ct.
       let toks = go_fields (trim_space ct) in
       if length toks = 5 then
         (let c1 = set_env (\<lambda>e. e\<lparr>RemoteAddr := TCPAddr (ParseIP p (toks ! 1))\<rparr>) c
          in (Go_on, sendResponse [Text (greeting s p c1)] c1))
       else if length toks = 6 then
         (let c1 = set_env (\<lambda>e. e\<lparr>RemoteAddr := TCPAddr (ParseIP p (toks ! 2))\<rparr>) c
          in (Go_on, sendResponse [Text (greeting s p c1)] c1))
       else (Go_on, reply FailSyntaxError c))"

definition cmd_mail :: "platform \<Rightarrow> string \<Rightarrow> connection \<Rightarrow> flow \<times> connection" where
  "cmd_mail p cmd c =
     (if isInTransaction c then (Go_on, add_error (reply FailNestedMailCmd c))
      else
        with_content cmdMAIL cmd c (\<lambda>ct.
          let (addr, charser, _) = go_cut ct '' '';
              c1 = (if charser = CharsetUtf8
                    then set_env (\<lambda>e. e\<lparr>UTF8 := True\<rparr>) (c\<lparr>charset := CharsetUtf8\<rparr>) else c)
          in case ParseAddress p addr of
               Inl err \<Rightarrow>
                 (Go_on, add_error (reply RejectedSenderMailCmd (set_env (\<lambda>e. e\<lparr>MailFrom := None\<rparr>) c1)))
             | Inr a \<Rightarrow>
                 (Go_on, reply SuccessMailCmd (set_env (\<lambda>e. e\<lparr>MailFrom := Some a\<rparr>) c1))))"

definition cmd_rcpt :: "server \<Rightarrow> platform \<Rightarrow> string \<Rightarrow> connection \<Rightarrow> flow \<times> connection" where
  "cmd_rcpt s p cmd c =
     (if int (length (RcptTo (Env c))) > MaxRecipients s
      then (Go_on, add_error (reply ErrorTooManyRecipients c))
      else
        with_content cmdRCPT cmd c (\<lambda>ct.
          case ParseAddress p ct of
            Inl err \<Rightarrow> (Go_on, add_error (reply FailSyntaxError c))
          | Inr a \<Rightarrow>
              (Go_on, reply SuccessRcptCmd (set_env (\<lambda>e. e\<lparr>RcptTo := RcptTo e @ [a]\<rparr>) c))))"

definition cmd_rset :: "platform \<Rightarrow> connection \<Rightarrow> flow \<times> connection" where
  "cmd_rset p c = (Go_on, reply SuccessResetCmd (resetTransaction p c))"

definition cmd_vrfy :: "connection \<Rightarrow> flow \<times> connection" where
  "cmd_vrfy c = (Go_on, reply SuccessVerifyCmd c)"

definition cmd_noop :: "connection \<Rightarrow> flow \<times> connection" where
  "cmd_noop c = (Go_on, reply SuccessNoopCmd c)"

definition cmd_quit :: "connection \<Rightarrow> flow \<times> connection" where
  "cmd_quit c = (Return, kill (reply SuccessQuitCmd c))"

definition cmd_data :: "connection \<Rightarrow> flow \<times> connection" where
  "cmd_data c =
     (if RcptTo (Env c) = [] then (Go_on, reply FailNoRecipientsDataCmd c)
      else (Go_on, (reply SuccessDataCmd c)\<lparr>state := ConnData\<rparr>))"

definition cmd_starttls :: "server \<Rightarrow> connection \<Rightarrow> flow \<times> connection" where
  "cmd_starttls s c =
     (if \<not> TLSConfig s then (Go_on, reply FailCommandNotImplemented c)
      else (Go_on, (reply SuccessStartTLSCmd c)\<lparr>state := ConnStartTLS\<rparr>))"

definition cmd_unrecognized :: "server \<Rightarrow> connection \<Rightarrow> flow \<times> connection" where
  "cmd_unrecognized s c =
     (let c1 = add_error c in
      if errors c1 \<ge> MaxUnrecognizedCommands s
      then (Go_on, kill (reply FailMaxUnrecognizedCmd c1))
      else (Go_on, reply FailUnrecognizedCmd c1))"

text \<open>The switch over the commands, first match first.\<close>

definition dispatch :: "server \<Rightarrow> platform \<Rightarrow> string \<Rightarrow> connection \<Rightarrow> flow \<times> connection" where
  "dispatch s p cmd c =
     (if cmd_match cmdHELO cmd then cmd_helo s p cmd c
      else if cmd_match cmdEHLO cmd then cmd_ehlo s p cmd c
      else if cmd_match cmdHELP cmd then cmd_help c
      else if cmd_match cmdXCLIENT cmd \<and> XClientOn s then cmd_xclient p cmd c
      else if cmd_match cmdPROXY cmd \<and> ProxyOn s then cmd_proxy s p cmd c
      else if cmd_match cmdMAIL cmd then cmd_mail p cmd c
      else if cmd_match cmdRCPT cmd then cmd_rcpt s p cmd c
      else if cmd_match cmdRSET cmd then cmd_rset p c
      else if cmd_match cmdVRFY cmd then cmd_vrfy c
      else if cmd_match cmdNOOP cmd then cmd_noop c
      else if cmd_match cmdQUIT cmd then cmd_quit c
      else if cmd_match cmdDATA cmd then cmd_data c
      else if cmd_match cmdSTARTTLS cmd then cmd_starttls s c
      else cmd_unrecognized s c)"

section \<open>The turns\<close>

definition greeting_turn :: "server \<Rightarrow> platform \<Rightarrow> connection \<Rightarrow> flow \<times> connection" where
  "greeting_turn s p c = (Go_on, (sendResponse [Text (greeting s p c)] c)\<lparr>state := ConnCmd\<rparr>)"

definition cmd_turn :: "server \<Rightarrow> platform \<Rightarrow> bool \<Rightarrow> connection \<Rightarrow> flow \<times> connection" where
  "cmd_turn s p sd c =
     (case readCommand c of
        (Inl EOF, c1) \<Rightarrow> (Return, c1)
      | (Inl Timeout, c1) \<Rightarrow> (Return, c1)
      | (Inl LimitReached, c1) \<Rightarrow> (Return, kill (reply FailLineTooLong c1))
      | (Inl e, c1) \<Rightarrow> (Return, kill c1)
      | (Inr cmd, c1) \<Rightarrow>
          if sd then (Go_on, c1\<lparr>state := ConnShutdown\<rparr>) else dispatch s p cmd c1)"

text \<open>The envelope the chain is called with, and what the DATA section ended with.\<close>

definition read_data :: "connection \<Rightarrow> ioerr option \<times> connection" where
  "read_data c =
     (let ((out, e), r) = ReadDot (conn_in c)
      in (e, (set_env (\<lambda>en. en\<lparr>Data := data_ReadFrom out (Data en)\<rparr>) c)\<lparr>conn_in := r\<rparr>))"

definition deliver :: "server \<Rightarrow> platform \<Rightarrow> bool \<Rightarrow> connection \<Rightarrow> flow \<times> connection" where
  "deliver s p sd c =
     (case Handler s of
        None \<Rightarrow> (Crash nil_pointer, c)
      | Some h \<Rightarrow>
          (case build_chain (Middlewares s) h (Env c) of
             (Panicked r, e') \<Rightarrow> (Crash r, c\<lparr>Env := e'\<rparr>)
           | (Returned res, e') \<Rightarrow>
               (let resp = (case res of None \<Rightarrow> Canned SuccessMessageAccepted | Some r \<Rightarrow> r);
                    c1 = c\<lparr>Env := e'\<rparr>;
                    c2 = (if Response_Class resp \<noteq> ClassSuccess then add_error c1 else c1);
                    c3 = (if Response_Class resp = ClassSuccess
                          then c2\<lparr>messagesSent := messagesSent c2 + 1\<rparr> else c2);
                    c4 = sendResponse [Resp resp] c3;
                    c5 = c4\<lparr>state := (if sd then ConnShutdown else ConnCmd)\<rparr>
                in (Go_on, resetTransaction p c5))))"

definition data_turn :: "server \<Rightarrow> platform \<Rightarrow> bool \<Rightarrow> connection \<Rightarrow> flow \<times> connection" where
  "data_turn s p sd c =
     (case read_data c of
        (Some LimitReached, c1) \<Rightarrow>
          (Go_on, kill (sendResponse
             [Resp (Canned FailMessageSizeExceeded), Text '' '', Text LimitError_Error] c1))
      | (Some e, c1) \<Rightarrow>
          (Go_on, kill (sendResponse
             [Resp (Canned FailReadErrorDataCmd), Text '' '', Text (ioerr_Error e)] c1))
      | (None, c1) \<Rightarrow> deliver s p sd c1)"

definition starttls_turn :: "server \<Rightarrow> platform \<Rightarrow> connection \<Rightarrow> flow \<times> connection" where
  "starttls_turn s p c =
     (if TLS (Env c) then (Go_on, c\<lparr>state := ConnCmd\<rparr>)
      else if \<not> TLSConfig s then (Go_on, c\<lparr>state := ConnCmd\<rparr>)
      else (case upgradeTLS p c of
          (Some err, c1) \<Rightarrow> (Go_on, c1\<lparr>state := ConnCmd\<rparr>)
        | (None, c1) \<Rightarrow> (Go_on, (resetTransaction p (c1\<lparr>extTLS := False\<rparr>))\<lparr>state := ConnCmd\<rparr>)))"

definition shutdown_turn :: "connection \<Rightarrow> flow \<times> connection" where
  "shutdown_turn c = (Go_on, kill (reply ErrorShutdown c))"

text \<open>One iteration of the loop, with the loop's condition and the check of bufErr.\<close>

definition turn :: "server \<Rightarrow> platform \<Rightarrow> bool \<Rightarrow> connection \<Rightarrow> flow \<times> connection" where
  "turn s p sd c =
     (if \<not> isAlive c then (Return, c)
      else if bufErr c then (Return, c)
      else (case state c of
          ConnGreeting \<Rightarrow> greeting_turn s p c
        | ConnCmd \<Rightarrow> cmd_turn s p sd c
        | ConnData \<Rightarrow> data_turn s p sd c
        | ConnStartTLS \<Rightarrow> starttls_turn s p c
        | ConnShutdown \<Rightarrow> shutdown_turn c))"

text \<open>The loop; sd k is the answer of isShuttingDown in turn k.\<close>

fun serve ::
  "nat \<Rightarrow> server \<Rightarrow> platform \<Rightarrow> (nat \<Rightarrow> bool) \<Rightarrow> nat \<Rightarrow> connection \<Rightarrow> (flow \<times> connection) option" where
  "serve 0 s p sd k c = None"
| "serve (Suc n) s p sd k c =
     (case turn s p (sd k) c of
        (Go_on, c') \<Rightarrow> serve n s p sd (Suc k) c'
      | (f, c') \<Rightarrow> Some (f, c'))"

text \<open>What happens before the loop: TLS from the start if it is always on, and extTLS.\<close>

definition start_conn :: "server \<Rightarrow> platform \<Rightarrow> connection \<Rightarrow> bool \<times> connection" where
  "start_conn s p c =
     (if TLSAlwaysOn s \<and> TLSConfig s then
        (case upgradeTLS p c of
           (None, c1) \<Rightarrow> (True, c1\<lparr>extTLS := False\<rparr>)
         | (Some err, c1) \<Rightarrow> (False, kill c1))
      else (True, if TLSConfig s then c else c\<lparr>extTLS := False\<rparr>))"

definition handleConn ::
  "nat \<Rightarrow> server \<Rightarrow> platform \<Rightarrow> (nat \<Rightarrow> bool) \<Rightarrow> connection \<Rightarrow> (flow \<times> connection) option" where
  "handleConn n s p sd c =
     (case start_conn s p c of
        (False, c1) \<Rightarrow> Some (Return, closeConn c1)
      | (True, c1) \<Rightarrow> map_option (\<lambda>(f, c2). (f, closeConn c2)) (serve n s p sd 0 c1))"

end
