(* ===== verification/Session_Facts.thy ===== *)
theory Session_Facts imports Session begin

text \<open>
  What holds of every connection: the invariant all turns keep (conn_inv). Each command has its own
  lemma; the turns, and the connections the loop can reach, follow from them.
\<close>

section \<open>The invariant of a connection\<close>

text \<open>
  The reader is between two reads, within its buffer and its limit; the recipients are at most
  one more than MaxRecipients; the DATA state has a recipient, and the state that waits for a
  handshake a TLS configuration; the message of a live connection is empty between the commands.
\<close>

definition reader_ok :: "server \<Rightarrow> smtpReader \<Rightarrow> bool" where
  "reader_ok s r \<longleftrightarrow> settled r \<and> length (buffered r) \<le> bufsize \<and> limit_N r \<le> rd_n r \<and> rd_n r = MaxSize s"

definition conn_inv :: "server \<Rightarrow> connection \<Rightarrow> bool" where
  "conn_inv s c \<longleftrightarrow>
     reader_ok s (conn_in c) \<and>
     length (RcptTo (Env c)) \<le> nat (MaxRecipients s + 1) \<and>
     (state c = ConnData \<longrightarrow> RcptTo (Env c) \<noteq> []) \<and>
     (state c = ConnStartTLS \<longrightarrow> TLSConfig s) \<and>
     (killed c \<or> Data (Env c) = empty_data)"

lemma reader_ok_frame: "reader_ok s r \<Longrightarrow> read_frame r r' \<Longrightarrow> reader_ok s r'"
  by (auto simp: reader_ok_def read_frame_def)

lemma reader_ok_ResetLimit [simp]: "reader_ok s r \<Longrightarrow> reader_ok s (ResetLimit r)"
  by (auto simp: reader_ok_def ResetLimit_def settled_def)

lemma reader_ok_new: "rd_n r = MaxSize s \<Longrightarrow> reader_ok s (NewSMTPReader raw (Limit r))"
  by (simp add: reader_ok_def NewSMTPReader_def Limit_def settled_def)

lemma conn_inv_fresh:
  assumes "reader_ok s (conn_in c)" "state c = ConnCmd \<or> state c = ConnShutdown"
    "RcptTo (Env c) = []" "Data (Env c) = empty_data"
  shows "conn_inv s c"
  using assms by (auto simp: conn_inv_def)

lemmas cmd_unfold = set_env_def add_error_def with_content_def Let_def

text \<open>The commands: what they do to the fields the invariant speaks of.\<close>

named_theorems cmd_inv "every command keeps the invariant"

lemma cmd_helo_inv [cmd_inv]:
  "conn_inv s c \<Longrightarrow> state c = ConnCmd \<Longrightarrow> cmd_helo s p cmd c = (Go_on, c') \<Longrightarrow> conn_inv s c'"
  by (auto simp: cmd_helo_def cmd_unfold conn_inv_def split: option.splits)

lemma cmd_ehlo_inv [cmd_inv]:
  "conn_inv s c \<Longrightarrow> state c = ConnCmd \<Longrightarrow> cmd_ehlo s p cmd c = (Go_on, c') \<Longrightarrow> conn_inv s c'"
  by (auto simp: cmd_ehlo_def cmd_unfold conn_inv_def split: option.splits)

lemma xclient_fold:
  "RcptTo (fold (xclient_token p) toks e) = RcptTo e \<and> Data (fold (xclient_token p) toks e) = Data e \<and>
   MailFrom (fold (xclient_token p) toks e) = MailFrom e"
  by (induction toks arbitrary: e) (auto simp: xclient_token_def Let_def split: prod.splits)

lemma cmd_xclient_inv [cmd_inv]:
  "conn_inv s c \<Longrightarrow> state c = ConnCmd \<Longrightarrow> cmd_xclient p cmd c = (Go_on, c') \<Longrightarrow> conn_inv s c'"
  by (auto simp: cmd_xclient_def cmd_unfold conn_inv_def xclient_fold split: option.splits)

lemma cmd_proxy_inv [cmd_inv]:
  "conn_inv s c \<Longrightarrow> state c = ConnCmd \<Longrightarrow> cmd_proxy s p cmd c = (Go_on, c') \<Longrightarrow> conn_inv s c'"
  by (auto simp: cmd_proxy_def cmd_unfold conn_inv_def split: option.splits if_splits)

lemma cmd_mail_inv [cmd_inv]:
  "conn_inv s c \<Longrightarrow> state c = ConnCmd \<Longrightarrow> cmd_mail p cmd c = (Go_on, c') \<Longrightarrow> conn_inv s c'"
  by (auto simp: cmd_mail_def cmd_unfold conn_inv_def split: option.splits if_splits prod.splits sum.splits)

lemma cmd_rcpt_inv [cmd_inv]:
  "conn_inv s c \<Longrightarrow> state c = ConnCmd \<Longrightarrow> cmd_rcpt s p cmd c = (Go_on, c') \<Longrightarrow> conn_inv s c'"
  by (auto simp: cmd_rcpt_def cmd_unfold conn_inv_def split: option.splits if_splits sum.splits)

lemma cmd_rset_inv [cmd_inv]:
  "conn_inv s c \<Longrightarrow> state c = ConnCmd \<Longrightarrow> cmd_rset p c = (Go_on, c') \<Longrightarrow> conn_inv s c'"
  by (auto simp: cmd_rset_def conn_inv_def)

lemma cmd_data_inv [cmd_inv]:
  "conn_inv s c \<Longrightarrow> state c = ConnCmd \<Longrightarrow> cmd_data c = (Go_on, c') \<Longrightarrow> conn_inv s c'"
  by (auto simp: cmd_data_def conn_inv_def split: if_splits)

lemma cmd_starttls_inv [cmd_inv]:
  "conn_inv s c \<Longrightarrow> state c = ConnCmd \<Longrightarrow> cmd_starttls s c = (Go_on, c') \<Longrightarrow> conn_inv s c'"
  by (auto simp: cmd_starttls_def conn_inv_def split: if_splits)

lemma cmd_others_inv [cmd_inv]:
  "conn_inv s c \<Longrightarrow> state c = ConnCmd \<Longrightarrow> cmd_help c = (Go_on, c') \<Longrightarrow> conn_inv s c'"
  "conn_inv s c \<Longrightarrow> state c = ConnCmd \<Longrightarrow> cmd_vrfy c = (Go_on, c') \<Longrightarrow> conn_inv s c'"
  "conn_inv s c \<Longrightarrow> state c = ConnCmd \<Longrightarrow> cmd_noop c = (Go_on, c') \<Longrightarrow> conn_inv s c'"
  "conn_inv s c \<Longrightarrow> state c = ConnCmd \<Longrightarrow> cmd_quit c = (Go_on, c') \<Longrightarrow> conn_inv s c'"
  "conn_inv s c \<Longrightarrow> state c = ConnCmd \<Longrightarrow> cmd_unrecognized s c = (Go_on, c') \<Longrightarrow> conn_inv s c'"
  by (auto simp: cmd_help_def cmd_vrfy_def cmd_noop_def cmd_quit_def cmd_unrecognized_def
      cmd_unfold conn_inv_def split: if_splits)

lemma dispatch_inv:
  "conn_inv s c \<Longrightarrow> state c = ConnCmd \<Longrightarrow> dispatch s p cmd c = (Go_on, c') \<Longrightarrow> conn_inv s c'"
  unfolding dispatch_def by (auto split: if_splits intro: cmd_inv)

text \<open>The reads of a turn.\<close>

lemma readCommand_frame:
  assumes "conn_inv s c" "readCommand c = (res, c')"
  shows "read_frame (conn_in c) (conn_in c')" "conn_inv s c'" "state c' = state c"
    "c' = c\<lparr>conn_in := conn_in c'\<rparr>"
    "res = Inr l \<Longrightarrow> pending (conn_in c') < pending (conn_in c)"
proof -
  note rc = readCommand_fields [OF assms(2)]
  have ok: "settled (conn_in c)" "length (buffered (conn_in c)) \<le> bufsize"
    using assms(1) by (auto simp: conn_inv_def reader_ok_def)
  have "readLine_acc [] (conn_in c) = (res, conn_in c')" using rc(2) by (simp add: ReadLine_def)
  from readLine_acc_frame [OF ok this] show f: "read_frame (conn_in c) (conn_in c')" by simp
  show "state c' = state c" by (subst rc(1)) simp
  show "c' = c\<lparr>conn_in := conn_in c'\<rparr>" by (rule rc(1))
  have "Env c' = Env c" "killed c' = killed c" "state c' = state c" by (subst rc(1), simp)+
  then show "conn_inv s c'" using assms(1) reader_ok_frame [OF _ f] by (simp add: conn_inv_def)
  show "pending (conn_in c') < pending (conn_in c)" if "res = Inr l"
    using ReadLine_pending rc(2) that by simp
qed

lemma cmd_turn_inv:
  assumes "conn_inv s c" "state c = ConnCmd" "cmd_turn s p sd c = (Go_on, c')"
  shows "conn_inv s c'"
proof -
  obtain res c1 where rc: "readCommand c = (res, c1)" by (metis prod.exhaust)
  note f = readCommand_frame [OF assms(1) rc]
  from assms(3) rc obtain cmd where res: "res = Inr cmd"
    by (cases res) (auto simp: cmd_turn_def split: ioerr.splits)
  show ?thesis
  proof (cases sd)
    case True
    with assms(2,3) rc res f(2,3) show ?thesis by (auto simp: cmd_turn_def conn_inv_def)
  next
    case False
    with assms(3) rc res have "dispatch s p cmd c1 = (Go_on, c')" by (simp add: cmd_turn_def)
    with f(2,3) assms(2) show ?thesis by (auto intro: dispatch_inv)
  qed
qed

lemma deliver_Go_on:
  assumes "deliver s p sd c = (Go_on, c')"
  shows "conn_in c' = ResetLimit (conn_in c)" "RcptTo (Env c') = []" "Data (Env c') = empty_data"
    "state c' = ConnCmd \<or> state c' = ConnShutdown" "killed c' = killed c"
  using assms
  by (auto simp: deliver_def Let_def add_error_def split: option.splits prod.splits outcome.splits
      if_splits)

lemma read_data_frame:
  assumes "conn_inv s c" "read_data c = (e, c')"
  shows "read_frame (conn_in c) (conn_in c')" "state c' = state c" "RcptTo (Env c') = RcptTo (Env c)"
    "killed c' = killed c"
    "length (data_Bytes (Data (Env c'))) \<le> length (data_Bytes (Data (Env c))) + length (avail (conn_in c))"
    "length (avail (conn_in c')) \<le> length (avail (conn_in c))"
proof -
  have ok: "settled (conn_in c)" "length (buffered (conn_in c)) \<le> bufsize"
    using assms(1) by (auto simp: conn_inv_def reader_ok_def)
  obtain out e' r where rd: "ReadDot (conn_in c) = ((out, e'), r)" by (metis prod.exhaust)
  with assms(2) have c': "c' = (set_env (\<lambda>en. en\<lparr>Data := data_ReadFrom out (Data en)\<rparr>) c)\<lparr>conn_in := r\<rparr>"
    by (simp add: read_data_def)
  note f = ReadDot_frame [OF ok rd]
  show "read_frame (conn_in c) (conn_in c')" "state c' = state c" "RcptTo (Env c') = RcptTo (Env c)"
    "killed c' = killed c"
    "length (data_Bytes (Data (Env c'))) \<le> length (data_Bytes (Data (Env c))) + length (avail (conn_in c))"
    "length (avail (conn_in c')) \<le> length (avail (conn_in c))"
    using f by (simp_all add: c' set_env_def data_Bytes_ReadFrom)
qed

lemma data_turn_inv:
  assumes "conn_inv s c" "state c = ConnData" "data_turn s p sd c = (Go_on, c')"
  shows "conn_inv s c'"
proof -
  obtain e c1 where rd: "read_data c = (e, c1)" by (metis prod.exhaust)
  note f = read_data_frame [OF assms(1) rd]
  have ok: "reader_ok s (conn_in c1)"
    using assms(1) f(1) reader_ok_frame by (auto simp: conn_inv_def)
  show ?thesis
  proof (cases e)
    case None
    with assms(3) rd have d: "deliver s p sd c1 = (Go_on, c')" by (simp add: data_turn_def)
    from deliver_Go_on [OF d] ok show ?thesis by (auto intro!: conn_inv_fresh)
  next
    case (Some x)
    have "conn_inv s (kill (sendResponse it c1))" for it
      using assms(1,2) f(2,3) ok by (simp add: conn_inv_def)
    with assms(3) rd Some show ?thesis by (auto simp: data_turn_def split: ioerr.splits)
  qed
qed

lemma upgradeTLS_cases:
  "upgradeTLS p c = (None, c') \<Longrightarrow>
     conn_in c' = NewSMTPReader (snd (Handshake p (conn_raw (conn_in c)))) (rd_n (conn_in c)) \<and>
     Env c' = (Env c)\<lparr>TLS := True\<rparr> \<and> killed c' = killed c \<and> state c' = state c"
  "upgradeTLS p c = (Some err, c') \<Longrightarrow>
     c' = c\<lparr>conn_in := (conn_in c)\<lparr>conn_raw := snd (Handshake p (conn_raw (conn_in c)))\<rparr>\<rparr>"
  by (auto simp: upgradeTLS_def Limit_def split: prod.splits option.splits)

lemma starttls_turn_inv:
  assumes "conn_inv s c" "starttls_turn s p c = (Go_on, c')"
  shows "conn_inv s c'"
proof -
  obtain e c1 where up: "upgradeTLS p c = (e, c1)" by (metis prod.exhaust)
  have rd: "rd_n (conn_in c) = MaxSize s" using assms(1) by (simp add: conn_inv_def reader_ok_def)
  show ?thesis
  proof (cases e)
    case None
    from upgradeTLS_cases(1) [OF up [unfolded None]] reader_ok_new [OF rd]
    have "reader_ok s (conn_in c1)" by (simp add: Limit_def)
    then show ?thesis using assms up None
      by (auto simp: starttls_turn_def conn_inv_def split: if_splits)
  next
    case (Some x)
    from upgradeTLS_cases(2) [OF up [unfolded Some]] assms up Some show ?thesis
      by (auto simp: starttls_turn_def conn_inv_def reader_ok_def settled_def split: if_splits)
  qed
qed

lemma turn_inv:
  assumes "conn_inv s c" "turn s p sd c = (Go_on, c')"
  shows "conn_inv s c'"
proof (cases "state c")
  case ConnGreeting
  with assms show ?thesis
    by (auto simp: turn_def greeting_turn_def conn_inv_def split: if_splits)
next
  case ConnCmd
  with assms show ?thesis by (auto simp: turn_def intro: cmd_turn_inv split: if_splits)
next
  case ConnData
  with assms show ?thesis by (auto simp: turn_def intro: data_turn_inv split: if_splits)
next
  case ConnStartTLS
  with assms show ?thesis by (auto simp: turn_def intro: starttls_turn_inv split: if_splits)
next
  case ConnShutdown
  with assms show ?thesis
    by (auto simp: turn_def shutdown_turn_def conn_inv_def split: if_splits)
qed

text \<open>The connections of a server and the steps of the loop.\<close>

definition conn_init :: "server \<Rightarrow> connection \<Rightarrow> bool" where
  "conn_init s c \<longleftrightarrow> (\<exists>p raw wf ra cid.
     start_conn s p (newConnection p raw wf ra (MaxSize s) cid) = (True, c))"

definition loop_step :: "server \<Rightarrow> connection \<Rightarrow> connection \<Rightarrow> bool" where
  "loop_step s c c' \<longleftrightarrow> (\<exists>p sd. turn s p sd c = (Go_on, c'))"

lemma conn_init_inv: "conn_init s c \<Longrightarrow> conn_inv s c \<and> state c = ConnGreeting"
  unfolding conn_init_def start_conn_def
  by (auto simp: upgradeTLS_def newConnection_def conn_inv_def reader_ok_def NewSMTPReader_def
      Limit_def settled_def split: if_splits prod.splits option.splits)

interpretation session: invariant_system "conn_init s" "loop_step s" "conn_inv s" for s
  by unfold_locales (auto simp: conn_init_inv loop_step_def intro: turn_inv)

end
