(* ===== verification/Session_Termination.thy ===== *)
theory Session_Termination imports Session_Facts begin

text \<open>
  The loop of handleConn ends on every input: every turn that goes on either consumes bytes of
  the connection, moves on to the command state, or ends the connection. The number of turns is
  bounded by what the client sends (conn_measure), which is the fuel that serve needs. The one
  thing the loop takes from outside is the TLS handshake: it may consume bytes and not add any.
\<close>

lemma read_byte_pending_err:
  assumes "settled r" "read_byte r = (Inl e, r')"
  shows "pending r' \<le> pending r"
proof (cases "buffered r")
  case Nil
  have n: "buf_err r = None" using assms(1) by (simp add: settled_def)
  with Nil assms(2) have r': "r' = (fill r)\<lparr>buf_err := None\<rparr>"
    by (auto simp: read_byte_def Let_def split: list.splits)
  have "pending (fill r) \<le> pending r" using fill_size(2) [of r] n Nil by (simp add: bufsize_def)
  then show ?thesis by (simp add: r' pending_def)
qed (use assms in \<open>auto simp: read_byte_def\<close>)

lemma dot_read_pending:
  "settled r \<Longrightarrow> length (buffered r) \<le> bufsize \<Longrightarrow> dot_read st r = (x, r') \<Longrightarrow> pending r' \<le> pending r"
proof (induction st r arbitrary: x rule: dot_read.induct)
  case (1 st r)
  from read_byte_avail [OF "1.prems"(1,2)] obtain r1 where r1: "read_frame r r1" and
    rb: "(\<exists>e. read_byte r = (Inl e, r1)) \<or>
      (\<exists>c. read_byte r = (Inr c, r1) \<and> length (buffered r1) < bufsize)"
    by (cases "avail r") (simp, blast)+
  have s1: "settled r1" "length (buffered r1) \<le> bufsize" using r1 by (auto simp: read_frame_def)
  from rb show ?case
  proof (elim disjE exE conjE)
    fix e assume "read_byte r = (Inl e, r1)"
    with "1.prems"(1,3) read_byte_pending_err show ?thesis by (auto simp: dot_read.simps [of st r])
  next
    fix c assume rb: "read_byte r = (Inr c, r1)" and bl: "length (buffered r1) < bufsize"
    have p: "pending r1 < pending r" using read_byte_pending [OF rb] .
    show ?thesis
    proof (cases "dot_step st c")
      case Finish
      with rb "1.prems"(3) p show ?thesis by (simp add: dot_read.simps [of st r])
    next
      case (Skip st')
      with rb "1.prems"(3) have "dot_read st' r1 = (x, r')" by (simp add: dot_read.simps [of st r])
      from "1.IH"(1) [OF rb [symmetric] refl Skip s1 this] p show ?thesis by simp
    next
      case (Emit st')
      with rb "1.prems"(3) obtain y where "dot_read st' r1 = (y, r')"
        by (auto simp: dot_read.simps [of st r] split: prod.splits)
      from "1.IH"(2) [OF rb [symmetric] refl Emit s1 this] p show ?thesis by simp
    next
      case EmitSavedCR
      have u: "settled (unread_byte c r1)" "length (buffered (unread_byte c r1)) \<le> bufsize"
        using s1 bl by (auto simp: unread_byte_def settled_def)
      from EmitSavedCR rb "1.prems"(3) obtain y where "dot_read StData (unread_byte c r1) = (y, r')"
        by (auto simp: dot_read.simps [of st r] split: prod.splits)
      from "1.IH"(3) [OF rb [symmetric] refl EmitSavedCR u this] p show ?thesis
        by (simp add: unread_byte_def pending_def)
    qed
  qed
qed

lemma pending_ResetLimit [simp]: "pending (ResetLimit r) = pending r"
  by (simp add: pending_def ResetLimit_def)

lemma pending_New [simp]: "pending (NewSMTPReader raw n) = raw_size raw"
  by (simp add: pending_def NewSMTPReader_def)

section \<open>The measure\<close>

fun state_rank :: "ClientState \<Rightarrow> nat" where
  "state_rank ConnGreeting = 2"
| "state_rank ConnData = 2"
| "state_rank ConnStartTLS = 2"
| "state_rank ConnCmd = 1"
| "state_rank ConnShutdown = 0"

definition conn_measure :: "connection \<Rightarrow> nat" where
  "conn_measure c = (if killed c then 0 else Suc (3 * pending (conn_in c) + state_rank (state c)))"

lemma state_rank_le: "state_rank st \<le> 2"
  by (cases st) auto

lemma conn_measure_line:
  "\<not> killed c \<Longrightarrow> pending (conn_in c') < pending (conn_in c) \<Longrightarrow> state c = ConnCmd \<Longrightarrow>
     conn_measure c' < conn_measure c"
  using state_rank_le [of "state c'"] by (simp add: conn_measure_def)

definition handshake_consumes :: "platform \<Rightarrow> bool" where
  "handshake_consumes p \<longleftrightarrow> (\<forall>raw. raw_size (snd (Handshake p raw)) \<le> raw_size raw)"

named_theorems cmd_reads "the commands leave the reader alone"

lemma cmd_hello_reads [cmd_reads]:
  "pending (conn_in (snd (cmd_helo s p cmd c))) = pending (conn_in c)"
  "pending (conn_in (snd (cmd_ehlo s p cmd c))) = pending (conn_in c)"
  by (simp_all add: cmd_helo_def cmd_ehlo_def cmd_unfold split: option.splits)

lemma cmd_proxies_reads [cmd_reads]:
  "pending (conn_in (snd (cmd_xclient p cmd c))) = pending (conn_in c)"
  "pending (conn_in (snd (cmd_proxy s p cmd c))) = pending (conn_in c)"
  by (simp_all add: cmd_xclient_def cmd_proxy_def cmd_unfold split: option.splits)

lemma cmd_mail_reads [cmd_reads]: "pending (conn_in (snd (cmd_mail p cmd c))) = pending (conn_in c)"
  by (auto simp: cmd_mail_def cmd_unfold split: option.splits prod.splits sum.splits)

lemma cmd_rcpt_reads [cmd_reads]: "pending (conn_in (snd (cmd_rcpt s p cmd c))) = pending (conn_in c)"
  by (simp add: cmd_rcpt_def cmd_unfold split: option.splits sum.splits)

lemma cmd_others_reads [cmd_reads]:
  "pending (conn_in (snd (cmd_help c))) = pending (conn_in c)"
  "pending (conn_in (snd (cmd_rset p c))) = pending (conn_in c)"
  "pending (conn_in (snd (cmd_vrfy c))) = pending (conn_in c)"
  "pending (conn_in (snd (cmd_noop c))) = pending (conn_in c)"
  "pending (conn_in (snd (cmd_quit c))) = pending (conn_in c)"
  "pending (conn_in (snd (cmd_data c))) = pending (conn_in c)"
  "pending (conn_in (snd (cmd_starttls s c))) = pending (conn_in c)"
  "pending (conn_in (snd (cmd_unrecognized s c))) = pending (conn_in c)"
  by (simp_all add: cmd_help_def cmd_rset_def cmd_vrfy_def cmd_noop_def cmd_quit_def cmd_data_def
      cmd_starttls_def cmd_unrecognized_def cmd_unfold)

lemma dispatch_pending:
  assumes "dispatch s p cmd c = (f, c')"
  shows "pending (conn_in c') = pending (conn_in c)"
proof -
  have "pending (conn_in (snd (dispatch s p cmd c))) = pending (conn_in c)"
    by (simp add: dispatch_def cmd_reads)
  with assms show ?thesis by simp
qed

lemma cmd_turn_measure:
  assumes "conn_inv s c" "\<not> killed c" "state c = ConnCmd" "cmd_turn s p sd c = (Go_on, c')"
  shows "conn_measure c' < conn_measure c"
proof -
  obtain res c1 where rc: "readCommand c = (res, c1)" by (metis prod.exhaust)
  from assms(4) rc obtain cmd where res: "res = Inr cmd"
    by (cases res) (auto simp: cmd_turn_def split: ioerr.splits)
  have p: "pending (conn_in c1) < pending (conn_in c)"
    using readCommand_frame(5) [OF assms(1) rc res] .
  have "pending (conn_in c') = pending (conn_in c1)"
    using assms(4) rc res dispatch_pending by (auto simp: cmd_turn_def split: if_splits)
  with p show ?thesis using assms(2,3) by (simp add: conn_measure_line)
qed

lemma read_data_pending:
  assumes "conn_inv s c" "read_data c = (e, c')"
  shows "pending (conn_in c') \<le> pending (conn_in c)"
  using assms dot_read_pending [of "conn_in c" BeginLine]
  by (auto simp: read_data_def ReadDot_def conn_inv_def reader_ok_def split: prod.splits)

lemma data_turn_measure:
  assumes "conn_inv s c" "\<not> killed c" "state c = ConnData" "data_turn s p sd c = (Go_on, c')"
  shows "conn_measure c' < conn_measure c"
proof -
  obtain e c1 where rd: "read_data c = (e, c1)" by (metis prod.exhaust)
  note p = read_data_pending [OF assms(1) rd]
  show ?thesis
  proof (cases e)
    case None
    with assms(4) rd have "deliver s p sd c1 = (Go_on, c')" by (simp add: data_turn_def)
    from deliver_Go_on [OF this] p assms(2,3) show ?thesis by (auto simp: conn_measure_def)
  next
    case (Some x)
    with assms(4) rd have "killed c'" by (auto simp: data_turn_def split: ioerr.splits)
    then show ?thesis using assms(2) by (simp add: conn_measure_def)
  qed
qed

lemma starttls_turn_measure:
  assumes "handshake_consumes p" "\<not> killed c" "state c = ConnStartTLS"
    and "starttls_turn s p c = (Go_on, c')"
  shows "conn_measure c' < conn_measure c"
proof -
  obtain e c1 where up: "upgradeTLS p c = (e, c1)" by (metis prod.exhaust)
  have h: "raw_size (snd (Handshake p (conn_raw (conn_in c)))) \<le> raw_size (conn_raw (conn_in c))"
    using assms(1) by (simp add: handshake_consumes_def)
  have c1: "pending (conn_in c1) \<le> pending (conn_in c) \<and> killed c1 = killed c"
  proof (cases e)
    case None
    from upgradeTLS_cases(1) [OF up [unfolded None]] h show ?thesis by (simp add: pending_def NewSMTPReader_def)
  next
    case (Some x)
    from h show ?thesis
      unfolding upgradeTLS_cases(2) [OF up [unfolded Some]] by (simp add: pending_def)
  qed
  have "pending (conn_in c') \<le> pending (conn_in c) \<and> killed c' = killed c \<and> state c' = ConnCmd"
    using assms(4) up c1 by (cases e) (auto simp: starttls_turn_def split: if_splits)
  then show ?thesis using assms(2,3) by (simp add: conn_measure_def)
qed

lemma turn_measure:
  assumes "handshake_consumes p" "conn_inv s c" "turn s p sd c = (Go_on, c')"
  shows "conn_measure c' < conn_measure c"
proof -
  have a: "\<not> killed c" using assms(3) by (auto simp: turn_def isAlive_def split: if_splits)
  show ?thesis
  proof (cases "state c")
    case ConnGreeting
    with assms(3) a show ?thesis
      by (auto simp: turn_def greeting_turn_def conn_measure_def split: if_splits)
  next
    case ConnCmd
    with assms a show ?thesis by (auto simp: turn_def intro: cmd_turn_measure split: if_splits)
  next
    case ConnData
    with assms a show ?thesis by (auto simp: turn_def intro: data_turn_measure split: if_splits)
  next
    case ConnStartTLS
    with assms a show ?thesis by (auto simp: turn_def intro: starttls_turn_measure split: if_splits)
  next
    case ConnShutdown
    with assms(3) a show ?thesis
      by (auto simp: turn_def shutdown_turn_def conn_measure_def split: if_splits)
  qed
qed

section \<open>The loop ends\<close>

lemma serve_ends:
  "handshake_consumes p \<Longrightarrow> conn_inv s c \<Longrightarrow> conn_measure c < n \<Longrightarrow>
     \<exists>f c'. serve n s p sd k c = Some (f, c') \<and> f \<noteq> Go_on"
proof (induction n arbitrary: k c)
  case (Suc n)
  obtain f c1 where t: "turn s p (sd k) c = (f, c1)" by (metis prod.exhaust)
  show ?case
  proof (cases f)
    case Go_on
    with t have t: "turn s p (sd k) c = (Go_on, c1)" by simp
    from turn_measure [OF Suc.prems(1,2) t] Suc.prems(3) have "conn_measure c1 < n" by simp
    from Suc.IH [OF Suc.prems(1) turn_inv [OF Suc.prems(2) t] this] t show ?thesis by simp
  qed (use t in auto)
qed simp

lemma serve_mono: "serve n s p sd k c = Some x \<Longrightarrow> serve (n + m) s p sd k c = Some x"
  by (induction n arbitrary: k c) (auto split: prod.splits flow.splits)

lemma start_conn_measure:
  assumes "handshake_consumes p"
    "start_conn s p (newConnection p raw ws ra (MaxSize s) cid) = (True, c)"
  shows "conn_measure c \<le> 3 * raw_size raw + 3"
proof -
  have h: "raw_size (snd (Handshake p raw)) \<le> raw_size raw"
    using assms(1) by (simp add: handshake_consumes_def)
  show ?thesis using assms(2) h
    by (auto simp: start_conn_def upgradeTLS_def newConnection_def conn_measure_def pending_def
        NewSMTPReader_def split: if_splits prod.splits option.splits)
qed

lemma handleConn_ends:
  assumes "handshake_consumes p" "3 * raw_size raw + 3 < n"
  shows "\<exists>f c. handleConn n s p sd (newConnection p raw ws ra (MaxSize s) cid) = Some (f, c)
    \<and> f \<noteq> Go_on \<and> conn_closed c
    \<and> (\<forall>m. handleConn (n + m) s p sd (newConnection p raw ws ra (MaxSize s) cid) = Some (f, c))"
proof -
  obtain b c1 where st: "start_conn s p (newConnection p raw ws ra (MaxSize s) cid) = (b, c1)"
    by (metis prod.exhaust)
  show ?thesis
  proof (cases b)
    case False
    with st show ?thesis by (auto simp: handleConn_def closeConn_def)
  next
    case True
    then have "conn_init s c1" unfolding conn_init_def using st by (metis (full_types))
    then have inv: "conn_inv s c1" by (simp add: conn_init_inv)
    have "conn_measure c1 < n" using start_conn_measure [OF assms(1)] st True assms(2) by fastforce
    from serve_ends [OF assms(1) inv this] obtain f c' where
      "serve n s p sd 0 c1 = Some (f, c')" "f \<noteq> Go_on" by blast
    with st True serve_mono show ?thesis by (auto simp: handleConn_def closeConn_def)
  qed
qed

text \<open>
  C2: handleConn ends on every connection: whatever the client sends, in whatever chunks, whether
  or not writes fail, the server shuts down or a handler panics, it returns (or unwinds with the
  panic) after at most three turns per byte and chunk boundary of the input, and the connection is
  closed then. More turns make no difference. It relies on a TLS handshake not adding bytes to the
  connection.
\<close>

theorem handleConn_terminates:
  assumes "handshake_consumes p" "3 * raw_size raw + 3 < n"
  shows "\<exists>f c. handleConn n s p sd (newConnection p raw ws ra (MaxSize s) cid) = Some (f, c)
    \<and> f \<noteq> Go_on \<and> conn_closed c
    \<and> (\<forall>m. handleConn (n + m) s p sd (newConnection p raw ws ra (MaxSize s) cid) = Some (f, c))"
  by (rule handleConn_ends [OF assms])

text \<open>A platform for concrete inputs: every address and IP number parses, a handshake fails.\<close>

definition plain_platform :: platform where
  "plain_platform = \<lparr>ParseAddress = (\<lambda>a. Inr \<lparr>addr_Name = [], addr_Address = a\<rparr>), ParseIP = Some,
     Handshake = (\<lambda>raw. (Some ''no TLS'', raw)), XID = show_nat, Now = ''now''\<rparr>"

definition plain_server :: server where
  "plain_server = \<lparr>has_Logger = True, Middlewares = [], Handler = Some NoopBackend, TLSConfig = False,
     TLSAlwaysOn = False, Hostname = ''mx'', Addr = defaultInterface, MaxSize = defaultMaxSize,
     ServerTimeout = defaultTimeout, MaxClients = defaultMaxClients, XClientOn = False,
     ProxyOn = False, MaxRecipients = defaultMaxRecipients,
     MaxUnrecognizedCommands = defaultMaxUnrecognizedCommands, has_closedListener = True\<rparr>"

lemma plain_handshake: "handshake_consumes plain_platform"
  by (simp add: handshake_consumes_def plain_platform_def)

theorem handleConn_terminates_witness:
  "\<exists>f c. handleConn 40 plain_server plain_platform (\<lambda>k. False)
      (newConnection plain_platform \<lparr>chunks = [''NO'', ''OP'', [LF]], raw_end = EOF\<rparr> [] (PeerAddr ''::1'')
        (MaxSize plain_server) 1) = Some (f, c) \<and> f \<noteq> Go_on \<and> conn_closed c"
proof -
  have "3 * raw_size \<lparr>chunks = [''NO'', ''OP'', [LF]], raw_end = EOF\<rparr> + 3 < 40"
    by (simp add: raw_size_def)
  from handleConn_terminates [OF plain_handshake this] show ?thesis by blast
qed

end
