(* ===== verification/Session_Correct.thy ===== *)
theory Session_Correct imports Session_Termination begin

text \<open>
  What a client and a handler can rely on: one reply per command, and the bounds on what a
  handler is given.
\<close>

section \<open>One reply per command\<close>

text \<open>A reply begins with its three digits.\<close>

definition coded :: "string \<Rightarrow> bool" where
  "coded r \<longleftrightarrow> 3 \<le> length r \<and> list_all is_digit (take 3 r)"

definition one_reply :: "connection \<Rightarrow> flow \<times> connection \<Rightarrow> bool" where
  "one_reply c x \<longleftrightarrow> (\<exists>r. coded r \<and> sent (snd x) = sent c @ [r @ crlf])"

lemma canned_coded: "list_all (\<lambda>r. coded (Response_String (Canned r))) canned_responses"
  by code_simp

lemma coded_canned [simp]: "r \<in> set canned_responses \<Longrightarrow> coded (fst (response_String r))"
  using canned_coded by (simp add: list_all_iff)

lemma coded_texts [simp]:
  "coded (''220 '' @ t)" "coded (''250 '' @ t)" "coded (''250-'' @ t)" "coded (''214-'' @ t)"
  by (simp_all add: coded_def is_digit_def)

lemma coded_items [simp]:
  "coded (greeting s p c @ t)" "coded (helo_reply s @ t)"
  "coded (concat (map item_text (ehlo_reply s c)))" "coded (concat (map item_text help_reply))"
  unfolding greeting_def helo_reply_def ehlo_reply_def help_reply_def
  by (simp_all add: coded_def is_digit_def)

named_theorems one_replies "every command is answered by one reply"

lemmas reply_simps = one_reply_def cmd_unfold match_content canned_responses_def

lemma cmd_helo_reply [one_replies]:
  "write_fails c = [] \<Longrightarrow> cmd_match cmdHELO cmd \<Longrightarrow> one_reply c (cmd_helo s p cmd c)"
  using coded_items(2) [of s "[]"] by (simp add: cmd_helo_def reply_simps)

lemma cmd_ehlo_reply [one_replies]:
  "write_fails c = [] \<Longrightarrow> cmd_match cmdEHLO cmd \<Longrightarrow> one_reply c (cmd_ehlo s p cmd c)"
proof -
  assume w: "write_fails c = []" and m: "cmd_match cmdEHLO cmd"
  have "length cmdHELO = length cmdEHLO" by (simp add: cmdHELO_def cmdEHLO_def)
  with match_content [OF m] have "content cmdHELO cmd = Some (trim_space (drop (length cmdEHLO) cmd))"
    by (simp add: content_def split: if_splits)
  with w show ?thesis by (simp add: cmd_ehlo_def reply_simps)
qed

lemma cmd_help_reply [one_replies]: "write_fails c = [] \<Longrightarrow> one_reply c (cmd_help c)"
  by (simp add: cmd_help_def reply_simps)

lemma cmd_xclient_reply [one_replies]:
  "write_fails c = [] \<Longrightarrow> cmd_match cmdXCLIENT cmd \<Longrightarrow> one_reply c (cmd_xclient p cmd c)"
  by (simp add: cmd_xclient_def reply_simps)

lemma cmd_proxy_reply [one_replies]:
  "write_fails c = [] \<Longrightarrow> cmd_match cmdPROXY cmd \<Longrightarrow> one_reply c (cmd_proxy s p cmd c)"
  using coded_items(1) [where t = "[]"] by (simp add: cmd_proxy_def reply_simps)

lemma cmd_mail_reply [one_replies]:
  "write_fails c = [] \<Longrightarrow> cmd_match cmdMAIL cmd \<Longrightarrow> one_reply c (cmd_mail p cmd c)"
  by (simp add: cmd_mail_def reply_simps split: prod.splits sum.splits)

lemma cmd_rcpt_reply [one_replies]:
  "write_fails c = [] \<Longrightarrow> cmd_match cmdRCPT cmd \<Longrightarrow> one_reply c (cmd_rcpt s p cmd c)"
  by (simp add: cmd_rcpt_def reply_simps split: sum.splits)

lemma cmd_others_reply [one_replies]:
  assumes "write_fails c = []"
  shows "one_reply c (cmd_rset p c)" "one_reply c (cmd_vrfy c)" "one_reply c (cmd_noop c)"
    "one_reply c (cmd_quit c)" "one_reply c (cmd_data c)" "one_reply c (cmd_starttls s c)"
    "one_reply c (cmd_unrecognized s c)"
  using assms by (simp_all add: cmd_rset_def cmd_vrfy_def cmd_noop_def cmd_quit_def cmd_data_def
      cmd_starttls_def cmd_unrecognized_def reply_simps kill_def)

lemma dispatch_reply: "write_fails c = [] \<Longrightarrow> one_reply c (dispatch s p cmd c)"
  unfolding dispatch_def by (simp add: one_replies)

text \<open>No command panics.\<close>

lemma with_content_no_crash:
  "cmd_match k cmd \<Longrightarrow> (\<And>ct. fst (f ct) \<noteq> Crash r) \<Longrightarrow> fst (with_content k cmd c f) \<noteq> Crash r"
  by (simp add: with_content_def match_content)

lemma dispatch_no_crash: "fst (dispatch s p cmd c) \<noteq> Crash r"
proof -
  have ehlo: "cmd_match cmdEHLO cmd \<Longrightarrow> fst (cmd_ehlo s p cmd c) \<noteq> Crash r"
  proof -
    assume m: "cmd_match cmdEHLO cmd"
    have "length cmdHELO = length cmdEHLO" by (simp add: cmdHELO_def cmdEHLO_def)
    with match_content [OF m] show ?thesis
      by (simp add: cmd_ehlo_def cmd_unfold content_def split: if_splits)
  qed
  show ?thesis
    unfolding dispatch_def
    by (simp add: ehlo cmd_helo_def cmd_help_def cmd_xclient_def cmd_proxy_def cmd_mail_def
        cmd_rcpt_def cmd_rset_def cmd_vrfy_def cmd_noop_def cmd_quit_def cmd_data_def
        cmd_starttls_def cmd_unrecognized_def with_content_no_crash Let_def
        split: prod.splits sum.splits)
qed

lemma readCommand_frame_fields:
  assumes "readCommand c = (res, c1)"
  shows "sent c1 = sent c" "write_fails c1 = write_fails c" "Env c1 = Env c" "state c1 = state c"
    "killed c1 = killed c" "bufErr c1 = bufErr c"
  by (subst readCommand_fields(1) [OF assms], simp)+

text \<open>
  C12: Every command line is answered by exactly one reply, whichever command it is, recognised or
  not and whether it succeeds: the turn that reads the line writes one reply, which begins with
  three digits and ends with CRLF, and no line makes the connection panic. (The server is not
  shutting down and the client accepts what is written.)
\<close>

theorem one_reply_per_command:
  assumes "state c = ConnCmd" "\<not> killed c" "\<not> bufErr c" "write_fails c = []"
    and "readCommand c = (Inr cmd, c1)"
  shows "\<exists>r f c'. turn s p False c = (f, c') \<and> f \<in> {Go_on, Return} \<and> coded r
    \<and> sent c' = sent c @ [r @ crlf]"
proof -
  have t: "turn s p False c = dispatch s p cmd c1"
    using assms by (simp add: turn_def isAlive_def cmd_turn_def)
  have c1: "sent c1 = sent c" "write_fails c1 = []"
    using readCommand_frame_fields [OF assms(5)] assms(4) by simp_all
  obtain f c' where d: "dispatch s p cmd c1 = (f, c')" by (metis prod.exhaust)
  from d dispatch_no_crash [of s p cmd c1] have "f \<in> {Go_on, Return}"
    by (cases f) (auto simp: fst_def)
  moreover have "\<exists>r. coded r \<and> sent c' = sent c @ [r @ crlf]"
    using dispatch_reply [OF c1(2), of s p cmd] c1(1) d by (simp add: one_reply_def)
  ultimately show ?thesis using t d by auto
qed

text \<open>A session for concrete inputs, and the connection after some of its turns.\<close>

definition w_on :: "server \<Rightarrow> platform \<Rightarrow> string list \<Rightarrow> connection" where
  "w_on s p ls = snd (start_conn s p
     (newConnection p \<lparr>chunks = map (\<lambda>l. l @ crlf) ls, raw_end = EOF\<rparr> []
       (PeerAddr ''192.0.2.1:4000'') (MaxSize s) 7))"

abbreviation w_conn :: "string list \<Rightarrow> connection" where
  "w_conn \<equiv> w_on plain_server plain_platform"

lemma w_on_init: "\<not> (TLSAlwaysOn s \<and> TLSConfig s) \<Longrightarrow> conn_init s (w_on s p ls)"
proof -
  assume "\<not> (TLSAlwaysOn s \<and> TLSConfig s)"
  then have "start_conn s p (newConnection p \<lparr>chunks = map (\<lambda>l. l @ crlf) ls, raw_end = EOF\<rparr> []
     (PeerAddr ''192.0.2.1:4000'') (MaxSize s) 7) = (True, w_on s p ls)"
    by (auto simp: w_on_def start_conn_def)
  then show ?thesis unfolding conn_init_def by blast
qed

fun go_turns :: "nat \<Rightarrow> server \<Rightarrow> platform \<Rightarrow> connection \<Rightarrow> connection option" where
  "go_turns 0 s p c = Some c"
| "go_turns (Suc n) s p c =
     (case turn s p False c of (Go_on, c') \<Rightarrow> go_turns n s p c' | _ \<Rightarrow> None)"

lemma go_turns_run: "go_turns n s p c = Some c' \<Longrightarrow> run_of (loop_step s) c c'"
proof (induction n arbitrary: c)
  case (Suc n)
  then obtain c1 where "turn s p False c = (Go_on, c1)" "go_turns n s p c1 = Some c'"
    by (auto split: prod.splits flow.splits)
  moreover from this have "loop_step s c c1" unfolding loop_step_def by blast
  ultimately show ?case using Suc.IH by (auto intro: run_of_trans run_of_one)
qed (simp add: run_of.intros)

abbreviation w_go :: "nat \<Rightarrow> string list \<Rightarrow> (connection \<Rightarrow> bool) \<Rightarrow> bool" where
  "w_go n ls Q \<equiv> (case go_turns n plain_server plain_platform (w_conn ls) of None \<Rightarrow> False | Some c \<Rightarrow> Q c)"

theorem one_reply_per_command_witness:
  "\<exists>c c1. readCommand c = (Inr ''hello?'', c1) \<and> (\<exists>r f c'. turn plain_server plain_platform False c = (f, c')
     \<and> f \<in> {Go_on, Return} \<and> coded r \<and> sent c' = sent c @ [r @ crlf])"
proof -
  have "w_go 1 [''hello?''] (\<lambda>c. state c = ConnCmd \<and> \<not> killed c \<and> \<not> bufErr c \<and> write_fails c = []
      \<and> fst (readCommand c) = Inr ''hello?'')" by code_simp
  then obtain c where c: "state c = ConnCmd" "\<not> killed c" "\<not> bufErr c" "write_fails c = []"
      "readCommand c = (Inr ''hello?'', snd (readCommand c))"
    by (auto split: option.splits) (metis prod.collapse)
  from one_reply_per_command [OF c] c(5) show ?thesis by blast
qed

section \<open>What a handler is given\<close>

lemma avail_bound:
  assumes "reader_ok s r"
  shows "length (avail r) \<le> bufsize + nat (MaxSize s)"
proof -
  have "length (take (nat (limit_N r)) (concat (chunks (conn_raw r)))) \<le> nat (MaxSize s)"
    using assms nat_mono [of "limit_N r" "MaxSize s"] by (simp add: reader_ok_def min_le_iff_disj)
  then show ?thesis using assms by (simp add: avail_def reader_ok_def)
qed

text \<open>
  C9: In every reachable connection that has read a DATA section to its end, the envelope the
  chain is called with has at least one recipient and at most MaxRecipients + 1 of them, and a
  message of at most MaxSize bytes plus the 4096 bytes the buffer may have read ahead.
\<close>

theorem delivery_bounds:
  assumes "conn_init s c0" "run_of (loop_step s) c0 c" "state c = ConnData" "\<not> killed c"
    and "read_data c = (None, c1)"
  shows "1 \<le> length (RcptTo (Env c1)) \<and> length (RcptTo (Env c1)) \<le> nat (MaxRecipients s + 1)
    \<and> length (data_Bytes (Data (Env c1))) \<le> 4096 + nat (MaxSize s)"
proof -
  have inv: "conn_inv s c" using session.reachable_inv [OF assms(1,2)] .
  then have "length (avail (conn_in c)) \<le> 4096 + nat (MaxSize s)"
    using avail_bound [of s "conn_in c"] by (simp add: conn_inv_def bufsize_def)
  moreover have "Data (Env c) = empty_data" using inv assms(4) by (simp add: conn_inv_def)
  moreover have "RcptTo (Env c) \<noteq> []" "length (RcptTo (Env c)) \<le> nat (MaxRecipients s + 1)"
    using inv assms(3) by (simp_all add: conn_inv_def)
  ultimately show ?thesis using read_data_frame(3,5) [OF inv assms(5)]
    by (simp add: message.bytes_none Suc_le_eq)
qed

lemma w_conn_init: "conn_init plain_server (w_conn ls)"
  by (rule w_on_init) (simp add: plain_server_def)

theorem delivery_bounds_witness:
  "\<exists>c c1. read_data c = (None, c1) \<and> map addr_Address (RcptTo (Env c1)) = [''<a@b>'']
    \<and> data_Bytes (Data (Env c1)) = ''.x'' @ [LF]
    \<and> length (RcptTo (Env c1)) \<le> nat (MaxRecipients plain_server + 1)"
proof -
  let ?ls = "[''RCPT TO:<a@b>'', ''DATA'', ''..x'', ''.'']"
  have "w_go 3 ?ls (\<lambda>c. state c = ConnData \<and> \<not> killed c \<and>
     (case read_data c of (e, c1) \<Rightarrow> e = None \<and> map addr_Address (RcptTo (Env c1)) = [''<a@b>'']
        \<and> data_Bytes (Data (Env c1)) = ''.x'' @ [LF]))" by code_simp
  then obtain c c1 where c: "go_turns 3 plain_server plain_platform (w_conn ?ls) = Some c"
      "state c = ConnData" "\<not> killed c" "read_data c = (None, c1)"
      "map addr_Address (RcptTo (Env c1)) = [''<a@b>'']" "data_Bytes (Data (Env c1)) = ''.x'' @ [LF]"
    by (auto split: option.splits prod.splits)
  have "length (RcptTo (Env c1)) \<le> nat (MaxRecipients plain_server + 1)"
    using delivery_bounds [OF w_conn_init go_turns_run [OF c(1)] c(2-4)] by (rule conjunct1 [OF conjunct2])
  with c(4-6) show ?thesis by (intro exI [of _ c] exI [of _ c1] conjI)
qed

end
