(* ===== verification/Session_Delivery.thy ===== *)
theory Session_Delivery imports Session_Correct begin

text \<open>
  A whole transaction from end to end: the lines of a client that sends a message, however they
  are cut into chunks and pipelined, and the envelope the handlers are called with.
\<close>

section \<open>Lines\<close>

definition ready :: "server \<Rightarrow> connection \<Rightarrow> bool" where
  "ready s c \<longleftrightarrow> state c = ConnCmd \<and> \<not> killed c \<and> \<not> bufErr c \<and> write_fails c = [] \<and>
     reader_ok s (conn_in c)"

lemma to_upper_Cons [simp]:
  "x \<noteq> CHR 0xC4 \<Longrightarrow> x \<noteq> CHR 0xC5 \<Longrightarrow> to_upper (x # s) = upper_char x # to_upper s"
  by (cases s) auto

lemma turn_line:
  assumes "ready s c" "avail (conn_in c) = l @ crlf @ rest" "LF \<notin> set l"
  shows "\<exists>r. avail r = rest \<and> reader_ok s r \<and>
    turn s p False c = dispatch s p l (c\<lparr>conn_in := r\<rparr>)"
proof -
  have ok: "settled (conn_in c)" "length (buffered (conn_in c)) \<le> bufsize"
    "reader_ok s (conn_in c)"
    using assms(1) by (auto simp: ready_def reader_ok_def)
  have "avail (conn_in c) = (l @ [CR]) @ LF # rest" "LF \<notin> set (l @ [CR])"
    using assms(2,3) by simp_all
  from ReadLine_line [OF ok(1,2) this] obtain r where
    r: "ReadLine (conn_in c) = (Inr l, r)" "avail r = rest" "read_frame (conn_in c) r"
    by auto
  have "readCommand c = (Inr l, c\<lparr>conn_in := r\<rparr>)" using r(1) by (simp add: readCommand_def)
  then have "turn s p False c = dispatch s p l (c\<lparr>conn_in := r\<rparr>)"
    using assms(1) by (simp add: turn_def isAlive_def ready_def cmd_turn_def)
  with r reader_ok_frame [OF ok(3) r(3)] show ?thesis by blast
qed

definition clean :: "string \<Rightarrow> bool" where
  "clean x \<longleftrightarrow> trim_space x = x \<and> LF \<notin> set x"

lemmas match_simps = cmd_match_def cmd_defs upper_char_def is_lower_def

lemma dispatch_mail:
  assumes "clean a" "CHR '' '' \<notin> set a" "\<not> isInTransaction c" "ParseAddress p a = Inr adr"
  shows "dispatch s p (''MAIL FROM:'' @ a) c =
    (Go_on, reply SuccessMailCmd (set_env (\<lambda>e. e\<lparr>MailFrom := Some adr\<rparr>) c))"
proof -
  have "dispatch s p (''MAIL FROM:'' @ a) c = cmd_mail p (''MAIL FROM:'' @ a) c"
    by (simp add: dispatch_def match_simps)
  moreover have "content cmdMAIL (''MAIL FROM:'' @ a) = Some a"
    using assms(1) by (simp add: content_def cmdMAIL_def clean_def)
  ultimately show ?thesis using assms
    by (simp add: cmd_mail_def with_content_def go_cut_char_absent CharsetUtf8_def)
qed

lemma dispatch_rcpt:
  assumes "clean a" "int (length (RcptTo (Env c))) \<le> MaxRecipients s" "ParseAddress p a = Inr adr"
  shows "dispatch s p (''RCPT TO:'' @ a) c =
    (Go_on, reply SuccessRcptCmd (set_env (\<lambda>e. e\<lparr>RcptTo := RcptTo e @ [adr]\<rparr>) c))"
proof -
  have "dispatch s p (''RCPT TO:'' @ a) c = cmd_rcpt s p (''RCPT TO:'' @ a) c"
    by (simp add: dispatch_def match_simps)
  moreover have "content cmdRCPT (''RCPT TO:'' @ a) = Some a"
    using assms(1) by (simp add: content_def cmdRCPT_def clean_def)
  ultimately show ?thesis using assms by (simp add: cmd_rcpt_def with_content_def)
qed

lemma dispatch_data:
  "RcptTo (Env c) \<noteq> [] \<Longrightarrow>
    dispatch s p ''DATA'' c = (Go_on, (reply SuccessDataCmd c)\<lparr>state := ConnData\<rparr>)"
  by (simp add: dispatch_def match_simps cmd_data_def)

section \<open>The envelope\<close>

definition client_lines :: "string \<Rightarrow> string list \<Rightarrow> string list \<Rightarrow> string" where
  "client_lines a rs ls = ''MAIL FROM:'' @ a @ crlf @ concat (map (\<lambda>r. ''RCPT TO:'' @ r @ crlf) rs) @
     ''DATA'' @ crlf @ stuff ls"

definition reply_line :: "response \<Rightarrow> string" where
  "reply_line r = Response_String (Canned r) @ crlf"

lemma serve_rcpts:
  assumes "ready s c" "avail (conn_in c) = concat (map (\<lambda>r. ''RCPT TO:'' @ r @ crlf) rs) @ rest"
    and "list_all clean rs" "map (ParseAddress p) rs = map Inr to"
    and "int (length (RcptTo (Env c)) + length rs) \<le> MaxRecipients s + 1"
  shows "\<exists>r. avail r = rest \<and> reader_ok s r \<and> (\<forall>n. serve (n + length rs) s p (\<lambda>_. False) k c =
    serve n s p (\<lambda>_. False) (k + length rs)
      (c\<lparr>Env := (Env c)\<lparr>RcptTo := RcptTo (Env c) @ to\<rparr>, conn_in := r,
         sent := sent c @ replicate (length rs) (reply_line SuccessRcptCmd)\<rparr>))"
  using assms
proof (induction rs arbitrary: c to k)
  case Nil
  have "c\<lparr>Env := (Env c)\<lparr>RcptTo := RcptTo (Env c)\<rparr>, conn_in := conn_in c, sent := sent c\<rparr> = c" by simp
  with Nil show ?case by (intro exI [of _ "conn_in c"]) (simp add: ready_def)
next
  case (Cons a rs)
  from Cons.prems(4) obtain adr to' where to: "to = adr # to'" "ParseAddress p a = Inr adr"
    "map (ParseAddress p) rs = map Inr to'" by (cases to) auto
  have cl: "clean a" "LF \<notin> set (''RCPT TO:'' @ a)" using Cons.prems(3) by (simp_all add: clean_def)
  let ?rest = "concat (map (\<lambda>r. ''RCPT TO:'' @ r @ crlf) rs) @ rest"
  have "avail (conn_in c) = (''RCPT TO:'' @ a) @ crlf @ ?rest" using Cons.prems(2) by simp
  from turn_line [OF Cons.prems(1) this cl(2)] obtain r1 where r1: "avail r1 = ?rest" "reader_ok s r1"
    "turn s p False c = dispatch s p (''RCPT TO:'' @ a) (c\<lparr>conn_in := r1\<rparr>)" by blast
  let ?c = "reply SuccessRcptCmd (set_env (\<lambda>e. e\<lparr>RcptTo := RcptTo e @ [adr]\<rparr>) (c\<lparr>conn_in := r1\<rparr>))"
  have t: "turn s p False c = (Go_on, ?c)"
    using dispatch_rcpt [OF cl(1), of "c\<lparr>conn_in := r1\<rparr>" s p adr] to Cons.prems(5) r1(3) by simp
  have c: "?c = c\<lparr>Env := (Env c)\<lparr>RcptTo := RcptTo (Env c) @ [adr]\<rparr>, conn_in := r1,
      sent := sent c @ [reply_line SuccessRcptCmd]\<rparr>"
    using Cons.prems(1) by (simp add: ready_def sendResponse_def set_env_def reply_line_def commandSuffix_def)
  have "\<exists>r. avail r = rest \<and> reader_ok s r \<and> (\<forall>n. serve (n + length rs) s p (\<lambda>_. False) (Suc k) ?c =
    serve n s p (\<lambda>_. False) (Suc k + length rs)
      (?c\<lparr>Env := (Env ?c)\<lparr>RcptTo := RcptTo (Env ?c) @ to'\<rparr>, conn_in := r,
         sent := sent ?c @ replicate (length rs) (reply_line SuccessRcptCmd)\<rparr>))"
    using Cons.prems r1 to by (intro Cons.IH) (simp_all add: c ready_def)
  with t show ?case by (simp add: c to replicate_append_same)
qed

lemma serve_mail:
  assumes "ready s c" "avail (conn_in c) = ''MAIL FROM:'' @ a @ crlf @ rest"
    and "clean a" "CHR '' '' \<notin> set a" "\<not> isInTransaction c" "ParseAddress p a = Inr adr"
  shows "\<exists>r. avail r = rest \<and> reader_ok s r \<and> turn s p False c =
    (Go_on, c\<lparr>Env := (Env c)\<lparr>MailFrom := Some adr\<rparr>, conn_in := r,
       sent := sent c @ [reply_line SuccessMailCmd]\<rparr>)"
proof -
  have "avail (conn_in c) = (''MAIL FROM:'' @ a) @ crlf @ rest" "LF \<notin> set (''MAIL FROM:'' @ a)"
    using assms(2,3) by (simp_all add: clean_def)
  from turn_line [OF assms(1) this] obtain r where r: "avail r = rest" "reader_ok s r"
    "turn s p False c = dispatch s p (''MAIL FROM:'' @ a) (c\<lparr>conn_in := r\<rparr>)" by blast
  have "\<not> isInTransaction (c\<lparr>conn_in := r\<rparr>)" using assms(5) by (simp add: isInTransaction_def)
  from dispatch_mail [OF assms(3,4) this assms(6)] r assms(1) show ?thesis
    by (auto simp: ready_def sendResponse_def set_env_def reply_line_def commandSuffix_def)
qed

lemma serve_data:
  assumes "ready s c" "avail (conn_in c) = ''DATA'' @ crlf @ stuff ls @ rest" "RcptTo (Env c) \<noteq> []"
    and "\<And>l. l \<in> set ls \<Longrightarrow> LF \<notin> set l"
  shows "\<exists>r r'. reader_ok s r' \<and> avail r' = rest
    \<and> turn s p False c = (Go_on, c\<lparr>conn_in := r, sent := sent c @ [reply_line SuccessDataCmd],
         state := ConnData\<rparr>)
    \<and> ReadDot r = ((lf_lines ls, None), r')"
proof -
  have "LF \<notin> set ''DATA''" by simp
  from turn_line [OF assms(1,2) this] obtain r where r: "avail r = stuff ls @ rest" "reader_ok s r"
    "turn s p False c = dispatch s p ''DATA'' (c\<lparr>conn_in := r\<rparr>)" by blast
  from r(2) have "settled r" "length (buffered r) \<le> bufsize" by (auto simp: reader_ok_def)
  from ReadDot_stuff [OF this r(1) assms(4)] obtain r' where r': "ReadDot r = ((lf_lines ls, None), r')"
    "avail r' = rest" "read_frame r r'" by blast
  have "turn s p False c = (Go_on, c\<lparr>conn_in := r, sent := sent c @ [reply_line SuccessDataCmd],
         state := ConnData\<rparr>)"
    using r(3) dispatch_data [of "c\<lparr>conn_in := r\<rparr>" s p] assms(1,3)
    by (simp add: ready_def sendResponse_def reply_line_def commandSuffix_def)
  with r' reader_ok_frame [OF r(2) r'(3)] show ?thesis by blast
qed

text \<open>The turn that reads the message, calls the chain and answers with its response.\<close>

lemma serve_message:
  assumes "\<not> killed c" "\<not> bufErr c" "write_fails c = []" "state c = ConnData" "reader_ok s r'"
    and "ReadDot (conn_in c) = ((msg, None), r')" "Handler s = Some h"
    and "build_chain (Middlewares s) h ((Env c)\<lparr>Data := data_ReadFrom msg (Data (Env c))\<rparr>) =
      (Returned (Some res), e')"
  shows "\<exists>c'. turn s p False c = (Go_on, c') \<and> ready s c' \<and> conn_in c' = ResetLimit r'
    \<and> sent c' = sent c @ [item_text (Resp res) @ crlf]
    \<and> MailFrom (Env c') = None \<and> RcptTo (Env c') = [] \<and> data_Bytes (Data (Env c')) = []
    \<and> messagesSent c' = messagesSent c + (if Response_Class res = ClassSuccess then 1 else 0)"
proof -
  let ?c = "(set_env (\<lambda>e. e\<lparr>Data := data_ReadFrom msg (Data e)\<rparr>) c)\<lparr>conn_in := r'\<rparr>"
  have rd: "read_data c = (None, ?c)" using assms(6) by (simp add: read_data_def)
  have t: "turn s p False c = deliver s p False ?c"
    using assms(1,2,4) rd by (simp add: turn_def isAlive_def data_turn_def)
  have "Env ?c = (Env c)\<lparr>Data := data_ReadFrom msg (Data (Env c))\<rparr>" by (simp add: set_env_def)
  with assms(7,8) have "\<exists>c'. deliver s p False ?c = (Go_on, c') \<and> ready s c' \<and> conn_in c' = ResetLimit r'
    \<and> sent c' = sent c @ [item_text (Resp res) @ crlf]
    \<and> MailFrom (Env c') = None \<and> RcptTo (Env c') = [] \<and> data_Bytes (Data (Env c')) = []
    \<and> messagesSent c' = messagesSent c + (if Response_Class res = ClassSuccess then 1 else 0)"
    using assms(1-5)
    by (simp add: deliver_def Let_def ready_def message.bytes_none add_error_def set_env_def)
  with t show ?thesis by simp
qed

lemma ResetLimit_more:
  "limit_N r \<le> rd_n r \<Longrightarrow> \<exists>more. avail (ResetLimit r) = avail r @ more"
proof -
  assume "limit_N r \<le> rd_n r"
  then have "nat (limit_N r) \<le> nat (rd_n r)" by simp
  then obtain k where "nat (rd_n r) = nat (limit_N r) + k" using le_Suc_ex by blast
  then show ?thesis by (simp add: avail_def ResetLimit_def take_add)
qed

text \<open>The commands of a transaction, up to the message.\<close>

lemma serve_dialogue:
  assumes "ready s c" "avail (conn_in c) = client_lines a rs ls @ rest"
    and "MailFrom (Env c) = None" "RcptTo (Env c) = []"
    and "clean a" "CHR '' '' \<notin> set a" "ParseAddress p a = Inr adr"
    and "list_all clean rs" "map (ParseAddress p) rs = map Inr to" "rs \<noteq> []"
    and "int (length rs) \<le> MaxRecipients s + 1" "\<And>l. l \<in> set ls \<Longrightarrow> LF \<notin> set l"
  shows "\<exists>r3 r4. reader_ok s r4 \<and> avail r4 = rest \<and> ReadDot r3 = ((lf_lines ls, None), r4) \<and>
    (\<forall>n. serve (n + length rs + 2) s p (\<lambda>_. False) k c =
       serve n s p (\<lambda>_. False) (k + length rs + 2)
         (c\<lparr>Env := (Env c)\<lparr>MailFrom := Some adr, RcptTo := to\<rparr>, conn_in := r3,
            sent := sent c @ [reply_line SuccessMailCmd] @ replicate (length rs) (reply_line SuccessRcptCmd)
              @ [reply_line SuccessDataCmd], state := ConnData\<rparr>))"
proof -
  let ?rcpts = "concat (map (\<lambda>r. ''RCPT TO:'' @ r @ crlf) rs)"
  let ?data = "''DATA'' @ crlf @ stuff ls @ rest"
  have "\<not> isInTransaction c" using assms(3) by (simp add: isInTransaction_def)
  then obtain r1 where r1: "avail r1 = ?rcpts @ ?data" "reader_ok s r1"
    and t1: "turn s p False c = (Go_on, c\<lparr>Env := (Env c)\<lparr>MailFrom := Some adr\<rparr>, conn_in := r1,
       sent := sent c @ [reply_line SuccessMailCmd]\<rparr>)"
    using serve_mail [OF assms(1) _ assms(5,6) _ assms(7), of "?rcpts @ ?data"] assms(2)
    by (auto simp: client_lines_def)
  define c1 where "c1 = c\<lparr>Env := (Env c)\<lparr>MailFrom := Some adr\<rparr>, conn_in := r1,
       sent := sent c @ [reply_line SuccessMailCmd]\<rparr>"
  have "ready s c1" using assms(1) r1 by (simp add: ready_def c1_def)
  from serve_rcpts [OF this _ assms(8,9), of ?data "Suc k"] r1 assms(4,11) obtain r2 where
    r2: "avail r2 = ?data" "reader_ok s r2" and
    t2: "\<And>n. serve (n + length rs) s p (\<lambda>_. False) (Suc k) c1 =
      serve n s p (\<lambda>_. False) (Suc k + length rs)
        (c1\<lparr>Env := (Env c1)\<lparr>RcptTo := to\<rparr>, conn_in := r2,
           sent := sent c1 @ replicate (length rs) (reply_line SuccessRcptCmd)\<rparr>)"
    by (auto simp: c1_def)
  define c2 where "c2 = c1\<lparr>Env := (Env c1)\<lparr>RcptTo := to\<rparr>, conn_in := r2,
           sent := sent c1 @ replicate (length rs) (reply_line SuccessRcptCmd)\<rparr>"
  have "to \<noteq> []" "ready s c2" using assms(1,9,10) r2 by (auto simp: ready_def c2_def c1_def)
  with serve_data [of s c2 ls rest p] r2(1) assms(12) obtain r3 r4 where
    r4: "reader_ok s r4" "avail r4 = rest" "ReadDot r3 = ((lf_lines ls, None), r4)" and
    t3: "turn s p False c2 = (Go_on, c2\<lparr>conn_in := r3, sent := sent c2 @ [reply_line SuccessDataCmd],
         state := ConnData\<rparr>)"
    by (auto simp: c2_def)
  have c3: "c2\<lparr>conn_in := r3, sent := sent c2 @ [reply_line SuccessDataCmd], state := ConnData\<rparr> =
      c\<lparr>Env := (Env c)\<lparr>MailFrom := Some adr, RcptTo := to\<rparr>, conn_in := r3,
            sent := sent c @ [reply_line SuccessMailCmd] @ replicate (length rs) (reply_line SuccessRcptCmd)
              @ [reply_line SuccessDataCmd], state := ConnData\<rparr>"
    by (simp add: c2_def c1_def)
  have "serve (Suc (Suc n) + length rs) s p (\<lambda>_. False) k c =
      serve n s p (\<lambda>_. False) (Suc (Suc k + length rs))
        (c2\<lparr>conn_in := r3, sent := sent c2 @ [reply_line SuccessDataCmd], state := ConnData\<rparr>)" for n
    using t1 t2 [of "Suc n"] t3 by (simp add: c1_def [symmetric] c2_def [symmetric])
  then have "\<forall>n. serve (n + length rs + 2) s p (\<lambda>_. False) k c = serve n s p (\<lambda>_. False) (k + length rs + 2)
      (c2\<lparr>conn_in := r3, sent := sent c2 @ [reply_line SuccessDataCmd], state := ConnData\<rparr>)"
    by (simp add: numeral_2_eq_2)
  with r4 show ?thesis unfolding c3 by blast
qed

text \<open>
  C1: A client sends MAIL, RCPT for each of its recipients, DATA and the dot-stuffed lines of a
  message, pipelined and cut into chunks in any way. Then the loop arrives, after one turn per
  command and one for the message, at a connection that is ready for the next transaction and has
  exactly what followed still to read; the middlewares and the handler have been called once, with
  the sender, the recipients in order and the unstuffed lines; and the client has been sent 250
  for the sender and for each recipient, 354, and the response of the chain.
\<close>

theorem transaction_delivered:
  assumes "ready s c" "avail (conn_in c) = client_lines a rs ls @ rest"
    and "MailFrom (Env c) = None" "RcptTo (Env c) = []" "Data (Env c) = empty_data"
    and "clean a" "CHR '' '' \<notin> set a" "ParseAddress p a = Inr adr"
    and "list_all clean rs" "map (ParseAddress p) rs = map Inr to" "rs \<noteq> []"
    and "int (length rs) \<le> MaxRecipients s + 1" "\<And>l. l \<in> set ls \<Longrightarrow> LF \<notin> set l"
    and "Handler s = Some h"
    and "build_chain (Middlewares s) h ((Env c)\<lparr>MailFrom := Some adr, RcptTo := to,
        Data := data_ReadFrom (lf_lines ls) empty_data\<rparr>) = (Returned (Some res), e')"
  shows "\<exists>c' more. (\<forall>n. serve (n + length rs + 3) s p (\<lambda>_. False) k c =
        serve n s p (\<lambda>_. False) (k + length rs + 3) c')
    \<and> ready s c' \<and> MailFrom (Env c') = None \<and> RcptTo (Env c') = [] \<and> data_Bytes (Data (Env c')) = []
    \<and> avail (conn_in c') = rest @ more
    \<and> sent c' = sent c @ [reply_line SuccessMailCmd] @ replicate (length rs) (reply_line SuccessRcptCmd)
        @ [reply_line SuccessDataCmd, item_text (Resp res) @ crlf]
    \<and> messagesSent c' = messagesSent c + (if Response_Class res = ClassSuccess then 1 else 0)"
proof -
  obtain r3 r4 where r4: "reader_ok s r4" "avail r4 = rest" "ReadDot r3 = ((lf_lines ls, None), r4)" and
    t: "\<And>n. serve (n + length rs + 2) s p (\<lambda>_. False) k c =
       serve n s p (\<lambda>_. False) (k + length rs + 2)
         (c\<lparr>Env := (Env c)\<lparr>MailFrom := Some adr, RcptTo := to\<rparr>, conn_in := r3,
            sent := sent c @ [reply_line SuccessMailCmd] @ replicate (length rs) (reply_line SuccessRcptCmd)
              @ [reply_line SuccessDataCmd], state := ConnData\<rparr>)"
    using serve_dialogue [OF assms(1-4,6-13), of k] by blast
  define c3 where "c3 = c\<lparr>Env := (Env c)\<lparr>MailFrom := Some adr, RcptTo := to\<rparr>, conn_in := r3,
            sent := sent c @ [reply_line SuccessMailCmd] @ replicate (length rs) (reply_line SuccessRcptCmd)
              @ [reply_line SuccessDataCmd], state := ConnData\<rparr>"
  have c3: "\<not> killed c3" "\<not> bufErr c3" "write_fails c3 = []" "state c3 = ConnData"
    "ReadDot (conn_in c3) = ((lf_lines ls, None), r4)"
    "(Env c3)\<lparr>Data := data_ReadFrom (lf_lines ls) (Data (Env c3))\<rparr> =
       (Env c)\<lparr>MailFrom := Some adr, RcptTo := to, Data := data_ReadFrom (lf_lines ls) empty_data\<rparr>"
    using assms(1,5) r4(3) by (simp_all add: ready_def c3_def)
  from serve_message [OF c3(1-4) r4(1) c3(5) assms(14)] assms(15) c3(6) obtain c' where
    t4: "turn s p False c3 = (Go_on, c')" and c': "ready s c'" "conn_in c' = ResetLimit r4"
    "sent c' = sent c3 @ [item_text (Resp res) @ crlf]"
    "MailFrom (Env c') = None" "RcptTo (Env c') = []" "data_Bytes (Data (Env c')) = []"
    "messagesSent c' = messagesSent c3 + (if Response_Class res = ClassSuccess then 1 else 0)"
    by auto
  from ResetLimit_more [of r4] r4 obtain more where more: "avail (conn_in c') = rest @ more"
    by (auto simp: c' reader_ok_def)
  have "serve (n + length rs + 3) s p (\<lambda>_. False) k c = serve n s p (\<lambda>_. False) (k + length rs + 3) c'" for n
    using t [of "Suc n", folded c3_def] t4 by (simp add: numeral_3_eq_3 numeral_2_eq_2)
  with c' more show ?thesis by (intro exI [of _ c'] exI [of _ more]) (simp add: c3_def)
qed

text \<open>
  A message with a line that begins with a dot, in chunks that cut through its lines, to two
  recipients of a server with MaxRecipients 1.
\<close>

definition w_chunks :: "string list" where
  "w_chunks = [''MAIL FR'', ''OM:a'' @ crlf @ ''RCPT TO:b'' @ [CR], [LF] @ ''RCPT TO:c'' @ crlf @ ''DATA'',
     crlf @ ''Hi'' @ crlf @ ''.'', ''.x'' @ crlf @ ''.'' @ crlf, ''QUIT'' @ crlf]"

definition w_one :: server where
  "w_one = plain_server\<lparr>MaxRecipients := 1\<rparr>"

definition w_ready :: connection where
  "w_ready = (newConnection plain_platform \<lparr>chunks = w_chunks, raw_end = EOF\<rparr> [] (PeerAddr ''::1'')
     (MaxSize w_one) 1)\<lparr>state := ConnCmd\<rparr>"

theorem transaction_delivered_witness:
  "\<exists>c'. (\<forall>n. serve (5 + n) w_one plain_platform (\<lambda>_. False) 0 w_ready =
       serve n w_one plain_platform (\<lambda>_. False) 5 c')
     \<and> sent c' = [reply_line SuccessMailCmd, reply_line SuccessRcptCmd, reply_line SuccessRcptCmd,
          reply_line SuccessDataCmd, item_text (Resp (Canned SuccessMessageAccepted)) @ crlf]
     \<and> messagesSent c' = 1"
proof -
  let ?p = plain_platform and ?s = w_one and ?adr = "\<lambda>a. \<lparr>addr_Name = [], addr_Address = a\<rparr>"
  have rdy: "ready ?s w_ready"
    by (simp add: ready_def w_ready_def newConnection_def reader_ok_def settled_def NewSMTPReader_def)
  have av: "avail (conn_in w_ready) = client_lines ''a'' [''b'', ''c''] [''Hi'', ''.x''] @ ''QUIT'' @ crlf"
    by (simp add: w_ready_def newConnection_def avail_def NewSMTPReader_def w_chunks_def client_lines_def
        stuff_def stuff_line_def w_one_def plain_server_def defaultMaxSize_def)
  have fresh: "MailFrom (Env w_ready) = None" "RcptTo (Env w_ready) = []" "Data (Env w_ready) = empty_data"
    by (simp_all add: w_ready_def newConnection_def)
  have cl: "clean ''a''" "CHR '' '' \<notin> set ''a''" "list_all clean [''b'', ''c'']"
    by code_simp+
  have addr: "ParseAddress ?p ''a'' = Inr (?adr ''a'')"
    "map (ParseAddress ?p) [''b'', ''c''] = map Inr [?adr ''b'', ?adr ''c'']"
    by (simp_all add: plain_platform_def)
  have lim: "[''b'', ''c''] \<noteq> []" "int (length [''b'', ''c'']) \<le> MaxRecipients ?s + 1"
    by (simp_all add: w_one_def)
  have ls: "\<And>l. l \<in> set [''Hi'', ''.x''] \<Longrightarrow> LF \<notin> set l" by auto
  have h: "Handler ?s = Some NoopBackend" by (simp add: w_one_def plain_server_def)
  have ch: "build_chain (Middlewares ?s) NoopBackend e = (Returned (Some (Canned SuccessMessageAccepted)), e)" for e
    by (simp add: w_one_def plain_server_def nil2success_def NoopBackend_def NewHandler_def)
  have cls: "Response_Class (Canned SuccessMessageAccepted) = ClassSuccess" by code_simp
  have "sent w_ready = []" "messagesSent w_ready = 0" by (simp_all add: w_ready_def newConnection_def)
  with transaction_delivered [OF rdy av fresh cl(1,2) addr(1) cl(3) addr(2) lim ls h ch, of 0] cls
  show ?thesis by (auto simp: numeral_2_eq_2 simp del: item_text.simps)
qed

end
