(* ===== verification/Session_View.thy ===== *)
theory Session_View imports Session_Delivery begin

text \<open>
  The client's view of a session. An exchange is what a client sees of one turn: its line and the
  reply, the answer to its message, or the outcome of the handshake. From the exchanges alone the
  client can tell which transaction it is in, the sender and the recipients that were accepted;
  the transaction of the connection is exactly that one in every turn, so that a handler is never
  given a sender or a recipient the client has not been promised, nor misses one.
\<close>

section \<open>Exchanges\<close>

datatype exchange =
    Greeted string | Command string string | Answered string bool | Secured bool | Silent

type_synonym transaction = "address option \<times> address list"

definition accepted :: "platform \<Rightarrow> string \<Rightarrow> address option" where
  "accepted p s = (case ParseAddress p s of Inl _ \<Rightarrow> None | Inr a \<Rightarrow> Some a)"

definition argument :: "command \<Rightarrow> string \<Rightarrow> string" where
  "argument k line = trim_space (drop (length k) line)"

text \<open>What the client makes of a line and its reply, if there was one.\<close>

definition command_view :: "platform \<Rightarrow> string \<Rightarrow> string \<Rightarrow> transaction \<Rightarrow> transaction" where
  "command_view p line ans t =
     (if ans = [] then t
      else if cmd_match cmdHELO line \<or> cmd_match cmdEHLO line \<or> cmd_match cmdRSET line then (None, [])
      else if cmd_match cmdMAIL line then
        (if ans = reply_line SuccessMailCmd
         then (accepted p (fst (go_cut (argument cmdMAIL line) '' '')), snd t)
         else if ans = reply_line RejectedSenderMailCmd then (None, snd t) else t)
      else if cmd_match cmdRCPT line \<and> ans = reply_line SuccessRcptCmd
      then (fst t, snd t @ (case accepted p (argument cmdRCPT line) of None \<Rightarrow> [] | Some a \<Rightarrow> [a]))
      else t)"

fun view_step :: "platform \<Rightarrow> exchange \<Rightarrow> transaction \<Rightarrow> transaction" where
  "view_step p (Command line ans) t = command_view p line ans t"
| "view_step p (Answered ans closed) t = (if closed then t else (None, []))"
| "view_step p (Secured ok) t = (if ok then (None, []) else t)"
| "view_step p _ t = t"

text \<open>The exchange of a turn from one connection to the next.\<close>

definition said :: "connection \<Rightarrow> connection \<Rightarrow> string" where
  "said c c' = concat (drop (length (sent c)) (sent c'))"

definition exchange_of :: "server \<Rightarrow> platform \<Rightarrow> connection \<Rightarrow> connection \<Rightarrow> exchange" where
  "exchange_of s p c c' =
     (case state c of
        ConnGreeting \<Rightarrow> Greeted (said c c')
      | ConnCmd \<Rightarrow> (case fst (readCommand c) of Inl _ \<Rightarrow> Silent | Inr line \<Rightarrow> Command line (said c c'))
      | ConnData \<Rightarrow> Answered (said c c') (killed c')
      | ConnStartTLS \<Rightarrow> Secured (\<not> TLS (Env c) \<and> TLSConfig s \<and> fst (upgradeTLS p c) = None)
      | ConnShutdown \<Rightarrow> Silent)"

definition session_step :: "server \<Rightarrow> platform \<Rightarrow> connection \<Rightarrow> exchange \<Rightarrow> connection \<Rightarrow> bool" where
  "session_step s p c x c' \<longleftrightarrow> (\<exists>sd. turn s p sd c = (Go_on, c') \<and> x = exchange_of s p c c')"

definition transaction_of :: "connection \<Rightarrow> transaction" where
  "transaction_of c = (MailFrom (Env c), RcptTo (Env c))"

section \<open>The commands\<close>

text \<open>No keyword is a prefix of another, so a line matches one of them at most.\<close>

lemma commands_differ: "\<forall>a \<in> set commands. \<forall>b \<in> set commands. has_prefix a b \<longrightarrow> a = b"
  by code_simp

lemma match_only:
  assumes "cmd_match a line" "a \<in> set commands" "b \<in> set commands"
  shows "cmd_match b line \<longleftrightarrow> b = a"
proof
  assume "cmd_match b line"
  with assms(1) obtain x y where "to_upper line = a @ x" "to_upper line = b @ y"
    by (auto simp: cmd_match_def has_prefix_iff)
  then have "has_prefix a b \<or> has_prefix b a"
    by (metis append_eq_append_conv2 has_prefix_append)
  then show "b = a" using commands_differ assms(2,3) by blast
qed (simp add: assms(1))

text \<open>The answer to a line changes the transaction as the client sees it.\<close>

definition agrees :: "platform \<Rightarrow> string \<Rightarrow> connection \<Rightarrow> flow \<times> connection \<Rightarrow> bool" where
  "agrees p line c x \<longleftrightarrow> write_fails (snd x) = [] \<and> said c (snd x) \<noteq> [] \<and>
     transaction_of (snd x) = command_view p line (said c (snd x)) (transaction_of c)"

lemmas agrees_simps = agrees_def said_def transaction_of_def cmd_unfold

lemma match_others:
  assumes "cmd_match k line" "k \<in> set commands" "k \<notin> {cmdHELO, cmdEHLO, cmdRSET, cmdMAIL, cmdRCPT}"
  shows "command_view p line ans t = t"
proof -
  have "\<forall>b \<in> {cmdHELO, cmdEHLO, cmdRSET, cmdMAIL, cmdRCPT}. b \<in> set commands"
    by (simp add: commands_def)
  then have "\<forall>b \<in> {cmdHELO, cmdEHLO, cmdRSET, cmdMAIL, cmdRCPT}. \<not> cmd_match b line"
    using match_only [OF assms(1,2)] assms(3) by blast
  then show ?thesis by (simp add: command_view_def)
qed

named_theorems agreements "what every command does to the transaction"

lemma cmd_hello_agrees [agreements]:
  assumes "write_fails c = []"
  shows "cmd_match cmdHELO line \<Longrightarrow> agrees p line c (cmd_helo s p line c)"
    and "cmd_match cmdEHLO line \<Longrightarrow> agrees p line c (cmd_ehlo s p line c)"
    and "cmd_match cmdRSET line \<Longrightarrow> agrees p line c (cmd_rset p c)"
proof -
  show "agrees p line c (cmd_helo s p line c)" if "cmd_match cmdHELO line"
    using assms that by (simp add: cmd_helo_def agrees_simps match_content command_view_def)
  show "agrees p line c (cmd_ehlo s p line c)" if "cmd_match cmdEHLO line"
  proof -
    have "length cmdHELO = length cmdEHLO" by (simp add: cmdHELO_def cmdEHLO_def)
    with match_content [OF that] have "content cmdHELO line = Some (trim_space (drop (length cmdEHLO) line))"
      by (simp add: content_def split: if_splits)
    with assms that show ?thesis by (simp add: cmd_ehlo_def agrees_simps command_view_def)
  qed
  show "agrees p line c (cmd_rset p c)" if "cmd_match cmdRSET line"
    using assms that by (simp add: cmd_rset_def agrees_simps command_view_def)
qed

lemma replies_differ:
  "reply_line FailNestedMailCmd \<noteq> reply_line SuccessMailCmd"
  "reply_line FailNestedMailCmd \<noteq> reply_line RejectedSenderMailCmd"
  "reply_line RejectedSenderMailCmd \<noteq> reply_line SuccessMailCmd"
  "reply_line FailSyntaxError \<noteq> reply_line SuccessRcptCmd"
  "reply_line ErrorTooManyRecipients \<noteq> reply_line SuccessRcptCmd"
  by code_simp+

lemma sent_reply:
  "write_fails c = [] \<Longrightarrow> sent (reply r c) = sent c @ [reply_line r]" "reply_line r \<noteq> []"
  by (simp_all add: reply_line_def)

lemma cmd_mail_agrees [agreements]:
  assumes "write_fails c = []" "cmd_match cmdMAIL line"
  shows "agrees p line c (cmd_mail p line c)"
proof -
  have m: "\<not> cmd_match cmdHELO line" "\<not> cmd_match cmdEHLO line" "\<not> cmd_match cmdRSET line"
    using match_only [OF assms(2)] by (simp_all add: commands_def cmd_defs)
  show ?thesis
  proof (cases "isInTransaction c")
    case True
    then show ?thesis using assms m replies_differ sent_reply
      by (simp add: cmd_mail_def agrees_simps command_view_def)
  next
    case False
    then show ?thesis using assms m replies_differ
      by (simp add: cmd_mail_def agrees_simps command_view_def match_content reply_line_def argument_def
        accepted_def split: prod.splits sum.splits)
  qed
qed

lemma cmd_rcpt_agrees [agreements]:
  assumes "write_fails c = []" "cmd_match cmdRCPT line"
  shows "agrees p line c (cmd_rcpt s p line c)"
proof -
  have "\<not> cmd_match cmdHELO line" "\<not> cmd_match cmdEHLO line" "\<not> cmd_match cmdRSET line" "\<not> cmd_match cmdMAIL line"
    using match_only [OF assms(2)] by (simp_all add: commands_def cmd_defs)
  then show ?thesis using assms replies_differ
    by (simp add: cmd_rcpt_def agrees_simps command_view_def match_content reply_line_def argument_def
      accepted_def split: sum.splits)
qed

lemma cmd_others_agree [agreements]:
  assumes "write_fails c = []"
  shows "cmd_match cmdHELP line \<Longrightarrow> agrees p line c (cmd_help c)"
    and "cmd_match cmdXCLIENT line \<Longrightarrow> agrees p line c (cmd_xclient p line c)"
    and "cmd_match cmdPROXY line \<Longrightarrow> agrees p line c (cmd_proxy s p line c)"
    and "cmd_match cmdVRFY line \<Longrightarrow> agrees p line c (cmd_vrfy c)"
    and "cmd_match cmdNOOP line \<Longrightarrow> agrees p line c (cmd_noop c)"
    and "cmd_match cmdQUIT line \<Longrightarrow> agrees p line c (cmd_quit c)"
    and "cmd_match cmdDATA line \<Longrightarrow> agrees p line c (cmd_data c)"
    and "cmd_match cmdSTARTTLS line \<Longrightarrow> agrees p line c (cmd_starttls s c)"
proof -
  have o: "cmd_match k line \<Longrightarrow> k \<in> {cmdHELP, cmdXCLIENT, cmdPROXY, cmdVRFY, cmdNOOP, cmdQUIT, cmdDATA, cmdSTARTTLS} \<Longrightarrow>
      command_view p line r t = t" for k r t
    by (rule match_others [of k]) (auto simp: commands_def cmd_defs)
  show "agrees p line c (cmd_help c)" if "cmd_match cmdHELP line"
    using assms o [OF that] by (simp add: cmd_help_def agrees_simps)
  show "agrees p line c (cmd_xclient p line c)" if "cmd_match cmdXCLIENT line"
    using assms o [OF that] by (simp add: cmd_xclient_def agrees_simps match_content that xclient_fold)
  show "agrees p line c (cmd_proxy s p line c)" if "cmd_match cmdPROXY line"
    using assms o [OF that] by (simp add: cmd_proxy_def agrees_simps match_content that)
  show "agrees p line c (cmd_vrfy c)" if "cmd_match cmdVRFY line"
    using assms o [OF that] by (simp add: cmd_vrfy_def agrees_simps)
  show "agrees p line c (cmd_noop c)" if "cmd_match cmdNOOP line"
    using assms o [OF that] by (simp add: cmd_noop_def agrees_simps)
  show "agrees p line c (cmd_quit c)" if "cmd_match cmdQUIT line"
    using assms o [OF that] by (simp add: cmd_quit_def agrees_simps)
  show "agrees p line c (cmd_data c)" if "cmd_match cmdDATA line"
    using assms o [OF that] by (simp add: cmd_data_def agrees_simps)
  show "agrees p line c (cmd_starttls s c)" if "cmd_match cmdSTARTTLS line"
    using assms o [OF that] by (simp add: cmd_starttls_def agrees_simps)
qed

lemma cmd_unrecognized_agrees [agreements]:
  assumes "write_fails c = []" "\<not> cmd_match cmdHELO line" "\<not> cmd_match cmdEHLO line" "\<not> cmd_match cmdRSET line"
    "\<not> cmd_match cmdMAIL line" "\<not> cmd_match cmdRCPT line"
  shows "agrees p line c (cmd_unrecognized s c)"
  using assms by (simp add: cmd_unrecognized_def agrees_simps command_view_def kill_def)

lemma dispatch_agrees: "write_fails c = [] \<Longrightarrow> agrees p line c (dispatch s p line c)"
  unfolding dispatch_def by (simp add: agreements)

section \<open>The turns\<close>

lemma cmd_turn_agrees:
  assumes "write_fails c = []" "state c = ConnCmd" "cmd_turn s p sd c = (Go_on, c')"
  shows "write_fails c' = [] \<and> transaction_of c' = view_step p (exchange_of s p c c') (transaction_of c)"
proof -
  obtain res c1 where rc: "readCommand c = (res, c1)" by (metis prod.exhaust)
  note f = readCommand_frame_fields [OF rc]
  from assms(3) rc obtain line where res: "res = Inr line"
    by (cases res) (auto simp: cmd_turn_def split: ioerr.splits)
  have x: "exchange_of s p c c' = Command line (said c1 c')"
    by (simp add: exchange_of_def assms(2) rc res said_def f)
  have t: "transaction_of c1 = transaction_of c" by (simp add: transaction_of_def f)
  show ?thesis
  proof (cases sd)
    case True
    then have "c' = c1\<lparr>state := ConnShutdown\<rparr>" using assms(3) rc res by (simp add: cmd_turn_def)
    then show ?thesis using x t f assms(1) by (simp add: said_def command_view_def transaction_of_def)
  next
    case False
    then have "dispatch s p line c1 = (Go_on, c')" using assms(3) rc res by (simp add: cmd_turn_def)
    then show ?thesis using dispatch_agrees [of c1 p line s] x t f assms(1) by (simp add: agrees_def)
  qed
qed

lemma data_turn_agrees:
  assumes "write_fails c = []" "state c = ConnData" "\<not> killed c" "data_turn s p sd c = (Go_on, c')"
  shows "write_fails c' = [] \<and> transaction_of c' = view_step p (exchange_of s p c c') (transaction_of c)"
proof -
  obtain e c1 where rd: "read_data c = (e, c1)" by (metis prod.exhaust)
  then have f: "write_fails c1 = []" "killed c1 = killed c" "transaction_of c1 = transaction_of c"
    using assms(1) by (auto simp: read_data_def set_env_def transaction_of_def split: prod.splits)
  show ?thesis
  proof (cases e)
    case None
    then have "deliver s p sd c1 = (Go_on, c')" using assms(4) rd by (simp add: data_turn_def)
    then have "write_fails c' = []" "\<not> killed c'" "transaction_of c' = (None, [])"
      using f assms(3)
      by (auto simp: deliver_def Let_def add_error_def transaction_of_def
          split: option.splits prod.splits outcome.splits if_splits)
    then show ?thesis by (simp add: exchange_of_def assms(2))
  next
    case (Some err)
    then have "write_fails c' = []" "killed c'" "transaction_of c' = transaction_of c"
      using f assms(4) rd
      by (auto simp: data_turn_def transaction_of_def kill_def split: ioerr.splits)
    then show ?thesis by (simp add: exchange_of_def assms(2))
  qed
qed

lemma starttls_turn_agrees:
  assumes "write_fails c = []" "state c = ConnStartTLS" "starttls_turn s p c = (Go_on, c')"
  shows "write_fails c' = [] \<and> transaction_of c' = view_step p (exchange_of s p c c') (transaction_of c)"
proof -
  obtain e c1 where up: "upgradeTLS p c = (e, c1)" by (metis prod.exhaust)
  then have f: "write_fails c1 = []" "transaction_of c1 = transaction_of c"
    using assms(1) by (auto simp: upgradeTLS_def transaction_of_def split: prod.splits option.splits)
  then show ?thesis using assms up
    by (cases e) (auto simp: starttls_turn_def exchange_of_def transaction_of_def split: if_splits)
qed

lemma session_step_agrees:
  assumes "write_fails c = []" "session_step s p c x c'"
  shows "write_fails c' = [] \<and> transaction_of c' = view_step p x (transaction_of c)"
proof -
  from assms(2) obtain sd where t: "turn s p sd c = (Go_on, c')" "x = exchange_of s p c c'"
    by (auto simp: session_step_def)
  then have "\<not> killed c" by (auto simp: turn_def isAlive_def split: if_splits)
  show ?thesis
  proof (cases "state c")
    case ConnCmd
    with t assms(1) cmd_turn_agrees [of c s p sd c'] show ?thesis by (auto simp: turn_def split: if_splits)
  next
    case ConnData
    with t assms(1) \<open>\<not> killed c\<close> data_turn_agrees [of c s p sd c'] show ?thesis by (auto simp: turn_def split: if_splits)
  next
    case ConnStartTLS
    with t assms(1) starttls_turn_agrees [of c s p c'] show ?thesis by (auto simp: turn_def split: if_splits)
  qed (use t assms(1) in \<open>auto simp: turn_def greeting_turn_def shutdown_turn_def exchange_of_def transaction_of_def
        split: if_splits\<close>)
qed

interpretation view: functional_refinement "session_step s p" "\<lambda>c. write_fails c = []" transaction_of "view_step p" for s p
  by unfold_locales (use session_step_agrees in blast)+

section \<open>What a handler is given\<close>

text \<open>A recipient of the view was named in a line that was answered with the acceptance.\<close>

definition acknowledged :: "platform \<Rightarrow> exchange list \<Rightarrow> address \<Rightarrow> bool" where
  "acknowledged p xs a \<longleftrightarrow>
     (\<exists>line. Command line (reply_line SuccessRcptCmd) \<in> set xs \<and> cmd_match cmdRCPT line \<and>
        ParseAddress p (argument cmdRCPT line) = Inr a)"

lemma view_step_recipients:
  "a \<in> set (snd (view_step p x t)) \<Longrightarrow> a \<in> set (snd t) \<or> acknowledged p [x] a"
  by (cases "(p, x, t)" rule: view_step.cases)
    (auto simp: command_view_def acknowledged_def accepted_def split: if_splits sum.splits)

lemma view_acknowledged: "a \<in> set (snd (fold (view_step p) xs (None, []))) \<Longrightarrow> acknowledged p xs a"
proof (induction xs rule: rev_induct)
  case (snoc x xs)
  then show ?case using view_step_recipients [of a p x "fold (view_step p) xs (None, [])"]
    by (auto simp: acknowledged_def)
qed simp

text \<open>
  C11: The transaction of a connection is the one its client can tell from the replies: after any
  exchanges it has the sender of the last MAIL line that was accepted and the recipients of the RCPT
  lines that were accepted, in their order, since the last greeting, RSET, message or handshake. So
  the envelope the handlers are called with has exactly that sender and those recipients, and every
  one of them was acknowledged. (The client accepts what is written.)
\<close>

theorem client_view:
  assumes "start_conn s p (newConnection p raw [] ra (MaxSize s) cid) = (True, c0)"
    and "trace_of (session_step s p) c0 xs c"
  shows "transaction_of c = fold (view_step p) xs (None, [])
    \<and> (\<forall>c1. read_data c = (None, c1) \<longrightarrow>
         transaction_of c1 = fold (view_step p) xs (None, []) \<and>
         (\<forall>a \<in> set (RcptTo (Env c1)). acknowledged p xs a))"
proof -
  have c0: "write_fails c0 = []" "transaction_of c0 = (None, [])"
    using assms(1)
    by (auto simp: start_conn_def newConnection_def upgradeTLS_def transaction_of_def NewEnvelope_def
        split: if_splits prod.splits option.splits)
  from view.trace_refines [OF assms(2) c0(1)] have v: "transaction_of c = fold (view_step p) xs (None, [])"
    by (simp add: c0(2))
  have "transaction_of c1 = transaction_of c" if "read_data c = (None, c1)" for c1
    using that by (auto simp: read_data_def set_env_def transaction_of_def split: prod.splits)
  then have "transaction_of c1 = fold (view_step p) xs (None, [])" if "read_data c = (None, c1)" for c1
    using that v by simp
  moreover have "RcptTo (Env c1) = snd (transaction_of c1)" for c1 by (simp add: transaction_of_def)
  ultimately show ?thesis using v view_acknowledged by simp
qed

lemma go_turns_trace: "go_turns n s p c = Some c' \<Longrightarrow> trace_of (session_step s p) c0 xs c \<Longrightarrow>
    \<exists>ys. trace_of (session_step s p) c0 ys c'"
proof (induction n arbitrary: c xs)
  case (Suc n)
  from Suc.prems(1) obtain c1 where c1: "turn s p False c = (Go_on, c1)" "go_turns n s p c1 = Some c'"
    by (auto split: prod.splits flow.splits)
  then have "session_step s p c (exchange_of s p c c1) c1" by (auto simp: session_step_def)
  from trace_step [OF Suc.prems(2) this] Suc.IH [OF c1(2)] show ?case by blast
qed auto

theorem client_view_witness:
  "\<exists>c c1 xs. trace_of (session_step plain_server plain_platform) (w_conn [''RCPT TO:<a@b>'', ''DATA'', ''.'']) xs c
    \<and> read_data c = (None, c1) \<and> transaction_of c1 = fold (view_step plain_platform) xs (None, [])
    \<and> map addr_Address (RcptTo (Env c1)) = [''<a@b>''] \<and> acknowledged plain_platform xs (hd (RcptTo (Env c1)))"
proof -
  let ?ls = "[''RCPT TO:<a@b>'', ''DATA'', ''.'']"
  have "w_go 3 ?ls (\<lambda>c. case read_data c of (e, c1) \<Rightarrow> e = None \<and> map addr_Address (RcptTo (Env c1)) = [''<a@b>''])"
    by code_simp
  then obtain c c1 where c: "go_turns 3 plain_server plain_platform (w_conn ?ls) = Some c" "read_data c = (None, c1)"
      "map addr_Address (RcptTo (Env c1)) = [''<a@b>'']"
    by (auto split: option.splits prod.splits)
  obtain xs where xs: "trace_of (session_step plain_server plain_platform) (w_conn ?ls) xs c"
    using go_turns_trace [OF c(1) trace_refl] by blast
  have "start_conn plain_server plain_platform (newConnection plain_platform
      \<lparr>chunks = map (\<lambda>l. l @ crlf) ?ls, raw_end = EOF\<rparr> [] (PeerAddr ''192.0.2.1:4000'') (MaxSize plain_server) 7) =
      (True, w_conn ?ls)"
    by (simp add: w_on_def start_conn_def plain_server_def)
  from client_view [OF this xs] c xs show ?thesis
    by (intro exI [of _ c] exI [of _ c1] exI [of _ xs], cases "RcptTo (Env c1)") auto
qed

end
