(* ===== verification/Go_Dict.thy ===== *)
theory Go_Dict
  imports Go_Strings "HOL-Library.AList" "HOL-Library.Char_ord" "HOL-Library.List_Lexorder"
begin

text \<open>
  Go's map[string]string, as the DKIM, DMARC and Authentication-Results code uses it: an
  association list with distinct keys in the order of insertion. The order in which Go ranges
  over a map is unspecified; the code sorts the keys wherever an order shows. sort.Strings
  compares byte by byte, which is the order of List_Lexorder over Char_ord.
\<close>

type_synonym dict = "(string \<times> string) list"

definition dict_ok :: "dict \<Rightarrow> bool" where
  "dict_ok d \<longleftrightarrow> distinct (map fst d)"

text \<open>m[k], with the zero value for a missing key, and m[k] = v.\<close>

definition dict_get :: "dict \<Rightarrow> string \<Rightarrow> string" where
  "dict_get d k = (case map_of d k of Some v \<Rightarrow> v | None \<Rightarrow> [])"

definition dict_put :: "string \<Rightarrow> string \<Rightarrow> dict \<Rightarrow> dict" where
  "dict_put k v d = AList.update k v d"

definition dict_keys :: "dict \<Rightarrow> string list" where
  "dict_keys d = map fst d"

lemma map_of_dict_put [simp]: "map_of (dict_put k v d) = (map_of d)(k \<mapsto> v)"
  by (simp add: dict_put_def update_conv')

lemma dict_ok_put [simp]: "dict_ok d \<Longrightarrow> dict_ok (dict_put k v d)"
  by (simp add: dict_ok_def dict_put_def distinct_update)

lemma dict_ok_Nil [simp]: "dict_ok []"
  by (simp add: dict_ok_def)

lemma dict_get_put [simp]: "dict_get (dict_put k v d) k' = (if k' = k then v else dict_get d k')"
  by (simp add: dict_get_def)

lemma set_dict_keys: "k \<in> set (dict_keys d) \<longleftrightarrow> map_of d k \<noteq> None"
  by (force simp: dict_keys_def map_of_eq_None_iff)

lemma set_dict_keys_put [simp]: "set (dict_keys (dict_put k v d)) = insert k (set (dict_keys d))"
  by (auto simp: set_dict_keys split: if_splits)

lemma distinct_dict_keys [simp]: "dict_ok d \<Longrightarrow> distinct (dict_keys d)"
  by (simp add: dict_ok_def dict_keys_def)

end
