(* ===== verification/Dkim_Canonical.thy ===== *)
theory Dkim_Canonical imports Go_Strings begin

text \<open>
  middleware/authres/dkim/canonical.go: the canonicalizers of DKIM and the writer that keeps a
  prefix. The body canonicalizers are written to in pieces and write to the hash as they go; a
  Write is modelled as what it passes on and the state it leaves (the writer behind it, a hash,
  never fails). The specification is what RFC 6376 says of the whole body; the locale
  stream_transformer is the contract between the two.
\<close>

section \<open>Streams\<close>

text \<open>
  A writer that transforms what it is given: rep s inp out says that in state s it has been given
  inp and has passed on out. Whatever the pieces, the output is the transformation of the whole.
\<close>

locale stream_transformer =
  fixes start :: 's
    and wr :: "string \<Rightarrow> 's \<Rightarrow> string \<times> 's"
    and finish :: "'s \<Rightarrow> string"
    and rep :: "'s \<Rightarrow> string \<Rightarrow> string \<Rightarrow> bool"
    and whole :: "string \<Rightarrow> string"
  assumes rep_start: "rep start [] []"
    and rep_write: "rep s inp out \<Longrightarrow> wr b s = (o', s') \<Longrightarrow> rep s' (inp @ b) (out @ o')"
    and rep_finish: "rep s inp out \<Longrightarrow> out @ finish s = whole inp"
begin

fun write_all :: "string list \<Rightarrow> 's \<Rightarrow> string \<times> 's" where
  "write_all [] s = ([], s)"
| "write_all (b # bs) s = (let (o1, s1) = wr b s; (o2, s2) = write_all bs s1 in (o1 @ o2, s2))"

lemma write_all_rep:
  "rep s inp out \<Longrightarrow> write_all bs s = (o', s') \<Longrightarrow> rep s' (inp @ concat bs) (out @ o')"
proof (induction bs arbitrary: s inp out o')
  case (Cons b bs)
  obtain o1 s1 o2 where w: "wr b s = (o1, s1)" "write_all bs s1 = (o2, s')" "o' = o1 @ o2"
    using Cons.prems(2) by (auto simp: Let_def split: prod.splits)
  from Cons.IH [OF rep_write [OF Cons.prems(1) w(1)] w(2)] w(3) show ?case by simp
qed simp

lemma stream_correct: "write_all bs start = (out, s) \<Longrightarrow> out @ finish s = whole (concat bs)"
  using write_all_rep [OF rep_start] rep_finish by fastforce

end

section \<open>Line ends\<close>

text \<open>crlfFixer: the state is whether the last byte was a CR.\<close>

fun Fix :: "bool \<Rightarrow> string \<Rightarrow> string \<times> bool" where
  "Fix cr [] = ([], cr)"
| "Fix cr (ch # b) =
     (let (res, cr') = Fix (ch = CR) b
      in ((if ch = LF \<and> \<not> cr then [CR] else []) @ ch # res, cr'))"

lemma Fix_Cons [simp]:
  "fst (Fix cr (ch # b)) = (if ch = LF \<and> \<not> cr then [CR] else []) @ ch # fst (Fix (ch = CR) b)"
  "snd (Fix cr (ch # b)) = snd (Fix (ch = CR) b)"
  by (simp_all add: case_prod_beta)

declare Fix.simps(2) [simp del]

lemma Fix_append:
  "fst (Fix cr (a @ b)) = fst (Fix cr a) @ fst (Fix (snd (Fix cr a)) b)"
  "snd (Fix cr (a @ b)) = snd (Fix (snd (Fix cr a)) b)"
  by (induction a arbitrary: cr) simp_all

lemma Fix_state: "snd (Fix cr b) = (if b = [] then cr else last b = CR)"
  by (induction b arbitrary: cr) auto

lemma Fix_Nil_iff [simp]: "fst (Fix cr b) = [] \<longleftrightarrow> b = []"
  by (cases b) auto

lemma Fix_last: "b \<noteq> [] \<Longrightarrow> last (fst (Fix cr b)) = last b"
proof (induction b arbitrary: cr)
  case (Cons c b)
  then show ?case by (cases "b = []") auto
qed simp

text \<open>The line ends of a fixed text are left alone.\<close>

fun fixed :: "bool \<Rightarrow> string \<Rightarrow> bool" where
  "fixed cr [] \<longleftrightarrow> True"
| "fixed cr (c # b) \<longleftrightarrow> (c = LF \<longrightarrow> cr) \<and> fixed (c = CR) b"

lemma fixed_Fix: "fixed cr b \<Longrightarrow> fst (Fix cr b) = b"
  by (induction b arbitrary: cr) auto

lemma Fix_fixed: "fixed cr (fst (Fix cr b))"
  by (induction b arbitrary: cr) auto

section \<open>The simple canonicalization\<close>

definition simple_CanonicalizeHeader :: "string \<Rightarrow> string" where
  "simple_CanonicalizeHeader s = s"

record simpleBody =
  sb_crlfBuf :: string
  sb_cr :: bool

definition simple_CanonicalizeBody :: simpleBody where
  "simple_CanonicalizeBody = \<lparr>sb_crlfBuf = [], sb_cr = False\<rparr>"

text \<open>The scan for the CRLF sequences at the end; end stays within the text.\<close>

fun crlf_end :: "string \<Rightarrow> nat \<Rightarrow> nat" where
  "crlf_end b (Suc (Suc n)) =
     (if b ! n = CR \<and> b ! Suc n = LF then crlf_end b n else Suc (Suc n))"
| "crlf_end b n = n"

definition simple_Write :: "string \<Rightarrow> simpleBody \<Rightarrow> string \<times> simpleBody" where
  "simple_Write b0 c =
     (let (b, cr) = Fix (sb_cr c) (sb_crlfBuf c @ b0);
          e0 = length b;
          e1 = (if 0 < e0 \<and> b ! (e0 - 1) = CR then e0 - 1 else e0);
          e2 = crlf_end b e1
      in (if 0 < e2 then take e2 b else [], \<lparr>sb_crlfBuf = drop e2 b, sb_cr = cr\<rparr>))"

definition simple_Close :: "simpleBody \<Rightarrow> string" where
  "simple_Close c =
     (if sb_crlfBuf c \<noteq> [] \<and> last (sb_crlfBuf c) = CR then sb_crlfBuf c else []) @ crlf"

text \<open>RFC 6376, 3.4.3: the empty lines at the end become one CRLF, which is added if missing.\<close>

fun strip_rev :: "string \<Rightarrow> string" where
  "strip_rev (a # b # s) = (if a = LF \<and> b = CR then strip_rev s else a # b # s)"
| "strip_rev s = s"

definition strip_crlfs :: "string \<Rightarrow> string" where
  "strip_crlfs b = rev (strip_rev (rev b))"

definition simple_body :: "string \<Rightarrow> string" where
  "simple_body b = strip_crlfs (fst (Fix False b)) @ crlf"

lemma strip_crlfs_short [simp]: "length b \<le> 1 \<Longrightarrow> strip_crlfs b = b"
  by (cases b) (simp_all add: strip_crlfs_def)

lemma crlf_end_strip: "n \<le> length b \<Longrightarrow> take (crlf_end b n) b = strip_crlfs (take n b)"
proof (induction b n rule: crlf_end.induct)
  case (1 b n)
  then have t: "take (Suc (Suc n)) b = take n b @ [b ! n, b ! Suc n]"
    by (simp add: take_Suc_conv_app_nth)
  show ?case
  proof (cases "b ! n = CR \<and> b ! Suc n = LF")
    case True
    with 1 t show ?thesis by (simp add: strip_crlfs_def)
  next
    case False
    then have "crlf_end b (Suc (Suc n)) = Suc (Suc n)" by auto
    with False t show ?thesis by (auto simp: strip_crlfs_def)
  qed
qed simp_all

lemma crlf_end_le: "crlf_end b n \<le> n"
  by (induction b n rule: crlf_end.induct) auto

lemma strip_crlfs_snoc [simp]: "strip_crlfs (a @ crlf) = strip_crlfs a"
  by (simp add: strip_crlfs_def)

lemma crlfs_Suc: "concat (replicate (Suc k) crlf) = concat (replicate k crlf) @ crlf"
  by (induction k) simp_all

lemma last_crlfs: "concat (replicate k crlf) = [] \<or> last (concat (replicate k crlf)) = LF"
  by (cases k) (simp, simp only: crlfs_Suc, simp)

lemma strip_crlfs_all [simp]: "strip_crlfs (a @ concat (replicate k crlf)) = strip_crlfs a"
proof (induction k)
  case (Suc k)
  have "a @ concat (replicate (Suc k) crlf) = (a @ concat (replicate k crlf)) @ crlf"
    by (simp only: crlfs_Suc append_assoc)
  then show ?case using Suc by (simp only: strip_crlfs_snoc)
qed simp

definition ends_crlf :: "string \<Rightarrow> bool" where
  "ends_crlf b \<longleftrightarrow> (\<exists>a. b = a @ crlf)"

lemma strip_rev_decomp: "\<exists>k. s = concat (replicate k [LF, CR]) @ strip_rev s"
proof (induction s rule: strip_rev.induct)
  case (1 a b s)
  then show ?case
  proof (cases "a = LF \<and> b = CR")
    case True
    with 1 obtain k where "s = concat (replicate k [LF, CR]) @ strip_rev s" by blast
    with True show ?thesis by (intro exI [of _ "Suc k"]) simp
  qed (auto intro: exI [of _ 0])
qed (auto intro: exI [of _ 0])

lemma rev_crlfs: "rev (concat (replicate k [LF, CR])) = concat (replicate k crlf)"
proof (induction k)
  case (Suc k)
  have "concat (replicate k crlf) @ crlf = crlf @ concat (replicate k crlf)" by (induction k) simp_all
  with Suc show ?case by simp
qed simp

lemma strip_crlfs_decomp: "\<exists>k. b = strip_crlfs b @ concat (replicate k crlf)"
proof -
  obtain k where "rev b = concat (replicate k [LF, CR]) @ strip_rev (rev b)"
    using strip_rev_decomp by blast
  then have "b = rev (strip_rev (rev b)) @ rev (concat (replicate k [LF, CR]))"
    by (metis rev_append rev_rev_ident)
  then show ?thesis by (auto simp: strip_crlfs_def rev_crlfs)
qed

lemma strip_crlfs_not_ends: "\<not> ends_crlf (strip_crlfs b)"
proof -
  have "strip_rev s \<noteq> LF # CR # t" for s t
    by (induction s rule: strip_rev.induct) auto
  then have "rev (strip_rev (rev b)) \<noteq> a @ crlf" for a
    by (metis append_Cons append_Nil rev_append rev_rev_ident rev_singleton_conv rev.simps(2))
  then show ?thesis by (auto simp: ends_crlf_def strip_crlfs_def)
qed

lemma strip_crlfs_id: "\<not> ends_crlf b \<Longrightarrow> strip_crlfs b = b"
proof -
  assume n: "\<not> ends_crlf b"
  obtain k where k: "b = strip_crlfs b @ concat (replicate k crlf)" using strip_crlfs_decomp by blast
  show ?thesis
  proof (cases k)
    case (Suc j)
    with k have "b = (strip_crlfs b @ concat (replicate j crlf)) @ crlf"
      by (simp only: crlfs_Suc append_assoc)
    with n show ?thesis unfolding ends_crlf_def by blast
  qed (use k in simp)
qed

definition cr_end :: "string \<Rightarrow> bool" where
  "cr_end b \<longleftrightarrow> b \<noteq> [] \<and> last b = CR"

definition simple_rep :: "simpleBody \<Rightarrow> string \<Rightarrow> string \<Rightarrow> bool" where
  "simple_rep c inp out \<longleftrightarrow>
     sb_cr c = snd (Fix False inp) \<and> fst (Fix False inp) = out @ sb_crlfBuf c \<and>
     (\<exists>k. sb_crlfBuf c = concat (replicate k crlf) @ (if sb_cr c then [CR] else [])) \<and>
     \<not> ends_crlf out \<and> (cr_end out \<longrightarrow> sb_crlfBuf c \<noteq> [])"

text \<open>One Write, on a buffer that the fixer leaves alone: the end of the line breaks is held back.\<close>

definition hold :: "string \<Rightarrow> string" where
  "hold b = strip_crlfs (if cr_end b then butlast b else b)"

lemma simple_Write_hold:
  assumes "Fix (sb_cr c) (sb_crlfBuf c @ b0) = (b, cr)"
  shows "simple_Write b0 c = (hold b, \<lparr>sb_crlfBuf = drop (length (hold b)) b, sb_cr = cr\<rparr>)"
    "\<exists>t. b = hold b @ t"
proof -
  define e1 where "e1 = (if 0 < length b \<and> b ! (length b - 1) = CR then length b - 1 else length b)"
  have e1: "e1 \<le> length b" "take e1 b = (if cr_end b then butlast b else b)"
    by (auto simp: e1_def cr_end_def last_conv_nth butlast_conv_take)
  have h: "hold b = take (crlf_end b e1) b" using crlf_end_strip [OF e1(1)] e1(2) by (simp add: hold_def)
  have l: "crlf_end b e1 \<le> length b" using crlf_end_le [of b e1] e1(1) by simp
  show "simple_Write b0 c = (hold b, \<lparr>sb_crlfBuf = drop (length (hold b)) b, sb_cr = cr\<rparr>)"
    unfolding simple_Write_def assms Let_def prod.case e1_def [symmetric]
    using l by (simp add: h min_def)
  show "\<exists>t. b = hold b @ t" unfolding h by (metis append_take_drop_id)
qed

lemma hold_rest: "\<exists>k. drop (length (hold b)) b = concat (replicate k crlf) @ (if cr_end b then [CR] else [])"
proof -
  let ?y = "if cr_end b then butlast b else b"
  obtain k where "?y = hold b @ concat (replicate k crlf)"
    using strip_crlfs_decomp [of ?y] by (auto simp: hold_def)
  moreover have "b = ?y @ (if cr_end b then [CR] else [])"
    by (auto simp: cr_end_def) (metis append_butlast_last_id)
  ultimately have "b = hold b @ concat (replicate k crlf) @ (if cr_end b then [CR] else [])" by simp
  then show ?thesis by (metis append_eq_conv_conj)
qed

text \<open>What is passed on neither ends in a CRLF nor, if nothing is held back, in a CR.\<close>

lemma hold_no_crlf:
  assumes "\<not> ends_crlf out" "cr_end out \<Longrightarrow> hd b = CR" "b = hold b @ t"
  shows "\<not> ends_crlf (out @ hold b)"
proof
  assume "ends_crlf (out @ hold b)"
  then obtain a where a: "out @ hold b = a @ crlf" by (auto simp: ends_crlf_def)
  have nz: "\<not> ends_crlf (hold b)" unfolding hold_def by (rule strip_crlfs_not_ends)
  consider "hold b = []" | x where "hold b = [x]" | z x y where "hold b = z @ [x, y]"
  proof (cases "hold b" rule: rev_cases)
    case (snoc ys y)
    then show thesis using that by (cases ys rule: rev_cases) auto
  qed (use that in simp)
  then show False
  proof cases
    case 1
    with a assms(1) show ?thesis by (auto simp: ends_crlf_def)
  next
    case 2
    with a have x: "x = LF" "out = a @ [CR]" by (auto simp: append_eq_append_conv2 append_eq_Cons_conv)
    then have "hd b = CR" using assms(2) by (simp add: cr_end_def)
    moreover have "hd (hold b @ t) = x" by (simp add: 2)
    then have "hd b = x" by (simp only: assms(3) [symmetric])
    ultimately show ?thesis using x(1) by simp
  next
    case 3
    with a have "x = CR" "y = LF" by auto
    with 3 nz show ?thesis by (auto simp: ends_crlf_def)
  qed
qed

lemma hold_all_no_cr:
  assumes "hold b = b" "b \<noteq> []"
  shows "\<not> cr_end b"
proof
  assume "cr_end b"
  with assms(1) have "strip_crlfs (butlast b) = b" by (simp add: hold_def)
  then obtain j where "butlast b = b @ concat (replicate j crlf)"
    using strip_crlfs_decomp [of "butlast b"] by auto
  then have "length (butlast b) \<ge> length b" by (metis le_add1 length_append)
  then have "length b \<le> length b - 1" by (simp only: length_butlast)
  moreover have "0 < length b" using assms(2) by simp
  ultimately show False by linarith
qed

lemma simple_rep_write:
  assumes rep: "simple_rep c inp out" and w: "simple_Write b0 c = (o', c')"
  shows "simple_rep c' (inp @ b0) (out @ o')"
proof -
  let ?buf = "sb_crlfBuf c"
  obtain b cr where b: "Fix (sb_cr c) (?buf @ b0) = (b, cr)" by (metis prod.exhaust)
  from rep obtain k where buf: "?buf = concat (replicate k crlf) @ (if sb_cr c then [CR] else [])"
    and f: "fst (Fix False inp) = out @ ?buf" and cr0: "sb_cr c = snd (Fix False inp)"
    and out: "\<not> ends_crlf out" "cr_end out \<longrightarrow> ?buf \<noteq> []"
    by (auto simp: simple_rep_def)
  have fx: "fixed x ?buf" for x unfolding buf by (induction k arbitrary: x) auto
  have st: "snd (Fix (sb_cr c) ?buf) = sb_cr c"
    using last_crlfs [of k] unfolding Fix_state buf by auto
  have b': "b = ?buf @ fst (Fix (sb_cr c) b0)" "cr = snd (Fix (sb_cr c) b0)"
    using Fix_append [of "sb_cr c" ?buf b0] fixed_Fix [OF fx] st b by simp_all
  have F: "fst (Fix False (inp @ b0)) = out @ b" "snd (Fix False (inp @ b0)) = cr"
    using Fix_append [of False inp b0] f cr0 b' by simp_all
  note h = simple_Write_hold [OF b]
  have o': "o' = hold b" "sb_crlfBuf c' = drop (length (hold b)) b" "sb_cr c' = cr"
    using w h(1) by auto
  have cre: "cr_end b = cr"
  proof (cases "inp @ b0 = []")
    case True
    with cr0 have "sb_cr c = False" by simp
    with True b buf f show ?thesis by (auto simp: cr_end_def)
  next
    case False
    show ?thesis
    proof (cases "b = []")
      case True
      with b have "b0 = []" "?buf = []" by (metis Fix_Nil_iff append_is_Nil_conv fst_conv)+
      with b buf True show ?thesis by (auto simp: cr_end_def)
    next
      case b_ne: False
      from F(1) False Fix_last [of "inp @ b0" False] b_ne have "last b = last (inp @ b0)" by simp
      moreover have "cr = (last (inp @ b0) = CR)" using F(2) False unfolding Fix_state by auto
      ultimately show ?thesis using b_ne by (simp add: cr_end_def)
    qed
  qed
  obtain t where "b = hold b @ t" using h(2) by blast
  then have "drop (length (hold b)) b = t" by (metis append_eq_conv_conj)
  with \<open>b = hold b @ t\<close> o'(2) have decomp: "b = hold b @ sb_crlfBuf c'" by simp
  have first: "?buf \<noteq> [] \<Longrightarrow> hd b = CR" unfolding b' using buf by (cases k) auto
  have "\<not> ends_crlf (out @ hold b)"
    using out first by (intro hold_no_crlf [OF _ _ decomp]) auto
  moreover have "cr_end (out @ hold b) \<longrightarrow> sb_crlfBuf c' \<noteq> []"
  proof (intro impI notI)
    assume e: "cr_end (out @ hold b)" and z: "sb_crlfBuf c' = []"
    from z decomp have hb: "hold b = b" by simp
    show False
    proof (cases "b = []")
      case True
      with hb e out(2) b' show ?thesis by (auto simp: cr_end_def)
    next
      case False
      with e hb hold_all_no_cr show ?thesis by (simp add: cr_end_def)
    qed
  qed
  ultimately show ?thesis
    using F o' decomp hold_rest [of b] cre unfolding simple_rep_def by auto
qed

lemma simple_rep_finish: "simple_rep c inp out \<Longrightarrow> out @ simple_Close c = simple_body inp"
proof -
  assume rep: "simple_rep c inp out"
  then obtain k where k: "sb_crlfBuf c = concat (replicate k crlf) @ (if sb_cr c then [CR] else [])"
    "fst (Fix False inp) = out @ sb_crlfBuf c" "\<not> ends_crlf out" by (auto simp: simple_rep_def)
  show ?thesis
  proof (cases "sb_cr c")
    case True
    then have "\<not> ends_crlf (out @ sb_crlfBuf c)" by (simp add: k(1) ends_crlf_def)
    with True k show ?thesis by (simp add: simple_Close_def simple_body_def strip_crlfs_id)
  next
    case False
    then have "strip_crlfs (out @ sb_crlfBuf c) = out" using k(1) strip_crlfs_id [OF k(3)] by simp
    with False k(1,2) last_crlfs [of k] show ?thesis
      by (auto simp: simple_Close_def simple_body_def)
  qed
qed

lemma simple_rep_start: "simple_rep simple_CanonicalizeBody [] []"
  by (simp add: simple_rep_def simple_CanonicalizeBody_def ends_crlf_def cr_end_def)

interpretation simple_stream: stream_transformer simple_CanonicalizeBody simple_Write simple_Close
  simple_rep simple_body
  by unfold_locales (auto intro: simple_rep_start simple_rep_write simple_rep_finish)

section \<open>The relaxed canonicalization\<close>

definition header_space :: "char \<Rightarrow> bool" where
  "header_space r \<longleftrightarrow> r = SP \<or> r = TAB \<or> r = LF \<or> r = CR"

definition relaxed_CanonicalizeHeader :: "string \<Rightarrow> string" where
  "relaxed_CanonicalizeHeader s =
     (let (k, v, ok) = go_cut s '':'' in
      if \<not> ok then trim_space (to_lower s) @ '':'' @ crlf
      else
        let k' = trim_space (to_lower k);
            v' = join [SP] (fields_by header_space [] v)
        in k' @ '':'' @ v' @ crlf)"

record relaxedBody =
  rb_crlfBuf :: string
  rb_wsp :: bool
  rb_written :: bool
  rb_cr :: bool

definition relaxed_CanonicalizeBody :: relaxedBody where
  "relaxed_CanonicalizeBody = \<lparr>rb_crlfBuf = [], rb_wsp = False, rb_written = False, rb_cr = False\<rparr>"

text \<open>One byte of the loop: what it appends to canonical, the CR and LF held back, and wsp.\<close>

definition relaxed_byte :: "char \<Rightarrow> string \<times> string \<times> bool \<Rightarrow> string \<times> string \<times> bool" where
  "relaxed_byte ch x =
     (let (canonical, crlfBuf, wsp) = x in
      if ch = SP \<or> ch = TAB then (canonical, crlfBuf, True)
      else if ch = CR \<or> ch = LF then (canonical, crlfBuf @ [ch], False)
      else (canonical @ crlfBuf @ (if wsp then [SP] else []) @ [ch], [], False))"

definition relaxed_Write :: "string \<Rightarrow> relaxedBody \<Rightarrow> string \<times> relaxedBody" where
  "relaxed_Write b0 c =
     (let (b, cr) = Fix (rb_cr c) b0;
          (canonical, crlfBuf, wsp) = fold relaxed_byte b ([], rb_crlfBuf c, rb_wsp c)
      in (canonical, \<lparr>rb_crlfBuf = crlfBuf, rb_wsp = wsp,
           rb_written = (rb_written c \<or> canonical \<noteq> []), rb_cr = cr\<rparr>))"

definition relaxed_Close :: "relaxedBody \<Rightarrow> string" where
  "relaxed_Close c = (if rb_written c then crlf else [])"

text \<open>The whole body at once.\<close>

definition relaxed_body :: "string \<Rightarrow> string" where
  "relaxed_body b =
     (let (out, _) = fold relaxed_byte (fst (Fix False b)) ([], [], False)
      in if out = [] then [] else out @ crlf)"

definition relaxed_rep :: "relaxedBody \<Rightarrow> string \<Rightarrow> string \<Rightarrow> bool" where
  "relaxed_rep c inp out \<longleftrightarrow>
     rb_cr c = snd (Fix False inp) \<and> rb_written c = (out \<noteq> []) \<and>
     fold relaxed_byte (fst (Fix False inp)) ([], [], False) = (out, rb_crlfBuf c, rb_wsp c)"

lemma relaxed_byte_front:
  "relaxed_byte ch (p @ canonical, buf, wsp) =
     (case relaxed_byte ch (canonical, buf, wsp) of (c, x) \<Rightarrow> (p @ c, x))"
  by (simp add: relaxed_byte_def)

lemma relaxed_fold_front:
  "fold relaxed_byte b (p @ canonical, buf, wsp) =
     (case fold relaxed_byte b (canonical, buf, wsp) of (c, x) \<Rightarrow> (p @ c, x))"
proof (induction b arbitrary: canonical buf wsp)
  case (Cons ch b)
  obtain c1 b1 w1 where "relaxed_byte ch (canonical, buf, wsp) = (c1, b1, w1)" by (metis prod_cases3)
  then show ?case using Cons [of c1 b1 w1] relaxed_byte_front [of ch p canonical buf wsp] by simp
qed simp

lemma relaxed_rep_write:
  assumes "relaxed_rep c inp out" "relaxed_Write b0 c = (o', c')"
  shows "relaxed_rep c' (inp @ b0) (out @ o')"
proof -
  obtain b cr where b: "Fix (rb_cr c) b0 = (b, cr)" by (metis prod.exhaust)
  obtain can buf wsp where f: "fold relaxed_byte b ([], rb_crlfBuf c, rb_wsp c) = (can, buf, wsp)"
    by (metis prod_cases3)
  have "fold relaxed_byte b (out, rb_crlfBuf c, rb_wsp c) = (out @ can, buf, wsp)"
    using relaxed_fold_front [of b out "[]" "rb_crlfBuf c" "rb_wsp c"] f by simp
  then show ?thesis using assms b f Fix_append [of False inp b0]
    by (auto simp: relaxed_rep_def relaxed_Write_def)
qed

interpretation relaxed_stream: stream_transformer relaxed_CanonicalizeBody relaxed_Write relaxed_Close
  relaxed_rep relaxed_body
proof
  show "relaxed_rep relaxed_CanonicalizeBody [] []"
    by (simp add: relaxed_rep_def relaxed_CanonicalizeBody_def)
next
  show "relaxed_rep c inp out \<Longrightarrow> out @ relaxed_Close c = relaxed_body inp" for c inp out
    by (auto simp: relaxed_rep_def relaxed_Close_def relaxed_body_def)
qed (rule relaxed_rep_write)

section \<open>The writer that keeps a prefix\<close>

text \<open>A Write returns a count and passes bytes on; the writer behind it takes all it is given.\<close>

definition limited_Write :: "string \<Rightarrow> int \<Rightarrow> (nat \<times> string) \<times> int" where
  "limited_Write b N =
     (if N \<le> 0 then ((length b, []), N)
      else
        let (b', skipped) = (if int (length b) > N then (take (nat N) b, int (length (take (nat N) b)) - N)
                             else (b, 0));
            n = length b'
        in ((nat (int n + skipped), b'), N - int n))"

interpretation limited_stream: stream_transformer n "\<lambda>b N. (snd (fst (limited_Write b N)), snd (limited_Write b N))"
  "\<lambda>_. []" "\<lambda>N inp out. out = take (nat n) inp \<and> N = (if n \<le> 0 then n else n - int (length out))"
  "take (nat n)" for n :: int
proof
  fix N N' :: int and inp out b o' :: string
  assume r: "out = take (nat n) inp \<and> N = (if n \<le> 0 then n else n - int (length out))"
    and "(snd (fst (limited_Write b N)), snd (limited_Write b N)) = (o', N')"
  then have w: "o' = snd (fst (limited_Write b N))" "N' = snd (limited_Write b N)" by auto
  show "out @ o' = take (nat n) (inp @ b) \<and> N' = (if n \<le> 0 then n else n - int (length (out @ o')))"
  proof (cases "N \<le> 0")
    case True
    then show ?thesis using r w by (auto simp: limited_Write_def min_def split: if_splits)
  next
    case False
    then have "out = inp" "nat N = nat n - length inp" "0 < n" using r by (auto simp: min_def split: if_splits)
    then show ?thesis using False r w by (auto simp: limited_Write_def Let_def min_def split: if_splits)
  qed
qed auto

section \<open>Properties\<close>

text \<open>
  C30: The body canonicalizers do not depend on how the body is cut into writes, also not inside a
  line end: whatever the pieces, what the simple canonicalizer has passed on when it is closed is
  the simple canonical form of the whole body, and the relaxed one likewise; and a limited writer
  passes on exactly the first n bytes of what it is given in all.
\<close>

theorem canonicalizers_streaming:
  "(case simple_stream.write_all bs simple_CanonicalizeBody of (out, c) \<Rightarrow> out @ simple_Close c) =
     simple_body (concat bs)
   \<and> (case relaxed_stream.write_all bs relaxed_CanonicalizeBody of (out, c) \<Rightarrow> out @ relaxed_Close c) =
     relaxed_body (concat bs)
   \<and> fst (limited_stream.write_all bs n) = take (nat n) (concat bs)"
proof (intro conjI)
  show "(case simple_stream.write_all bs simple_CanonicalizeBody of (out, c) \<Rightarrow> out @ simple_Close c) =
     simple_body (concat bs)"
  proof -
    obtain out c where "simple_stream.write_all bs simple_CanonicalizeBody = (out, c)" by (metis prod.exhaust)
    from this simple_stream.stream_correct [OF this] show ?thesis by simp
  qed
  show "(case relaxed_stream.write_all bs relaxed_CanonicalizeBody of (out, c) \<Rightarrow> out @ relaxed_Close c) =
     relaxed_body (concat bs)"
  proof -
    obtain out c where "relaxed_stream.write_all bs relaxed_CanonicalizeBody = (out, c)" by (metis prod.exhaust)
    from this relaxed_stream.stream_correct [OF this] show ?thesis by simp
  qed
  obtain out N where "limited_stream.write_all bs n = (out, N)"
    by (cases "limited_stream.write_all bs n")
  from this limited_stream.stream_correct [OF this]
  show "fst (limited_stream.write_all bs n) = take (nat n) (concat bs)" by simp
qed


text \<open>RFC 6376, 3.4.4, on lines: runs of white space become one space, none is left at the end.\<close>

fun relax_line :: "bool \<Rightarrow> string \<Rightarrow> string" where
  "relax_line wsp [] = []"
| "relax_line wsp (c # l) =
     (if c = SP \<or> c = TAB then relax_line True l
      else (if wsp then [SP] else []) @ c # relax_line False l)"

definition drop_empty_tail :: "string list \<Rightarrow> string list" where
  "drop_empty_tail ls = rev (dropWhile (\<lambda>l. l = []) (rev ls))"

definition terminated :: "string list \<Rightarrow> string" where
  "terminated ls = concat (map (\<lambda>l. l @ crlf) ls)"

definition no_break :: "string \<Rightarrow> bool" where
  "no_break l \<longleftrightarrow> CR \<notin> set l \<and> LF \<notin> set l"

lemma relax_line_Nil: "relax_line w l = [] \<Longrightarrow> l \<noteq> [] \<Longrightarrow> last l = SP \<or> last l = TAB"
  by (induction w l rule: relax_line.induct) (auto split: if_splits)

lemma relaxed_fold_line:
  "no_break l \<Longrightarrow> fold relaxed_byte l (out, buf, wsp) =
     (if relax_line wsp l = [] then (out, buf, wsp \<or> l \<noteq> [])
      else (out @ buf @ relax_line wsp l, [], last l = SP \<or> last l = TAB))"
proof (induction l arbitrary: out buf wsp)
  case (Cons c l)
  then have nb: "no_break l" "c \<noteq> CR" "c \<noteq> LF" by (auto simp: no_break_def)
  note r = relax_line_Nil [of False l] relax_line_Nil [of True l]
  show ?case using Cons.IH [OF nb(1)] nb r by (auto simp: relaxed_byte_def)
qed simp

lemma Fix_line: "no_break l \<Longrightarrow> Fix cr l = (l, cr \<and> l = [])"
  by (induction l arbitrary: cr) (auto simp: no_break_def prod_eq_iff)

text \<open>The lines of a body, each ended by CRLF or by LF alone.\<close>

lemma Fix_lines:
  "list_all no_break ls \<Longrightarrow> fst (Fix False (concat (map (\<lambda>l. l @ [LF]) ls))) = terminated ls
   \<and> fst (Fix False (terminated ls)) = terminated ls"
  by (induction ls) (simp_all add: terminated_def Fix_append Fix_line)

lemma terminated_snoc [simp]: "terminated (ls @ [l]) = terminated ls @ l @ crlf"
  by (simp add: terminated_def)

lemma drop_empty_tail_snoc [simp]:
  "drop_empty_tail (ls @ [l]) = (if l = [] then drop_empty_tail ls else ls @ [l])"
  by (simp add: drop_empty_tail_def)

lemma relaxed_fold_lines:
  "list_all no_break ls \<Longrightarrow> \<exists>out buf.
     fold relaxed_byte (terminated ls) ([], [], False) = (out, buf, False) \<and>
     out @ buf = terminated (map (relax_line False) ls) \<and>
     (if out = [] then drop_empty_tail (map (relax_line False) ls) = []
      else out @ crlf = terminated (drop_empty_tail (map (relax_line False) ls)))"
proof (induction ls rule: rev_induct)
  case Nil
  then show ?case by (simp add: terminated_def drop_empty_tail_def)
next
  case (snoc l ls)
  then have nb: "no_break l" by simp
  from snoc obtain out buf where ih: "fold relaxed_byte (terminated ls) ([], [], False) = (out, buf, False)"
    "out @ buf = terminated (map (relax_line False) ls)"
    "if out = [] then drop_empty_tail (map (relax_line False) ls) = []
      else out @ crlf = terminated (drop_empty_tail (map (relax_line False) ls))" by auto
  have crlf: "fold relaxed_byte crlf (o', b', w) = (o', b' @ crlf, False)" for o' b' w
    by (simp add: relaxed_byte_def)
  let ?r = "relax_line False l"
  show ?case
  proof (cases "?r = []")
    case True
    then have "fold relaxed_byte (terminated (ls @ [l])) ([], [], False) = (out, buf @ crlf, False)"
      using ih(1) relaxed_fold_line [OF nb, of out buf False] crlf by simp
    with True ih(2,3) show ?thesis by (intro exI [of _ out] exI [of _ "buf @ crlf"]) simp
  next
    case False
    then have "fold relaxed_byte (terminated (ls @ [l])) ([], [], False) = (out @ buf @ ?r, crlf, False)"
      using ih(1) relaxed_fold_line [OF nb, of out buf False] crlf by simp
    with False ih(2) show ?thesis
      by (intro exI [of _ "out @ buf @ ?r"] exI [of _ crlf]) (simp flip: append_assoc)
  qed
qed

text \<open>
  C32: The relaxed canonical form of a body of lines is the one of RFC 6376 3.4.4: in every line the
  white space at the end is gone and every other run of it is one space, the empty lines at the end
  are gone, and each remaining line ends with CRLF; a body of blank lines gives nothing. Bare LFs
  at the line ends give the same form as CRLFs.
\<close>

theorem relaxed_body_correct:
  assumes "list_all no_break ls"
  shows "relaxed_body (terminated ls) = terminated (drop_empty_tail (map (relax_line False) ls))
    \<and> relaxed_body (concat (map (\<lambda>l. l @ [LF]) ls)) = relaxed_body (terminated ls)"
proof -
  obtain out buf where f: "fold relaxed_byte (terminated ls) ([], [], False) = (out, buf, False)"
    "if out = [] then drop_empty_tail (map (relax_line False) ls) = []
      else out @ crlf = terminated (drop_empty_tail (map (relax_line False) ls))"
    using relaxed_fold_lines [OF assms] by auto
  have body: "relaxed_body (terminated ls) = terminated (drop_empty_tail (map (relax_line False) ls))"
    using f conjunct2 [OF Fix_lines [OF assms]]
    by (cases "out = []") (simp_all add: relaxed_body_def terminated_def [of "[]"])
  moreover have "relaxed_body (concat (map (\<lambda>l. l @ [LF]) ls)) = relaxed_body (terminated ls)"
    using Fix_lines [OF assms] by (simp add: relaxed_body_def)
  ultimately show ?thesis by blast
qed

theorem relaxed_body_correct_witness:
  "relaxed_body (terminated [''a  b '', [TAB], ''c'', '' '', []]) = terminated [''a b'', [], ''c'']"
proof -
  have "list_all no_break [''a  b '', [TAB], ''c'', '' '', []]" by (simp add: no_break_def)
  from relaxed_body_correct [OF this] show ?thesis by (simp add: drop_empty_tail_def)
qed

section \<open>Header fields\<close>

lemma fields_by_words:
  "list_all (\<lambda>c. \<not> f c) acc \<Longrightarrow> w \<in> set (fields_by f acc s) \<Longrightarrow> w \<noteq> [] \<and> list_all (\<lambda>c. \<not> f c) w"
proof (induction s arbitrary: acc)
  case (Cons c s)
  show ?case
  proof (cases "f c")
    case True
    then consider "acc \<noteq> []" "w = rev acc" | "w \<in> set (fields_by f [] s)"
      using Cons.prems(2) by (cases "acc = []") auto
    then show ?thesis
    proof cases
      case 1
      with Cons.prems(1) show ?thesis by simp
    next
      case 2
      from Cons.IH [OF _ this] show ?thesis by simp
    qed
  next
    case False
    with Cons.prems Cons.IH [of "c # acc"] show ?thesis by simp
  qed
qed (simp split: if_splits)

lemma fields_by_word:
  "list_all (\<lambda>c. \<not> f c) w \<Longrightarrow> fields_by f acc (w @ s) = fields_by f (rev w @ acc) s"
  by (induction w arbitrary: acc) auto

lemma fields_by_join:
  assumes "f SP" "list_all f t"
  shows "list_all (\<lambda>w. w \<noteq> [] \<and> list_all (\<lambda>c. \<not> f c) w) ws \<Longrightarrow> fields_by f [] (join [SP] ws @ t) = ws"
proof (induction "[SP]" ws rule: join.induct)
  case 1
  show ?case using assms(2) by (induction t) auto
next
  case (2 x)
  have "acc \<noteq> [] \<Longrightarrow> fields_by f acc t = [rev acc]" for acc
    using assms(2)
  proof (induction t arbitrary: acc)
    case (Cons c t)
    have "fields_by f [] t = []" using Cons.prems(2) by (induction t) auto
    with Cons show ?case by simp
  qed simp
  with 2 show ?case by (simp add: fields_by_word)
next
  case (3 x y xs)
  then show ?case using assms(1) by (simp add: fields_by_word)
qed

lemma is_ascii_to_lower: "is_ascii s \<Longrightarrow> is_ascii (to_lower s)"
  by (simp add: to_lower_ascii) (simp add: is_ascii_def)

lemma to_lower_trim_idem:
  assumes "is_ascii s"
  shows "trim_space (to_lower (trim_space (to_lower s))) = trim_space (to_lower s)"
proof -
  let ?t = "trim_space (to_lower s)"
  have a: "is_ascii (to_lower s)" using assms by (rule is_ascii_to_lower)
  have "set ?t \<subseteq> lower_char ` set s" using trim_space_subset [of "to_lower s"] assms
    by (simp add: to_lower_ascii)
  then have "map lower_char ?t = ?t" by (intro map_idI) auto
  then have "to_lower ?t = ?t" using is_ascii_trim_space [OF a] by (simp add: to_lower_ascii)
  then show ?thesis using trim_space_idem [OF a] by simp
qed

lemma lower_char_colon: "lower_char c = CHR '':'' \<longleftrightarrow> c = CHR '':''"
proof -
  have "byte (CHR '':'') = (58::nat)" by simp
  moreover have "byte (lower_char c) \<noteq> (58::nat) \<and> byte c \<noteq> (58::nat)" if "is_upper c"
    using that by (auto simp: lower_char_def is_upper_def)
  ultimately have "lower_char c \<noteq> CHR '':'' \<and> c \<noteq> CHR '':''" if "is_upper c"
    using that by metis
  then show ?thesis by (cases "is_upper c") (auto simp: lower_char_def)
qed



end
