(* ===== verification/Dkim_Header.thy ===== *)
theory Dkim_Header imports Textproto Go_Dict Dkim_Canonical begin

text \<open>
  middleware/authres/dkim/header.go: reading the header of a message, the tag lists of DKIM
  (parse and format, with the folding of the signature value) and the picker that finds the
  fields a signature covers. A message is read from memory: its bytes and the error behind
  them, EOF for a complete one.
\<close>

section \<open>Reading a header\<close>

definition headerFieldName :: string where
  "headerFieldName = ''DKIM-Signature''"

type_synonym header = "string list"

text \<open>
  textproto's ReadLine on bytes in memory: what remains after the last LF is a line too, with its
  CR. ReadLine_in_memory relates it to the ReadLine of the connection reader.
\<close>

definition line_of :: "string \<Rightarrow> string \<times> string" where
  "line_of s = (case cut_at [LF] s of Some (l, rest) \<Rightarrow> (chomp_cr l, rest) | None \<Rightarrow> (s, []))"

lemma line_of_shorter: "s \<noteq> [] \<Longrightarrow> line_of s = (l, s') \<Longrightarrow> length s' < length s"
  by (auto simp: line_of_def split: option.splits dest: cut_at_Some)

function readHeader_loop :: "ioerr \<Rightarrow> header \<Rightarrow> string \<Rightarrow> (string + header) \<times> string" where
  "readHeader_loop e h s =
     (if s = [] then (Inl (''failed to read header: '' @ ioerr_Error e), [])
      else let (l, s') = line_of s in
        if l = [] then (Inr h, s')
        else if h \<noteq> [] \<and> (hd l = SP \<or> hd l = TAB)
        then readHeader_loop e (butlast h @ [last h @ l @ crlf]) s'
        else readHeader_loop e (h @ [l @ crlf]) s')"
  by pat_completeness auto
termination
  by (relation "measure (\<lambda>(e, h, s). length s)") (auto dest: line_of_shorter [OF _ sym])

declare readHeader_loop.simps [simp del]

definition readHeader :: "ioerr \<Rightarrow> string \<Rightarrow> (string + header) \<times> string" where
  "readHeader e s = readHeader_loop e [] s"

definition writeHeader :: "header \<Rightarrow> string" where
  "writeHeader h = concat h @ crlf"

lemma line_of_crlf [simp]: "LF \<notin> set l \<Longrightarrow> line_of (l @ CR # LF # s) = (l, s)"
  using cut_at_char [of LF "l @ [CR]" s] by (simp add: line_of_def)

lemma ReadLine_in_memory:
  assumes "settled r" "length (buffered r) \<le> bufsize" "avail r = s" "LF \<in> set s"
  shows "\<exists>r'. ReadLine r = (Inr (fst (line_of s)), r') \<and> avail r' = snd (line_of s)"
proof -
  from assms(4) obtain l rest where s: "s = l @ LF # rest" "LF \<notin> set l" by (meson split_list_first)
  then have "line_of s = (chomp_cr l, rest)" by (simp add: line_of_def cut_at_char)
  with ReadLine_line [OF assms(1,2)] s assms(3) show ?thesis by fastforce
qed

section \<open>Fields\<close>

definition parseHeaderField :: "string \<Rightarrow> string \<times> string" where
  "parseHeaderField s = (case go_cut s '':'' of (key, val, _) \<Rightarrow> (trim_space key, trim_space val))"

text \<open>bytes.Buffer handed out in pieces of 75, joined by a line end and a space.\<close>

function pieces75 :: "string \<Rightarrow> string list" where
  "pieces75 s = (if s = [] then [] else take 75 s # pieces75 (drop 75 s))"
  by pat_completeness auto
termination by (relation "measure length") auto

declare pieces75.simps [simp del]

definition foldHeaderField :: "string \<Rightarrow> string" where
  "foldHeaderField kv = join (crlf @ [SP]) (pieces75 kv) @ crlf"

section \<open>Tag lists\<close>

fun parseHeaderParams_loop :: "dict \<Rightarrow> string list \<Rightarrow> string + dict" where
  "parseHeaderParams_loop params [] = Inr params"
| "parseHeaderParams_loop params (s # ss) =
     (case go_cut s ''='' of (key, val, ok) \<Rightarrow>
        if \<not> ok
        then (if trim_space s = [] then parseHeaderParams_loop params ss
              else Inl ''dkim: malformed header params'')
        else if map_of params (trim_space key) \<noteq> None then Inl ''dkim: duplicate tag name''
        else parseHeaderParams_loop (dict_put (trim_space key) (trim_space val) params) ss)"

definition parseHeaderParams :: "string \<Rightarrow> string + dict" where
  "parseHeaderParams s = parseHeaderParams_loop [] (split_on CHR '';'' s)"

definition sortParams :: "dict \<Rightarrow> string list \<times> string \<times> bool" where
  "sortParams params =
     (sort (filter (\<lambda>k. k \<noteq> ''b'') (dict_keys params)),
      case map_of params ''b'' of Some v \<Rightarrow> (v, True) | None \<Rightarrow> ([], False))"

text \<open>The line being filled and what has been written before it.\<close>

fun formatHeaderParams_loop :: "dict \<Rightarrow> string list \<Rightarrow> string \<Rightarrow> string \<Rightarrow> string \<times> string" where
  "formatHeaderParams_loop params [] s line = (s, line)"
| "formatHeaderParams_loop params (k # ks) s line =
     (let v = dict_get params k;
          nextLength = 3 + length line + length v + length k;
          (s', line') = (if 75 < nextLength then (s @ line @ crlf, []) else (s, line))
      in formatHeaderParams_loop params ks s' (line' @ '' '' @ k @ ''='' @ v @ '';''))"

definition formatHeaderParams :: "string \<Rightarrow> dict \<Rightarrow> string" where
  "formatHeaderParams name params =
     (let (keys, bvalue, bfound) = sortParams params;
          (s0, line) = formatHeaderParams_loop params keys (name @ '':'') [];
          s = (if line \<noteq> [] then s0 @ line else s0)
      in if bfound then s @ crlf @ foldHeaderField ('' b='' @ bvalue) else s)"

text \<open>stripWhitespace of verify.go: strings.Map that drops the white space.\<close>

function stripWhitespace :: "string \<Rightarrow> string" where
  "stripWhitespace s =
     (if s = [] then []
      else if space_width s = 0 then hd s # stripWhitespace (tl s)
      else stripWhitespace (drop (space_width s) s))"
  by pat_completeness auto
termination by (relation "measure length") auto

declare stripWhitespace.simps [simp del]

section \<open>Picking fields\<close>

record headerPicker =
  hp_h :: header
  hp_picked :: "(string \<times> nat) list"

definition newHeaderPicker :: "header \<Rightarrow> headerPicker" where
  "newHeaderPicker h = \<lparr>hp_h = h, hp_picked = []\<rparr>"

definition picked_at :: "headerPicker \<Rightarrow> string \<Rightarrow> nat" where
  "picked_at p key = (case map_of (hp_picked p) key of Some n \<Rightarrow> n | None \<Rightarrow> 0)"

text \<open>The scan from the last field upwards; the fields are given in reverse.\<close>

fun pick_scan :: "string \<Rightarrow> nat \<Rightarrow> string list \<Rightarrow> string option" where
  "pick_scan key at [] = None"
| "pick_scan key at (kv # kvs) =
     (if \<not> equal_fold (fst (parseHeaderField kv)) key then pick_scan key at kvs
      else if at = 0 then Some kv
      else pick_scan key (at - 1) kvs)"

definition Pick :: "string \<Rightarrow> headerPicker \<Rightarrow> string \<times> headerPicker" where
  "Pick key0 p =
     (let key = to_lower key0; at = picked_at p key in
      case pick_scan key at (rev (hp_h p)) of
        Some kv \<Rightarrow> (kv, p\<lparr>hp_picked := AList.update key (Suc at) (hp_picked p)\<rparr>)
      | None \<Rightarrow> ([], p))"

section \<open>Reading what was written\<close>

text \<open>A field as its first line and its continuation lines, and when a line can be either.\<close>

definition field_text :: "string list \<Rightarrow> string" where
  "field_text ls = concat (map (\<lambda>l. l @ crlf) ls)"

definition field_ok :: "string list \<Rightarrow> bool" where
  "field_ok ls \<longleftrightarrow> ls \<noteq> [] \<and> (\<forall>l \<in> set ls. l \<noteq> [] \<and> LF \<notin> set l) \<and>
     hd (hd ls) \<notin> {SP, TAB} \<and> (\<forall>l \<in> set (tl ls). hd l \<in> {SP, TAB})"

lemma readHeader_loop_end [simp]: "readHeader_loop e h (CR # LF # s) = (Inr h, s)"
  using line_of_crlf [of "[]" s] by (simp add: readHeader_loop.simps)

lemma readHeader_loop_line:
  "l \<noteq> [] \<Longrightarrow> LF \<notin> set l \<Longrightarrow> readHeader_loop e h (l @ CR # LF # s) =
     readHeader_loop e (if h \<noteq> [] \<and> hd l \<in> {SP, TAB} then butlast h @ [last h @ l @ crlf]
                        else h @ [l @ crlf]) s"
  by (subst readHeader_loop.simps) auto

lemma readHeader_loop_conts:
  "(\<forall>l \<in> set ls. l \<noteq> [] \<and> LF \<notin> set l \<and> hd l \<in> {SP, TAB}) \<Longrightarrow>
     readHeader_loop e (h @ [f]) (field_text ls @ s) = readHeader_loop e (h @ [f @ field_text ls]) s"
  by (induction ls arbitrary: f) (simp_all add: field_text_def readHeader_loop_line)

lemma readHeader_loop_field:
  assumes "field_ok ls"
  shows "readHeader_loop e h (field_text ls @ s) = readHeader_loop e (h @ [field_text ls]) s"
proof -
  obtain l ls' where ls: "ls = l # ls'" using assms by (cases ls) (auto simp: field_ok_def)
  have l: "l \<noteq> []" "LF \<notin> set l" "hd l \<notin> {SP, TAB}"
    and c: "\<forall>l \<in> set ls'. l \<noteq> [] \<and> LF \<notin> set l \<and> hd l \<in> {SP, TAB}"
    using assms by (auto simp: field_ok_def ls)
  have "readHeader_loop e h (field_text ls @ s) = readHeader_loop e (h @ [l @ crlf]) (field_text ls' @ s)"
    using l by (simp add: ls field_text_def readHeader_loop_line)
  also have "\<dots> = readHeader_loop e (h @ [(l @ crlf) @ field_text ls']) s"
    by (rule readHeader_loop_conts [OF c])
  finally show ?thesis by (simp add: ls field_text_def)
qed

lemma readHeader_loop_fields:
  "(\<forall>ls \<in> set fs. field_ok ls) \<Longrightarrow>
     readHeader_loop e h (concat (map field_text fs) @ s) = readHeader_loop e (h @ map field_text fs) s"
  by (induction fs arbitrary: h) (simp_all add: readHeader_loop_field)

text \<open>A text whose line ends are all CRLF is the header that is read from it and the rest.\<close>

lemma line_of_fixed:
  assumes "fixed False s" "LF \<in> set s"
  shows "s = fst (line_of s) @ CR # LF # snd (line_of s) \<and> fixed False (snd (line_of s))"
proof -
  from assms(2) obtain l rest where s: "s = l @ LF # rest" "LF \<notin> set l" by (meson split_list_first)
  have "fixed cr (l @ LF # rest) \<Longrightarrow> LF \<notin> set l \<Longrightarrow>
      fixed False rest \<and> (if l = [] then cr else last l = CR)" for cr
    by (induction l arbitrary: cr) auto
  from this [of False] s assms(1) have "fixed False rest" "l \<noteq> []" "last l = CR"
    by (auto split: if_splits)
  moreover from this have "l = butlast l @ [CR]" by (metis append_butlast_last_id)
  moreover have "line_of s = (chomp_cr l, rest)" using s by (simp add: line_of_def cut_at_char)
  ultimately show ?thesis using s(1) by (simp add: chomp_cr_def)
qed

lemma readHeader_loop_text:
  "readHeader_loop e h s = (Inr h', rest) \<Longrightarrow> fixed False s \<Longrightarrow> concat h' @ crlf @ rest = concat h @ s"
proof (induction e h s rule: readHeader_loop.induct)
  case (1 e h s)
  obtain l s' where l: "line_of s = (l, s')" by (metis prod.exhaust)
  have ne: "s \<noteq> []" using "1.prems"(1) by (auto simp: readHeader_loop.simps)
  show ?case
  proof (cases "LF \<in> set s")
    case False
    then have "l = s" "s' = []" using l by (auto simp: line_of_def cut_at_char_None)
    with ne "1.prems"(1) l show ?thesis
      by (auto simp: readHeader_loop.simps [of e h s] readHeader_loop.simps [of e _ "[]"] split: if_splits)
  next
    case True
    from line_of_fixed [OF "1.prems"(2) this] l have s: "s = l @ CR # LF # s'" "fixed False s'" by auto
    show ?thesis
    proof (cases "l = []")
      case True
      with "1.prems"(1) s l ne show ?thesis by (simp add: readHeader_loop.simps [of e h s])
    next
      case lne: False
      show ?thesis
      proof (cases "h \<noteq> [] \<and> (hd l = SP \<or> hd l = TAB)")
        case True
        then have "concat (butlast h) @ last h = concat h"
          by (metis append_butlast_last_id concat.simps concat_append self_append_conv)
        moreover have "readHeader_loop e h s = readHeader_loop e (butlast h @ [last h @ l @ crlf]) s'"
          using True ne lne l by (simp add: readHeader_loop.simps [of e h s])
        ultimately show ?thesis
          using "1.IH"(1) [OF ne l [symmetric] refl lne True _ s(2)] "1.prems"(1) s(1) by simp
      next
        case False
        then have "readHeader_loop e h s = readHeader_loop e (h @ [l @ crlf]) s'"
          using ne lne l by (auto simp: readHeader_loop.simps [of e h s])
        then show ?thesis
          using "1.IH"(2) [OF ne l [symmetric] refl lne False _ s(2)] "1.prems"(1) s(1) by simp
      qed
    qed
  qed
qed

text \<open>
  C35: writeHeader and readHeader are inverse to each other. The fields written are the fields
  read, with their continuation lines, and the body behind them is left alone; and a message with
  CRLF line ends is the header read from it, written again, followed by what was left.
\<close>

theorem header_roundtrip:
  "((\<forall>ls \<in> set fs. field_ok ls) \<longrightarrow>
      readHeader e (writeHeader (map field_text fs) @ body) = (Inr (map field_text fs), body)) \<and>
   (fixed False s \<longrightarrow> readHeader e s = (Inr h, rest) \<longrightarrow> writeHeader h @ rest = s)"
  using readHeader_loop_fields [of fs e "[]" "crlf @ body"] readHeader_loop_text [of e "[]" s h rest]
  by (auto simp: readHeader_def writeHeader_def)

definition w_fields :: "string list list" where
  "w_fields = [[''From: a'', '' b''], [''To: c'']]"

lemma header_roundtrip_witness:
  "readHeader EOF (writeHeader (map field_text w_fields) @ ''hi'') = (Inr (map field_text w_fields), ''hi'') \<and>
   writeHeader (map field_text w_fields) @ ''hi'' = ''From: a'' @ crlf @ '' b'' @ crlf @ ''To: c'' @ crlf @ crlf @ ''hi''"
proof -
  have "\<forall>ls \<in> set w_fields. field_ok ls" by code_simp
  moreover have "fixed False (writeHeader (map field_text w_fields) @ ''hi'')" by code_simp
  ultimately show ?thesis
    using header_roundtrip [of w_fields EOF "''hi''"
      "writeHeader (map field_text w_fields) @ ''hi''" "map field_text w_fields" "''hi''"]
    by (simp add: writeHeader_def field_text_def w_fields_def)
qed

section \<open>Picking in order\<close>

definition fields_named :: "header \<Rightarrow> string \<Rightarrow> string list" where
  "fields_named h key = filter (\<lambda>kv. equal_fold (fst (parseHeaderField kv)) key) (rev h)"

text \<open>A sequence of picks with one picker.\<close>

fun Picks :: "string list \<Rightarrow> headerPicker \<Rightarrow> string list \<times> headerPicker" where
  "Picks [] p = ([], p)"
| "Picks (k # ks) p =
     (let (kv, p') = Pick k p; (kvs, p'') = Picks ks p' in (kv # kvs, p''))"

definition nth_field :: "header \<Rightarrow> string \<Rightarrow> nat \<Rightarrow> string" where
  "nth_field h key n = (if n < length (fields_named h key) then fields_named h key ! n else [])"

lemma pick_scan_nth:
  "pick_scan key at kvs =
     (let ms = filter (\<lambda>kv. equal_fold (fst (parseHeaderField kv)) key) kvs
      in if at < length ms then Some (ms ! at) else None)"
proof (induction key at kvs rule: pick_scan.induct)
  case (2 key at kv kvs)
  then show ?case by (cases at) (auto simp: Let_def)
qed simp

text \<open>What a picker has handed out of each key, and no more than there is.\<close>

definition picker_at :: "header \<Rightarrow> (string \<Rightarrow> nat) \<Rightarrow> headerPicker \<Rightarrow> bool" where
  "picker_at h n p \<longleftrightarrow> hp_h p = h \<and>
     (\<forall>k. picked_at p k = min (n k) (length (fields_named h k)))"

lemma Pick_at:
  assumes "picker_at h n p"
  shows "fst (Pick k p) = nth_field h (to_lower k) (n (to_lower k)) \<and>
    picker_at h (n(to_lower k := Suc (n (to_lower k)))) (snd (Pick k p))"
proof (cases "n (to_lower k) < length (fields_named h (to_lower k))")
  case True
  then show ?thesis using assms
    by (auto simp: Pick_def picker_at_def pick_scan_nth Let_def fields_named_def [symmetric]
      nth_field_def picked_at_def update_conv')
next
  case False
  then show ?thesis using assms
    by (auto simp: Pick_def picker_at_def pick_scan_nth Let_def fields_named_def [symmetric]
      nth_field_def)
qed

lemma Picks_at:
  "picker_at h n p \<Longrightarrow> i < length ks \<Longrightarrow>
     length (fst (Picks ks p)) = length ks \<and>
     fst (Picks ks p) ! i = nth_field h (to_lower (ks ! i))
       (n (to_lower (ks ! i)) + count_list (map to_lower (take i ks)) (to_lower (ks ! i)))"
proof (induction ks arbitrary: n p i)
  case (Cons k ks)
  note s = Pick_at [OF Cons.prems(1), of k]
  have l: "length (fst (Picks ks q)) = length ks" for q
    by (induction ks arbitrary: q) (simp_all add: case_prod_beta)
  show ?case
  proof (cases i)
    case (Suc j)
    with Cons.prems(2) have "j < length ks" by simp
    note ih = Cons.IH [OF conjunct2 [OF s] this]
    then show ?thesis using s by (simp add: case_prod_beta Suc)
  qed (use s l in \<open>simp add: case_prod_beta\<close>)
qed simp

text \<open>
  C36: A header picker hands out the fields of a name from the last one up, each once, and then
  the empty string: the i-th pick of a sequence returns the field of its name whose number from
  the bottom is how often that name was picked before, and names do not disturb each other.
\<close>

theorem Pick_correct:
  assumes "i < length ks"
  shows "fst (Picks ks (newHeaderPicker h)) ! i =
    nth_field h (to_lower (ks ! i)) (count_list (map to_lower (take i ks)) (to_lower (ks ! i)))"
proof -
  have "picker_at h (\<lambda>_. 0) (newHeaderPicker h)"
    by (simp add: picker_at_def newHeaderPicker_def picked_at_def)
  from Picks_at [OF this assms] show ?thesis by simp
qed

lemma Pick_correct_witness:
  "fst (Picks [''from'', ''To'', ''FROM''] (newHeaderPicker [''From: a'', ''To: b'', ''from: c''])) ! 2
     = ''From: a''"
  using Pick_correct [of 2 "[''from'', ''To'', ''FROM'']" "[''From: a'', ''To: b'', ''from: c'']"]
  by code_simp

end
