(* ===== verification/Go_Header.thy ===== *)
theory Go_Header imports Dkim_Header Envelope begin

text \<open>
  net/textproto's MIMEHeader and Reader.ReadMIMEHeader on bytes in memory: what envelope/mail.go
  reads headers with. An input is its bytes and the error behind them. A MIMEHeader is an
  association list from keys to values. Go's limits on the header of a part (10000 fields, 10 MB)
  are left out; the limits of a connection are below them.
\<close>

section \<open>Maps from keys to values\<close>

type_synonym mime_header = "(string \<times> string list) list"

definition header_Get :: "mime_header \<Rightarrow> string \<Rightarrow> string" where
  "header_Get h key =
     (case map_of h (CanonicalMIMEHeaderKey key) of Some (v # _) \<Rightarrow> v | _ \<Rightarrow> [])"

definition header_Set :: "string \<Rightarrow> string \<Rightarrow> mime_header \<Rightarrow> mime_header" where
  "header_Set key val h = AList.update (CanonicalMIMEHeaderKey key) [val] h"

definition header_Del :: "string \<Rightarrow> mime_header \<Rightarrow> mime_header" where
  "header_Del key h = filter (\<lambda>(k, _). k \<noteq> CanonicalMIMEHeaderKey key) h"

text \<open>The values of a key, none if it is missing, and one more at their end.\<close>

definition header_values :: "mime_header \<Rightarrow> string \<Rightarrow> string list" where
  "header_values h k = (case map_of h k of Some vs \<Rightarrow> vs | None \<Rightarrow> [])"

definition header_append :: "string \<Rightarrow> string \<Rightarrow> mime_header \<Rightarrow> mime_header" where
  "header_append k v h = AList.update k (header_values h k @ [v]) h"

section \<open>Reading\<close>

definition wsp :: "char \<Rightarrow> bool" where
  "wsp c \<longleftrightarrow> c = SP \<or> c = TAB"

definition trim_wsp :: "string \<Rightarrow> string" where
  "trim_wsp s = rev (dropWhile wsp (rev (dropWhile wsp s)))"

lemma dropWhile_line_shorter:
  "dropWhile P s \<noteq> [] \<Longrightarrow> line_of (dropWhile P s) = (l, s') \<Longrightarrow> length s' < length s"
  using line_of_shorter [of "dropWhile P s" l s'] length_dropWhile_le [of P s] by linarith

text \<open>
  The continuation lines of a field: those that start with white space, which stands for one
  space. White space at the very end of the input counts as a line without text.
\<close>

function continued :: "string \<Rightarrow> string \<Rightarrow> string \<times> string" where
  "continued acc s =
     (if s \<noteq> [] \<and> wsp (hd s)
      then let t = dropWhile wsp s in
        if t = [] then (acc @ [SP], [])
        else case line_of t of (l, s') \<Rightarrow> continued (acc @ SP # trim_wsp l) s'
      else (acc, s))"
  by pat_completeness auto
termination
  by (relation "measure (\<lambda>(acc, s). length s)") (auto simp del: dropWhile_eq_Nil_conv dest: dropWhile_line_shorter [OF _ sym])

declare continued.simps [simp del]

definition ProtocolError :: "string \<Rightarrow> ioerr" where
  "ProtocolError s = OtherErr s"

text \<open>readContinuedLineSlice: an empty line ends the header.\<close>

definition readContinuedLine :: "ioerr \<Rightarrow> string \<Rightarrow> (ioerr + string) \<times> string" where
  "readContinuedLine e s =
     (if s = [] then (Inl e, [])
      else case line_of s of (l, s') \<Rightarrow>
        if l = [] then (Inr [], s')
        else if CHR '':'' \<notin> set l
        then (Inl (ProtocolError (''malformed MIME header: missing colon: '' @ go_quote l)), s')
        else case continued (trim_wsp l) s' of (kv, s'') \<Rightarrow> (Inr kv, s''))"

text \<open>A key with a space in it is accepted as it is, any other byte that is no token is an error.\<close>

definition canonicalMIMEHeaderKey :: "string \<Rightarrow> string option" where
  "canonicalMIMEHeaderKey k =
     (if k = [] then None
      else if \<exists>c \<in> set k. \<not> valid_header_field_byte c \<and> c \<noteq> SP then None
      else Some (CanonicalMIMEHeaderKey k))"

definition validHeaderValueByte :: "char \<Rightarrow> bool" where
  "validHeaderValueByte c \<longleftrightarrow> wsp c \<or> (0x21 \<le> byte c \<and> byte c \<noteq> 0x7F)"

lemma continued_length: "continued acc s = (kv, s') \<Longrightarrow> length s' \<le> length s"
proof (induction acc s rule: continued.induct)
  case (1 acc s)
  show ?case
  proof (cases "s \<noteq> [] \<and> wsp (hd s) \<and> dropWhile wsp s \<noteq> []")
    case True
    obtain l r where l: "line_of (dropWhile wsp s) = (l, r)" by force
    then have "continued (acc @ SP # trim_wsp l) r = (kv, s')"
      using 1(2) True by (simp add: continued.simps [of acc s] del: dropWhile_eq_Nil_conv)
    with True have "length s' \<le> length r" by (intro 1(1) [OF _ refl _ l [symmetric]]) simp_all
    also have "length r < length (dropWhile wsp s)" using line_of_shorter [OF _ l] True by simp
    finally show ?thesis using length_dropWhile_le [of wsp s] by linarith
  next
    case False
    then show ?thesis using 1(2)
      by (auto simp: continued.simps [of acc s] Let_def simp del: dropWhile_eq_Nil_conv split: if_splits)
  qed
qed

lemma readContinuedLine_length:
  "readContinuedLine e s = (Inr kv, s') \<Longrightarrow> length s' < length s"
  using line_of_shorter [of s] continued_length
  by (fastforce simp: readContinuedLine_def split: if_splits prod.splits)

function readMIME_loop :: "ioerr \<Rightarrow> mime_header \<Rightarrow> string \<Rightarrow> (mime_header \<times> ioerr option) \<times> string" where
  "readMIME_loop e m s =
     (case readContinuedLine e s of
        (Inl err, s') \<Rightarrow> ((m, Some err), s')
      | (Inr kv, s') \<Rightarrow>
          if kv = [] then ((m, None), s')
          else case go_cut kv '':'' of (k, v, ok) \<Rightarrow>
            case (if ok then canonicalMIMEHeaderKey k else None) of
              None \<Rightarrow> ((m, Some (ProtocolError (''malformed MIME header line: '' @ kv))), s')
            | Some key \<Rightarrow>
                if \<exists>c \<in> set v. \<not> validHeaderValueByte c
                then ((m, Some (ProtocolError (''malformed MIME header line: '' @ kv))), s')
                else readMIME_loop e (header_append key (dropWhile wsp v) m) s')"
  by pat_completeness auto
termination
  by (relation "measure (\<lambda>(e, m, s). length s)") (auto dest: readContinuedLine_length [OF sym])

declare readMIME_loop.simps [simp del]

definition ReadMIMEHeader :: "ioerr \<Rightarrow> string \<Rightarrow> (mime_header \<times> ioerr option) \<times> string" where
  "ReadMIMEHeader e s =
     (if s \<noteq> [] \<and> wsp (hd s)
      then case line_of s of (l, s') \<Rightarrow>
        (([], Some (ProtocolError (''malformed MIME header initial line: '' @ l))), s')
      else readMIME_loop e [] s)"

lemma readContinuedLine_error_length: "readContinuedLine e s = (Inl err, s') \<Longrightarrow> length s' \<le> length s"
  using line_of_shorter [of s]
  by (auto simp: readContinuedLine_def split: if_splits prod.splits intro: less_imp_le)

lemma readMIME_loop_length: "readMIME_loop e m s = (r, s') \<Longrightarrow> length s' \<le> length s"
proof (induction "length s" arbitrary: m s rule: less_induct)
  case less
  show ?case
  proof (cases "readContinuedLine e s")
    case (Pair res s1)
    show ?thesis
    proof (cases res)
      case (Inl err)
      then show ?thesis using less.prems Pair readContinuedLine_error_length
        by (auto simp: readMIME_loop.simps [of e m s])
    next
      case (Inr kv)
      then have l: "length s1 < length s" using Pair readContinuedLine_length by simp
      from less.prems consider "s' = s1" | m' where "readMIME_loop e m' s1 = (r, s')"
        using Pair Inr by (auto simp: readMIME_loop.simps [of e m s] split: if_splits option.splits prod.splits)
      then show ?thesis using l less.hyps [OF l] by cases (auto intro: order.trans less_imp_le)
    qed
  qed
qed

lemma ReadMIMEHeader_length: "ReadMIMEHeader e s = (r, s') \<Longrightarrow> length s' \<le> length s"
  using line_of_shorter [of s]
  by (auto simp: ReadMIMEHeader_def split: if_splits prod.splits intro: less_imp_le readMIME_loop_length)

section \<open>Reading what was written\<close>

definition field_text :: "string \<Rightarrow> string \<Rightarrow> string" where
  "field_text k v = k @ '': '' @ v"

text \<open>Fields on one line: a key of token bytes, a value without white space at its ends.\<close>

definition field_ok :: "string \<times> string \<Rightarrow> bool" where
  "field_ok f \<longleftrightarrow> (case f of (k, v) \<Rightarrow>
     k \<noteq> [] \<and> list_all valid_header_field_byte k \<and>
     v \<noteq> [] \<and> \<not> wsp (hd v) \<and> \<not> wsp (last v) \<and> list_all validHeaderValueByte v)"

definition header_of :: "(string \<times> string) list \<Rightarrow> mime_header" where
  "header_of fs = fold (\<lambda>(k, v). header_append (CanonicalMIMEHeaderKey k) v) fs []"

lemma token_byte: "valid_header_field_byte c \<Longrightarrow> c \<noteq> CHR '':'' \<and> c \<noteq> LF \<and> c \<noteq> CR \<and> \<not> wsp c"
  by (auto simp: valid_header_field_byte_def is_digit_def is_upper_def is_lower_def wsp_def)

lemma value_byte: "validHeaderValueByte c \<Longrightarrow> c \<noteq> LF \<and> c \<noteq> CR"
  by (auto simp: validHeaderValueByte_def wsp_def)

lemma field_bytes:
  assumes "field_ok (k, v)"
  shows "LF \<notin> set (field_text k v)" "field_text k v \<noteq> []" "CHR '':'' \<in> set (field_text k v)"
    "trim_wsp (field_text k v) = field_text k v" "\<not> wsp (hd (field_text k v))" "CR \<notin> set (field_text k v)"
proof -
  from assms have k: "k \<noteq> []" "\<And>c. c \<in> set k \<Longrightarrow> valid_header_field_byte c"
    and v: "v \<noteq> []" "\<not> wsp (last v)" "\<And>c. c \<in> set v \<Longrightarrow> validHeaderValueByte c"
    by (auto simp: field_ok_def list_all_iff)
  show "LF \<notin> set (field_text k v)" "field_text k v \<noteq> []" "CHR '':'' \<in> set (field_text k v)"
    "CR \<notin> set (field_text k v)"
    using k v token_byte value_byte by (fastforce simp: field_text_def)+
  show h: "\<not> wsp (hd (field_text k v))" using k token_byte [of "hd k"] by (simp add: field_text_def)
  have "dropWhile wsp (field_text k v) = field_text k v"
    using h by (simp add: dropWhile_eq_self_iff)
  moreover have "dropWhile wsp (rev (field_text k v)) = rev (field_text k v)"
    using v(1,2) by (simp add: dropWhile_eq_self_iff field_text_def hd_rev)
  ultimately show "trim_wsp (field_text k v) = field_text k v" by (simp add: trim_wsp_def)
qed

lemma readMIME_loop_kv:
  assumes "field_ok (k, v)" "readContinuedLine e s = (Inr (field_text k v), s')"
  shows "readMIME_loop e m s = readMIME_loop e (header_append (CanonicalMIMEHeaderKey k) v m) s'"
proof -
  have k: "CHR '':'' \<notin> set k" "canonicalMIMEHeaderKey k = Some (CanonicalMIMEHeaderKey k)"
    using assms(1) token_byte by (auto simp: field_ok_def list_all_iff canonicalMIMEHeaderKey_def)
  have "go_cut (field_text k v) '':'' = (k, SP # v, True)"
    using go_cut_char [OF k(1)] by (simp add: field_text_def)
  moreover have "dropWhile wsp (SP # v) = v" "\<forall>c \<in> set (SP # v). validHeaderValueByte c"
    using assms(1) by (cases v; auto simp: field_ok_def list_all_iff validHeaderValueByte_def wsp_def)+
  ultimately show ?thesis using assms k(2) field_bytes(2) [OF assms(1)]
    by (subst readMIME_loop.simps) simp
qed

lemma continued_none: "s = [] \<or> \<not> wsp (hd s) \<Longrightarrow> continued acc s = (acc, s)"
  by (auto simp: continued.simps)

lemma readMIME_loop_field:
  assumes "field_ok (k, v)" "s = [] \<or> \<not> wsp (hd s)"
  shows "readMIME_loop e m (field_text k v @ crlf @ s) =
    readMIME_loop e (header_append (CanonicalMIMEHeaderKey k) v m) s"
  using field_bytes [OF assms(1)] assms(2)
  by (intro readMIME_loop_kv assms(1)) (simp add: readContinuedLine_def continued_none)

lemma readMIME_loop_last:
  assumes "field_ok (k, v)"
  shows "readMIME_loop e m (field_text k v) =
    ((header_append (CanonicalMIMEHeaderKey k) v m, Some e), [])"
proof -
  have "line_of (field_text k v) = (field_text k v, [])"
    using field_bytes(1) [OF assms] by (simp add: line_of_def cut_at_char_None)
  then have "readContinuedLine e (field_text k v) = (Inr (field_text k v), [])"
    using field_bytes [OF assms] by (simp add: readContinuedLine_def continued_none)
  then have "readMIME_loop e m (field_text k v) = readMIME_loop e (header_append (CanonicalMIMEHeaderKey k) v m) []"
    by (rule readMIME_loop_kv [OF assms])
  then show ?thesis by (simp add: readMIME_loop.simps readContinuedLine_def)
qed

lemma readMIME_loop_end: "readMIME_loop e m (crlf @ s) = ((m, None), s)"
proof -
  have "line_of (crlf @ s) = ([], s)" using line_of_crlf [of "[]" s] by simp
  then show ?thesis by (simp add: readMIME_loop.simps readContinuedLine_def)
qed

text \<open>A header with an empty line after it, as in a part, and one that ends with its last field.\<close>

lemma readMIME_loop_fields:
  "list_all field_ok fs \<Longrightarrow>
     readMIME_loop e m (concat (map (\<lambda>(k, v). field_text k v @ crlf) fs) @ crlf @ s) =
       ((fold (\<lambda>(k, v). header_append (CanonicalMIMEHeaderKey k) v) fs m, None), s)"
proof (induction fs arbitrary: m)
  case Nil
  then show ?case using readMIME_loop_end by simp
next
  case (Cons f fs)
  obtain k v where f: "f = (k, v)" by force
  let ?rest = "concat (map (\<lambda>(k, v). field_text k v @ crlf) fs) @ crlf @ s"
  have "\<not> wsp (hd ?rest)"
    using Cons.prems field_bytes(2,5) by (cases fs) (auto simp: wsp_def)
  then show ?case using Cons readMIME_loop_field [of k v ?rest e m] f by simp
qed

lemma ReadMIMEHeader_fields:
  assumes "list_all field_ok fs"
  shows "ReadMIMEHeader e (concat (map (\<lambda>(k, v). field_text k v @ crlf) fs) @ crlf @ s) = ((header_of fs, None), s)"
proof -
  have "\<not> wsp (hd (concat (map (\<lambda>(k, v). field_text k v @ crlf) fs) @ crlf @ s))"
    using assms field_bytes(2,5) by (cases fs) (auto simp: wsp_def)
  then show ?thesis using readMIME_loop_fields [OF assms]
    by (simp add: ReadMIMEHeader_def header_of_def)
qed

lemma ReadMIMEHeader_unterminated:
  assumes "list_all field_ok fs" "fs \<noteq> []"
  shows "ReadMIMEHeader e (join crlf (map (\<lambda>(k, v). field_text k v) fs)) = ((header_of fs, Some e), [])"
proof -
  have "readMIME_loop e m (join crlf (map (\<lambda>(k, v). field_text k v) fs)) =
      ((fold (\<lambda>(k, v). header_append (CanonicalMIMEHeaderKey k) v) fs m, Some e), [])"
    if "list_all field_ok fs" "fs \<noteq> []" for fs m using that
  proof (induction fs arbitrary: m rule: induct_list012)
    case (2 f)
    then show ?case using readMIME_loop_last by (cases f) simp
  next
    case (3 f g fs)
    obtain k v k' v' where f: "f = (k, v)" "g = (k', v')" by (metis surj_pair)
    let ?rest = "join crlf (map (\<lambda>(k, v). field_text k v) (g # fs))"
    have "\<not> wsp (hd ?rest)"
      using "3.prems"(1) f(2) field_bytes(2,5) [of k' v'] by (cases fs) auto
    then show ?case using 3 readMIME_loop_field [of k v ?rest e m] f by simp
  qed simp
  moreover have "\<not> wsp (hd (join crlf (map (\<lambda>(k, v). field_text k v) fs)))"
    using assms field_bytes(2,5) by (cases fs; cases "tl fs") auto
  ultimately show ?thesis using assms by (simp add: ReadMIMEHeader_def header_of_def)
qed

lemma header_values_append:
  "header_values (header_append k v h) k' = header_values h k' @ (if k' = k then [v] else [])"
  by (simp add: header_append_def header_values_def update_conv')

lemma header_values_of:
  "header_values (header_of fs) key = [v. (k, v) \<leftarrow> fs, CanonicalMIMEHeaderKey k = key]"
proof -
  have "header_values (fold (\<lambda>(k, v). header_append (CanonicalMIMEHeaderKey k) v) fs h) key =
      header_values h key @ [v. (k, v) \<leftarrow> fs, CanonicalMIMEHeaderKey k = key]" for h
    by (induction fs arbitrary: h) (auto simp: header_values_append)
  then show ?thesis by (simp add: header_of_def) (simp add: header_values_def)
qed

end
