(* ===== verification/Go_Base64.thy ===== *)
theory Go_Base64 imports Go_Strings begin

text \<open>
  encoding/base64's StdEncoding, which the DKIM code uses for keys, hashes and signatures:
  EncodeToString, and DecodeString with its handling of line ends, padding and the position that
  a CorruptInputError names. The round trip is what signing and verifying rest on.
\<close>

definition b64_char :: "nat \<Rightarrow> char" where
  "b64_char n =
     (if n < 26 then char_of (65 + n)
      else if n < 52 then char_of (97 + (n - 26))
      else if n < 62 then char_of (48 + (n - 52))
      else if n = 62 then CHR ''+'' else CHR ''/'')"

definition b64_digit :: "char \<Rightarrow> nat option" where
  "b64_digit c =
     (if is_upper c then Some (byte c - 65)
      else if is_lower c then Some (byte c - 97 + 26)
      else if is_digit c then Some (byte c - 48 + 52)
      else if c = CHR ''+'' then Some 62
      else if c = CHR ''/'' then Some 63
      else None)"

fun b64_encode :: "string \<Rightarrow> string" where
  "b64_encode (a # b # c # s) =
     b64_char (byte a div 4) # b64_char (byte a mod 4 * 16 + byte b div 16) #
     b64_char (byte b mod 16 * 4 + byte c div 64) # b64_char (byte c mod 64) # b64_encode s"
| "b64_encode [a, b] =
     [b64_char (byte a div 4), b64_char (byte a mod 4 * 16 + byte b div 16),
      b64_char (byte b mod 16 * 4), CHR ''='']"
| "b64_encode [a] = [b64_char (byte a div 4), b64_char (byte a mod 4 * 16), CHR ''='', CHR ''='']"
| "b64_encode [] = []"

text \<open>The bytes of a group of two to four digits.\<close>

fun b64_bytes :: "nat list \<Rightarrow> string" where
  "b64_bytes [a, b, c, d] =
     [char_of (a * 4 + b div 16), char_of (b mod 16 * 16 + c div 4), char_of (c mod 4 * 64 + d)]"
| "b64_bytes [a, b, c] = [char_of (a * 4 + b div 16), char_of (b mod 16 * 16 + c div 4)]"
| "b64_bytes [a, b] = [char_of (a * 4 + b div 16)]"
| "b64_bytes _ = []"

fun skip_newlines :: "nat \<Rightarrow> string \<Rightarrow> nat \<times> string" where
  "skip_newlines si (c # s) = (if c = LF \<or> c = CR then skip_newlines (Suc si) s else (si, c # s))"
| "skip_newlines si [] = (si, [])"

text \<open>
  What follows the padding character at si that ends a group of ds: a second one after two
  digits, then line ends only. Errors are the position of the corrupt byte.
\<close>

definition b64_padding :: "nat list \<Rightarrow> nat \<Rightarrow> string \<Rightarrow> nat + string" where
  "b64_padding ds si s =
     (let trailing = (\<lambda>si s. case skip_newlines si s of (sj, t) \<Rightarrow>
            if t = [] then Inr (b64_bytes ds) else Inl sj)
      in if length ds < 2 then Inl si
         else if length ds = 2 then
           (case skip_newlines (Suc si) s of
              (sj, []) \<Rightarrow> Inl sj
            | (sj, c # t) \<Rightarrow> if c = CHR ''='' then trailing (Suc sj) t else Inl (sj - 1))
         else trailing (Suc si) s)"

fun b64_scan :: "nat list \<Rightarrow> nat \<Rightarrow> string \<Rightarrow> nat + string" where
  "b64_scan ds si [] = (if ds = [] then Inr [] else Inl (si - length ds))"
| "b64_scan ds si (c # s) =
     (case b64_digit c of
        Some d \<Rightarrow>
          if length ds = 3
          then map_sum id (\<lambda>out. b64_bytes (ds @ [d]) @ out) (b64_scan [] (Suc si) s)
          else b64_scan (ds @ [d]) (Suc si) s
      | None \<Rightarrow>
          if c = LF \<or> c = CR then b64_scan ds (Suc si) s
          else if c = CHR ''='' then b64_padding ds si s
          else Inl si)"

definition b64_decode :: "string \<Rightarrow> string + string" where
  "b64_decode s =
     map_sum (\<lambda>n. ''illegal base64 data at input byte '' @ show_nat n) id (b64_scan [] 0 s)"

section \<open>Decoding what was encoded\<close>

lemma b64_digit_char [simp]: "n < 64 \<Longrightarrow> b64_digit (b64_char n) = Some n"
  by (auto simp: b64_digit_def b64_char_def is_upper_def is_lower_def is_digit_def)

lemma byte_lt [simp]: "byte c < (256 :: nat)"
  using of_char_mod_256 [of c] by (metis mod_less_divisor zero_less_numeral)

lemma digits_lt [simp]:
  "byte a div 4 < 64" "byte a mod 4 * 16 + byte b div 16 < 64" "byte b mod 16 * 4 + byte c div 64 < 64"
  "byte a mod 4 * 16 < 64" "byte b mod 16 * 4 < 64"
  using byte_lt [of a] byte_lt [of b] byte_lt [of c] by (simp_all, linarith+)

lemma char_of_byte [simp]: "char_of (byte c) = c"
  by (rule char_of_char)

lemma b64_bytes_digits:
  "b64_bytes [byte a div 4, byte a mod 4 * 16 + byte b div 16, byte b mod 16 * 4 + byte c div 64, byte c mod 64]
     = [a, b, c]"
  "b64_bytes [byte a div 4, byte a mod 4 * 16 + byte b div 16, byte b mod 16 * 4] = [a, b]"
  "b64_bytes [byte a div 4, byte a mod 4 * 16] = [a]"
proof -
  have s: "y < 16 \<Longrightarrow> (x * 16 + y) div 16 = x" "y < 16 \<Longrightarrow> (x * 16 + y) mod 16 = y"
    "z < 4 \<Longrightarrow> (x * 4 + z) div 4 = x" "z < 4 \<Longrightarrow> (x * 4 + z) mod 4 = z" for x y z :: nat by simp_all
  have "byte b div 16 < 16" "byte c div 64 < 4"
    using byte_lt [of b] byte_lt [of c] by linarith+
  then have "byte a div 4 * 4 + (byte a mod 4 * 16 + byte b div 16) div 16 = byte a"
    "(byte a mod 4 * 16 + byte b div 16) mod 16 * 16 + (byte b mod 16 * 4 + byte c div 64) div 4 = byte b"
    "(byte b mod 16 * 4 + byte c div 64) mod 4 * 64 + byte c mod 64 = byte c"
    "(byte a mod 4 * 16 + byte b div 16) mod 16 * 16 + (byte b mod 16 * 4) div 4 = byte b"
    "byte a div 4 * 4 + (byte a mod 4 * 16) div 16 = byte a"
    by (simp_all only: s div_mult_mod_eq) simp_all
  then show "b64_bytes [byte a div 4, byte a mod 4 * 16 + byte b div 16, byte b mod 16 * 4 + byte c div 64, byte c mod 64]
     = [a, b, c]"
    "b64_bytes [byte a div 4, byte a mod 4 * 16 + byte b div 16, byte b mod 16 * 4] = [a, b]"
    "b64_bytes [byte a div 4, byte a mod 4 * 16] = [a]"
    by (simp_all only: b64_bytes.simps char_of_byte)
qed

lemma b64_pad_no_digit [simp]: "b64_digit CHR ''='' = None"
  by (simp add: b64_digit_def is_upper_def is_lower_def is_digit_def)

lemma b64_scan_encode: "b64_scan [] si (b64_encode s) = Inr s"
  by (induction s arbitrary: si rule: b64_encode.induct)
    (simp_all add: b64_bytes_digits b64_padding_def Let_def del: b64_bytes.simps)

lemma b64_decode_encode [simp]: "b64_decode (b64_encode s) = Inr s"
  by (simp add: b64_decode_def b64_scan_encode)

text \<open>What an encoding consists of.\<close>

definition b64_byte :: "char \<Rightarrow> bool" where
  "b64_byte c \<longleftrightarrow> is_upper c \<or> is_lower c \<or> is_digit c \<or> c \<in> {CHR ''+'', CHR ''/'', CHR ''=''}"

lemma b64_char_byte [simp]: "n < 64 \<Longrightarrow> b64_byte (b64_char n)"
  by (auto simp: b64_byte_def b64_char_def is_upper_def is_lower_def is_digit_def)

lemma b64_encode_bytes: "c \<in> set (b64_encode s) \<Longrightarrow> b64_byte c"
  by (induction s rule: b64_encode.induct) (auto simp: b64_byte_def [of "CHR ''=''"])

lemma b64_byte_plain: "b64_byte c \<Longrightarrow> plain c \<and> c \<noteq> CHR '';'' \<and> c \<noteq> CHR '':''"
  by (auto simp: b64_byte_def plain_def ascii_space_def is_upper_def is_lower_def is_digit_def)

end
