(* ===== verification/Go_Mime.thy ===== *)
theory Go_Mime imports Go_Header Go_Base64 begin

text \<open>
  What envelope/mail.go uses of the packages mime (media types and encoded words),
  mime/quotedprintable and net/url, on bytes in memory. A reader is its bytes and the error behind
  them; reading it to its end gives both.
\<close>

type_synonym reader = "string \<times> ioerr"

section \<open>Hexadecimal digits\<close>

definition hex_value :: "char \<Rightarrow> nat option" where
  "hex_value c =
     (if is_digit c then Some (byte c - 48)
      else if 65 \<le> byte c \<and> byte c \<le> 70 then Some (byte c - 55)
      else if 97 \<le> byte c \<and> byte c \<le> 102 then Some (byte c - 87)
      else None)"

definition hex_byte :: "char \<Rightarrow> char \<Rightarrow> char option" where
  "hex_byte a b =
     (case (hex_value a, hex_value b) of
        (Some x, Some y) \<Rightarrow> Some (char_of (16 * x + y))
      | _ \<Rightarrow> None)"

text \<open>Percent-decoding: an error is the text at the first percent sign without two digits.\<close>

fun percent_unescape :: "bool \<Rightarrow> string \<Rightarrow> string + string" where
  "percent_unescape query [] = Inr []"
| "percent_unescape query (c # s) =
     (if c = CHR ''%''
      then (case s of
          a # b # t \<Rightarrow>
            (case hex_byte a b of
               Some x \<Rightarrow> map_sum id ((#) x) (percent_unescape query t)
             | None \<Rightarrow> Inl (take 3 (c # s)))
        | _ \<Rightarrow> Inl (take 3 (c # s)))
      else map_sum id ((#) (if query \<and> c = CHR ''+'' then SP else c)) (percent_unescape query s))"

definition QueryUnescape :: "string \<Rightarrow> string + string" where
  "QueryUnescape s = map_sum (\<lambda>t. ''invalid URL escape '' @ go_quote t) id (percent_unescape True s)"

section \<open>Media types (mime.ParseMediaType)\<close>

definition isTSpecial :: "char \<Rightarrow> bool" where
  "isTSpecial c \<longleftrightarrow> c \<in> set (''()<>@,;:/[]?='' @ [BACKSLASH, QUOTE])"

definition isTokenChar :: "char \<Rightarrow> bool" where
  "isTokenChar c \<longleftrightarrow> 0x20 < byte c \<and> byte c < 0x7F \<and> \<not> isTSpecial c"

definition consumeToken :: "string \<Rightarrow> string \<times> string" where
  "consumeToken v = (takeWhile isTokenChar v, dropWhile isTokenChar v)"

definition checkMediaTypeDisposition :: "string \<Rightarrow> string option" where
  "checkMediaTypeDisposition s =
     (case consumeToken s of (typ, rest) \<Rightarrow>
        if typ = [] then Some ''mime: no media type''
        else case rest of
            [] \<Rightarrow> None
          | c # cs \<Rightarrow>
              if c \<noteq> CHR ''/'' then Some ''mime: expected slash after first token''
              else case consumeToken cs of (subtype, rest') \<Rightarrow>
                if subtype = [] then Some ''mime: expected token after slash''
                else if rest' \<noteq> [] then Some ''mime: unexpected content after media subtype''
                else None)"

text \<open>A quoted string, from behind its opening quote; None if it does not end.\<close>

function quoted_value :: "string \<Rightarrow> (string \<times> string) option" where
  "quoted_value [] = None"
| "quoted_value (c # s) =
     (if c = QUOTE then Some ([], s)
      else if c = BACKSLASH \<and> s \<noteq> [] \<and> isTSpecial (hd s)
      then map_option (\<lambda>(v, r). (hd s # v, r)) (quoted_value (tl s))
      else if c = CR \<or> c = LF then None
      else map_option (\<lambda>(v, r). (c # v, r)) (quoted_value s))"
  by pat_completeness auto
termination by (relation "measure length") auto

definition consumeValue :: "string \<Rightarrow> string \<times> string" where
  "consumeValue v =
     (if v \<noteq> [] \<and> hd v = QUOTE
      then (case quoted_value (tl v) of Some r \<Rightarrow> r | None \<Rightarrow> ([], v))
      else consumeToken v)"

text \<open>One parameter: its name, its value and what follows; None where the code returns empty strings.\<close>

definition consumeMediaParam :: "string \<Rightarrow> (string \<times> string \<times> string) option" where
  "consumeMediaParam v =
     (let rest = trim_left v in
      if \<not> has_prefix rest '';'' then None
      else case consumeToken (trim_left (tl rest)) of (param, rest1) \<Rightarrow>
        let rest2 = trim_left rest1 in
        if param = [] \<or> \<not> has_prefix rest2 ''='' then None
        else let rest3 = trim_left (tl rest2) in
          case consumeValue rest3 of (value, rest4) \<Rightarrow>
            if value = [] \<and> rest4 = rest3 then None
            else Some (to_lower param, value, rest4))"

text \<open>Parameters, and those with a star in their name, by the part before it.\<close>

record media_params =
  mp_params :: dict
  mp_continuation :: "(string \<times> dict) list"

definition base_name :: "string \<Rightarrow> string option" where
  "base_name key = (case go_cut key ''*'' of (base, _, ok) \<Rightarrow> if ok then Some base else None)"

definition piece_map :: "media_params \<Rightarrow> string \<Rightarrow> dict" where
  "piece_map m key =
     (case base_name key of
        None \<Rightarrow> mp_params m
      | Some base \<Rightarrow> (case map_of (mp_continuation m) base of Some d \<Rightarrow> d | None \<Rightarrow> []))"

definition put_piece :: "string \<Rightarrow> string \<Rightarrow> media_params \<Rightarrow> media_params" where
  "put_piece key value m =
     (case base_name key of
        None \<Rightarrow> m\<lparr>mp_params := dict_put key value (mp_params m)\<rparr>
      | Some base \<Rightarrow> m\<lparr>mp_continuation := AList.update base (dict_put key value (piece_map m key)) (mp_continuation m)\<rparr>)"

lemma trim_left_length: "length (trim_left s) \<le> length s"
proof -
  obtain p where "s = p @ trim_left s" using trim_left_suffix [of s] by blast
  then show ?thesis by (metis le_add2 length_append)
qed

lemma quoted_value_length: "quoted_value s = Some (v, r) \<Longrightarrow> length r < length s"
  by (induction s arbitrary: v r rule: quoted_value.induct) (fastforce split: if_splits)+

lemma consumeValue_length: "consumeValue v = (x, r) \<Longrightarrow> length r \<le> length v"
  using length_dropWhile_le [of isTokenChar v]
  by (cases v) (auto simp: consumeValue_def consumeToken_def split: if_splits option.splits
    dest: quoted_value_length)

lemma consumeMediaParam_length:
  assumes "consumeMediaParam v = Some (k, x, r)"
  shows "length r < length v"
proof -
  let ?rest = "trim_left v"
  obtain param rest1 where t: "consumeToken (trim_left (tl ?rest)) = (param, rest1)" by force
  obtain val rest4 where c: "consumeValue (trim_left (tl (trim_left rest1))) = (val, rest4)" by force
  have r: "r = rest4" "?rest \<noteq> []"
    using assms t c by (auto simp: consumeMediaParam_def Let_def split: if_splits)
  have "length r \<le> length (trim_left (tl (trim_left rest1)))" using consumeValue_length [OF c] r by simp
  also have "\<dots> \<le> length rest1"
    using trim_left_length [of "tl (trim_left rest1)"] trim_left_length [of rest1] by simp
  also have "\<dots> \<le> length (trim_left (tl ?rest))"
    using t length_dropWhile_le by (auto simp: consumeToken_def)
  also have "\<dots> \<le> length (tl ?rest)" by (rule trim_left_length)
  also have "\<dots> < length ?rest" using r(2) by simp
  also have "\<dots> \<le> length v" by (rule trim_left_length)
  finally show ?thesis .
qed

text \<open>The loop over the parameters, without white space before it: the error is that of the whole.\<close>

function media_loop :: "media_params \<Rightarrow> string \<Rightarrow> (string \<times> bool) + media_params" where
  "media_loop m v0 =
     (let v = trim_left v0 in
      if v = [] then Inr m
      else case consumeMediaParam v of
          None \<Rightarrow> if trim_space v = '';'' then Inr m else Inl (''mime: invalid media parameter'', True)
        | Some (key, value, rest) \<Rightarrow>
            if (case map_of (piece_map m key) key of Some v' \<Rightarrow> v' \<noteq> value | None \<Rightarrow> False)
            then Inl (''mime: duplicate parameter name'', False)
            else media_loop (put_piece key value m) rest)"
  by pat_completeness auto
termination
  by (relation "measure (\<lambda>(m, v). length v)")
    (auto dest!: consumeMediaParam_length intro: less_le_trans [OF _ trim_left_length])

declare media_loop.simps [simp del]

definition decode2231Enc :: "string \<Rightarrow> string option" where
  "decode2231Enc v =
     (case go_cut v [CHR 0x27] of (charset, rest, ok) \<Rightarrow>
        case go_cut rest [CHR 0x27] of (lang, text, ok') \<Rightarrow>
          if \<not> ok \<or> \<not> ok' then None
          else if to_lower charset \<noteq> ''us-ascii'' \<and> to_lower charset \<noteq> ''utf-8'' then None
          else case percent_unescape False text of Inr s \<Rightarrow> Some s | Inl _ \<Rightarrow> None)"

text \<open>The numbered pieces of a parameter, until one is missing; n bounds their number.\<close>

fun stitch :: "nat \<Rightarrow> dict \<Rightarrow> string \<Rightarrow> nat \<Rightarrow> string" where
  "stitch 0 pieces key n = []"
| "stitch (Suc fuel) pieces key n =
     (let simplePart = key @ ''*'' @ show_nat n in
      case map_of pieces simplePart of
        Some v \<Rightarrow> v @ stitch fuel pieces key (Suc n)
      | None \<Rightarrow>
          (case map_of pieces (simplePart @ ''*'') of
             None \<Rightarrow> []
           | Some v \<Rightarrow>
               (if n = 0 then (case decode2231Enc v of Some s \<Rightarrow> s | None \<Rightarrow> [])
                else (case percent_unescape False v of Inr s \<Rightarrow> s | Inl _ \<Rightarrow> []))
               @ stitch fuel pieces key (Suc n)))"

definition put_continuation :: "string \<times> dict \<Rightarrow> dict \<Rightarrow> dict" where
  "put_continuation kp params =
     (case kp of (key, pieces) \<Rightarrow>
        case map_of pieces (key @ ''*'') of
          Some v \<Rightarrow> (case decode2231Enc v of Some s \<Rightarrow> dict_put key s params | None \<Rightarrow> params)
        | None \<Rightarrow>
            if map_of pieces (key @ ''*0'') \<noteq> None \<or> map_of pieces (key @ ''*0*'') \<noteq> None
            then dict_put key (stitch (length pieces) pieces key 0) params
            else params)"

text \<open>What ParseMediaType returns: the type, the parameters and the error.\<close>

definition ParseMediaType :: "string \<Rightarrow> string \<times> dict \<times> string option" where
  "ParseMediaType v =
     (case go_cut v '';'' of (base, _, _) \<Rightarrow>
        let mediatype = trim_space (to_lower base) in
        case checkMediaTypeDisposition mediatype of
          Some err \<Rightarrow> ([], [], Some err)
        | None \<Rightarrow>
            (case media_loop \<lparr>mp_params = [], mp_continuation = []\<rparr> (drop (length base) v) of
               Inl (err, keep) \<Rightarrow> (if keep then mediatype else [], [], Some err)
             | Inr m \<Rightarrow> (mediatype, fold put_continuation (mp_continuation m) (mp_params m), None)))"

section \<open>Encoded words (mime.WordDecoder)\<close>

text \<open>utf8.AppendRune of a byte as a code point, and of the replacement character.\<close>

definition rune_byte :: "char \<Rightarrow> string" where
  "rune_byte c = (if byte c < 128 then [c] else [char_of (192 + byte c div 64 :: nat), char_of (128 + byte c mod 64 :: nat)])"

definition replacement :: string where
  "replacement = [CHR 0xEF, CHR 0xBF, CHR 0xBD]"

fun qDecode :: "string \<Rightarrow> string option" where
  "qDecode [] = Some []"
| "qDecode (c # s) =
     (if c = CHR ''_'' then map_option ((#) SP) (qDecode s)
      else if c = CHR ''=''
      then (case s of
          a # b # t \<Rightarrow> (case hex_byte a b of Some x \<Rightarrow> map_option ((#) x) (qDecode t) | None \<Rightarrow> None)
        | _ \<Rightarrow> None)
      else if (32 \<le> byte c \<and> byte c \<le> 126) \<or> c = LF \<or> c = CR \<or> c = TAB
      then map_option ((#) c) (qDecode s)
      else None)"

definition word_content :: "char \<Rightarrow> string \<Rightarrow> string option" where
  "word_content enc s =
     (if enc = CHR ''B'' \<or> enc = CHR ''b''
      then (case b64_decode s of Inr x \<Rightarrow> Some x | Inl _ \<Rightarrow> None)
      else if enc = CHR ''Q'' \<or> enc = CHR ''q'' then qDecode s
      else None)"

text \<open>The readers of other character sets are an argument; one that fails ends the whole.\<close>

type_synonym charset_reader = "string \<Rightarrow> reader \<Rightarrow> reader"

definition word_convert :: "charset_reader \<Rightarrow> string \<Rightarrow> string \<Rightarrow> ioerr + string" where
  "word_convert cs charset content =
     (if equal_fold ''utf-8'' charset then Inr content
      else if equal_fold ''iso-8859-1'' charset then Inr (concat (map rune_byte content))
      else if equal_fold ''us-ascii'' charset
      then Inr (concat (map (\<lambda>c. if 128 \<le> byte c then replacement else [c]) content))
      else case cs (to_lower charset) (content, EOF) of
          (out, e) \<Rightarrow> if e = EOF then Inr out else Inl e)"

definition hasNonWhitespace :: "string \<Rightarrow> bool" where
  "hasNonWhitespace s \<longleftrightarrow> (\<exists>c \<in> set s. c \<noteq> SP \<and> c \<noteq> TAB \<and> c \<noteq> LF \<and> c \<noteq> CR)"

text \<open>
  The parts of the first encoded word: what is before it, the text behind its opening, character
  set, encoding, encoded text and what follows; None where the loop is left.
\<close>

definition next_word :: "string \<Rightarrow> (string \<times> string \<times> string \<times> char \<times> string \<times> string) option" where
  "next_word s =
     (case cut_at ''=?'' s of
        None \<Rightarrow> None
      | Some (before, rest) \<Rightarrow>
          (case cut_at ''?'' rest of
             None \<Rightarrow> None
           | Some (charset, rest2) \<Rightarrow>
               if length rest2 < 4 \<or> rest2 ! 1 \<noteq> CHR ''?'' then None
               else case cut_at ''?='' (drop 2 rest2) of
                   None \<Rightarrow> None
                 | Some (enc_text, rest3) \<Rightarrow> Some (before, rest, charset, hd rest2, enc_text, rest3)))"

lemma next_word_length:
  "next_word s = Some (before, rest, charset, enc, t, rest3) \<Longrightarrow> length rest < length s \<and> length rest3 < length s"
  by (auto simp: next_word_def split: option.splits if_splits dest!: cut_at_Some)
    (drule arg_cong [where f = length], simp)

function decode_words :: "charset_reader \<Rightarrow> bool \<Rightarrow> string \<Rightarrow> ioerr + string" where
  "decode_words cs betweenWords s =
     (case next_word s of
        None \<Rightarrow> Inr s
      | Some (before, rest, charset, enc, enc_text, rest3) \<Rightarrow>
          (case word_content enc enc_text of
             None \<Rightarrow> map_sum id (\<lambda>out. before @ ''=?'' @ out) (decode_words cs False rest)
           | Some content \<Rightarrow>
               (case word_convert cs charset content of
                  Inl e \<Rightarrow> Inl e
                | Inr out \<Rightarrow>
                    map_sum id (\<lambda>out'. (if before \<noteq> [] \<and> (\<not> betweenWords \<or> hasNonWhitespace before) then before else [])
                        @ out @ out')
                      (decode_words cs True rest3))))"
  by pat_completeness auto
termination
  by (relation "measure (\<lambda>(cs, b, s). length s)") (auto dest: next_word_length)

declare decode_words.simps [simp del]

definition DecodeHeader :: "charset_reader \<Rightarrow> string \<Rightarrow> ioerr + string" where
  "DecodeHeader cs s =
     (case cut_at ''=?'' s of
        None \<Rightarrow> Inr s
      | Some (b, a) \<Rightarrow> map_sum id ((@) b) (decode_words cs False (''=?'' @ a)))"

lemma DecodeHeader_plain: "\<not> contains s ''=?'' \<Longrightarrow> DecodeHeader cs s = Inr s"
  by (simp add: DecodeHeader_def contains_def split: option.split)

section \<open>Quoted-printable\<close>

text \<open>bufio's ReadSlice up to a line end with a buffer of 4096 bytes: the line and the error.\<close>

definition slice_line :: "reader \<Rightarrow> string \<times> ioerr option \<times> string" where
  "slice_line r =
     (case r of (s, e) \<Rightarrow>
        case cut_at [LF] (take 4096 s) of
          Some (l, _) \<Rightarrow> (l @ [LF], None, drop (Suc (length l)) s)
        | None \<Rightarrow>
            if 4096 \<le> length s then (take 4096 s, Some (OtherErr ''bufio: buffer full''), drop 4096 s)
            else (s, Some e, []))"

lemma slice_line_split: "slice_line (s, e) = (l, err, s') \<Longrightarrow> s = l @ s'"
proof (cases "cut_at [LF] (take 4096 s)")
  case (Some p)
  assume a: "slice_line (s, e) = (l, err, s')"
  obtain b r where p: "p = (b, r)" by force
  have t: "take 4096 s = b @ LF # r" using cut_at_Some [of "[LF]" "take 4096 s"] Some p by simp
  have "s = take 4096 s @ drop 4096 s" by simp
  also have "\<dots> = (b @ [LF]) @ r @ drop 4096 s" using t by simp
  finally have w: "s = (b @ [LF]) @ r @ drop 4096 s" .
  then have "drop (Suc (length b)) s = r @ drop 4096 s" by (metis append_eq_conv_conj length_append_singleton)
  then show "s = l @ s'" using a Some p w by (auto simp: slice_line_def)
next
  case None
  assume "slice_line (s, e) = (l, err, s')"
  then show "s = l @ s'" using None by (auto simp: slice_line_def split: if_splits)
qed

lemma slice_line_None: "slice_line (s, e) = (l, None, s') \<Longrightarrow> l \<noteq> []"
  by (auto simp: slice_line_def split: option.splits if_splits)

definition qp_space :: "char \<Rightarrow> bool" where
  "qp_space c \<longleftrightarrow> c \<in> {LF, CR, SP, TAB}"

definition trim_right :: "(char \<Rightarrow> bool) \<Rightarrow> string \<Rightarrow> string" where
  "trim_right f s = rev (dropWhile f (rev s))"

text \<open>
  A line without the white space at its end: a soft line break takes the line end away, and
  anything else behind an equals sign is an error, which comes after the bytes of the line.
\<close>

definition qp_line :: "string \<Rightarrow> ioerr option \<Rightarrow> string \<times> ioerr option" where
  "qp_line wholeLine rerr =
     (let l = trim_right qp_space wholeLine in
      if has_suffix l ''=''
      then let rightStripped = drop (length l) wholeLine; l' = butlast l in
        (l', if has_prefix rightStripped [LF] \<or> has_prefix rightStripped crlf
             \<or> (rightStripped = [] \<and> l' \<noteq> [] \<and> rerr = Some EOF)
           then rerr
           else Some (OtherErr (''quotedprintable: invalid bytes after =: '' @ go_quote rightStripped)))
      else if has_suffix wholeLine [LF]
      then (if has_suffix wholeLine crlf then (l @ crlf, rerr) else (l @ [LF], rerr))
      else (l, rerr))"

definition hex2 :: "char \<Rightarrow> string" where
  "hex2 c = [hex_digit (byte c div 16), hex_digit (byte c mod 16)]"

text \<open>readHexByte, with the error for a byte that is no digit.\<close>

definition readHexByte :: "string \<Rightarrow> ioerr + char" where
  "readHexByte v =
     (case v of
        a # b # _ \<Rightarrow>
          (case hex_byte a b of
             Some x \<Rightarrow> Inr x
           | None \<Rightarrow> Inl (OtherErr (''quotedprintable: invalid hex byte 0x'' @
               hex2 (if hex_value a = None then a else b))))
      | _ \<Rightarrow> Inl UnexpectedEOF)"

text \<open>The bytes of one prepared line, up to the first error in it.\<close>

fun qp_bytes :: "string \<Rightarrow> string \<times> ioerr option" where
  "qp_bytes [] = ([], None)"
| "qp_bytes (b # s) =
     (if b = CHR ''=''
      then (case readHexByte s of
          Inr x \<Rightarrow> (case qp_bytes (drop 2 s) of (out, err) \<Rightarrow> (x # out, err))
        | Inl e \<Rightarrow>
            if s \<noteq> [] \<and> hd s \<noteq> CR \<and> hd s \<noteq> LF
            then (case qp_bytes s of (out, err) \<Rightarrow> (b # out, err))
            else ([], Some e))
      else if b = TAB \<or> b = CR \<or> b = LF \<or> 128 \<le> byte b \<or> (32 \<le> byte b \<and> byte b \<le> 126)
      then (case qp_bytes s of (out, err) \<Rightarrow> (b # out, err))
      else ([], Some (OtherErr (''quotedprintable: invalid unescaped byte 0x'' @ hex2 b @ '' in body''))))"

text \<open>All that the reader delivers, and the error behind it.\<close>

function qp_read :: "reader \<Rightarrow> reader" where
  "qp_read (s, e) =
     (case slice_line (s, e) of (wholeLine, rerr, s') \<Rightarrow>
        case qp_line wholeLine rerr of (l, rerr') \<Rightarrow>
          case qp_bytes l of
            (out, Some err) \<Rightarrow> (out, err)
          | (out, None) \<Rightarrow>
              (case rerr' of
                 Some err \<Rightarrow> (out, err)
               | None \<Rightarrow> (case qp_read (s', e) of (out', err) \<Rightarrow> (out @ out', err))))"
  by pat_completeness auto

lemma qp_line_None: "qp_line l rerr = (l', None) \<Longrightarrow> rerr = None"
  by (auto simp: qp_line_def Let_def split: if_splits)

lemma qp_rest_shorter:
  assumes "slice_line (s, e) = (w, rerr, s')" "qp_line w rerr = (l, None)"
  shows "length s' < length s"
proof -
  have "slice_line (s, e) = (w, None, s')" using assms qp_line_None [OF assms(2)] by simp
  then show ?thesis using slice_line_split [of s e] slice_line_None [of s e] by fastforce
qed

termination qp_read
  by (relation "measure (\<lambda>(s, e). length s)") (auto dest: qp_rest_shorter [OF sym sym])

declare qp_read.simps [simp del]

section \<open>Quoted-printable text that is decoded to what was encoded\<close>

text \<open>
  An encoder that escapes all but the printable bytes (RFC 2045, section 6.7), with soft line
  breaks between pieces, which keep the lines short.
\<close>

definition hex_upper :: "nat \<Rightarrow> char" where
  "hex_upper n = (if n < 10 then char_of (48 + n) else char_of (55 + n))"

definition qp_plain :: "char \<Rightarrow> bool" where
  "qp_plain c \<longleftrightarrow> 33 \<le> byte c \<and> byte c \<le> 126 \<and> c \<noteq> CHR ''=''"

definition qp_escape :: "char \<Rightarrow> string" where
  "qp_escape c = (if qp_plain c then [c] else [CHR ''='', hex_upper (byte c div 16), hex_upper (byte c mod 16)])"

definition qp_piece :: "string \<Rightarrow> string" where
  "qp_piece s = concat (map qp_escape s)"

definition qp_encode :: "string list \<Rightarrow> string" where
  "qp_encode pieces = join (''='' @ crlf) (map qp_piece pieces)"

lemma hex_value_upper [simp]: "n < 16 \<Longrightarrow> hex_value (hex_upper n) = Some n"
  by (auto simp: hex_value_def hex_upper_def is_digit_def)

lemma hex_byte_upper [simp]: "hex_byte (hex_upper (byte c div 16)) (hex_upper (byte c mod 16)) = Some c"
proof -
  have "byte c div 16 < (16 :: nat)" using byte_lt [of c] by (simp add: less_mult_imp_div_less)
  then show ?thesis by (simp add: hex_byte_def)
qed

lemma hex_upper_plain: "n < 16 \<Longrightarrow> qp_plain (hex_upper n)"
proof -
  assume n: "n < 16"
  then have b: "byte (hex_upper n) = (if n < 10 then 48 + n else 55 + n)" by (simp add: hex_upper_def)
  then have "hex_upper n \<noteq> CHR ''=''" using n by (auto split: if_splits)
  then show ?thesis using b n by (simp add: qp_plain_def)
qed

lemma qp_escape_cases:
  "qp_escape c = [c] \<and> qp_plain c \<or> (\<exists>a b. qp_escape c = [CHR ''='', a, b] \<and> hex_byte a b = Some c \<and> qp_plain a \<and> qp_plain b)"
proof -
  have "byte c div 16 < (16 :: nat)" using byte_lt [of c] by (simp add: less_mult_imp_div_less)
  then show ?thesis using hex_upper_plain by (simp add: qp_escape_def)
qed

lemma qp_bytes_piece: "qp_bytes (qp_piece s) = (s, None)"
proof (induction s)
  case (Cons c s)
  consider "qp_escape c = [c]" "qp_plain c"
    | a b where "qp_escape c = [CHR ''='', a, b]" "hex_byte a b = Some c"
    using qp_escape_cases [of c] by blast
  then show ?case
  proof cases
    case 1
    then show ?thesis using Cons by (simp add: qp_piece_def qp_plain_def)
  next
    case 2
    then show ?thesis using Cons by (simp add: qp_piece_def readHexByte_def)
  qed
qed (simp add: qp_piece_def)

lemma qp_piece_ends:
  "qp_piece s = [] \<or> qp_plain (last (qp_piece s))" "\<And>c. c \<in> set (qp_piece s) \<Longrightarrow> qp_plain c \<or> c = CHR ''=''"
proof -
  show "qp_piece s = [] \<or> qp_plain (last (qp_piece s))"
    using qp_escape_cases [of "last s"] by (cases s rule: rev_cases) (auto simp: qp_piece_def)
  fix c assume "c \<in> set (qp_piece s)"
  then obtain d where "c \<in> set (qp_escape d)" by (auto simp: qp_piece_def)
  then show "qp_plain c \<or> c = CHR ''=''" using qp_escape_cases [of d] by auto
qed

lemma qp_plain_not_space: "qp_plain c \<Longrightarrow> \<not> qp_space c"
  by (auto simp: qp_plain_def qp_space_def)

lemma trim_right_keep: "s \<noteq> [] \<Longrightarrow> \<not> f (last s) \<Longrightarrow> list_all f t \<Longrightarrow> trim_right f (s @ t) = s"
proof -
  assume a: "s \<noteq> []" "\<not> f (last s)" "list_all f t"
  have "dropWhile f (rev s) = rev s" using a by (simp add: dropWhile_eq_self_iff hd_rev)
  moreover have "dropWhile f (rev t @ rev s) = dropWhile f (rev s)"
    using a(3) by (intro dropWhile_append2) (simp add: list_all_iff)
  ultimately show ?thesis by (simp add: trim_right_def)
qed

lemma qp_line_soft: "qp_line (qp_piece s @ ''='' @ crlf) rerr = (qp_piece s, rerr)"
proof -
  have "trim_right qp_space ((qp_piece s @ ''='') @ crlf) = qp_piece s @ ''=''"
    by (rule trim_right_keep) (simp_all add: qp_space_def)
  then show ?thesis by (simp add: qp_line_def has_suffix_iff)
qed

lemma qp_line_last: "qp_line (qp_piece s) rerr = (qp_piece s, rerr)"
proof (cases "qp_piece s = []")
  case True
  then show ?thesis by (simp add: qp_line_def trim_right_def has_suffix_def)
next
  case False
  then have l: "qp_plain (last (qp_piece s))" using qp_piece_ends(1) [of s] by simp
  then have t: "trim_right qp_space (qp_piece s) = qp_piece s"
    using trim_right_keep [of "qp_piece s" qp_space "[]"] False qp_plain_not_space by simp
  have "\<not> has_suffix (qp_piece s) ''=''" "\<not> has_suffix (qp_piece s) [LF]"
    using l by (auto simp: has_suffix_iff qp_plain_def)
  then show ?thesis using t by (simp add: qp_line_def)
qed

text \<open>Pieces short enough for a line of the decoder's buffer.\<close>

definition short_piece :: "string \<Rightarrow> bool" where
  "short_piece s \<longleftrightarrow> length (qp_piece s) < 3990"

lemma qp_piece_no_LF: "LF \<notin> set (qp_piece s)"
  using qp_piece_ends(2) [of LF s] by (auto simp: qp_plain_def)

lemma slice_line_LF: "LF \<notin> set l \<Longrightarrow> length l < 4000 \<Longrightarrow> slice_line (l @ LF # s, e) = (l @ [LF], None, s)"
  using cut_at_char [of LF l "take (4096 - length l - 1) s"]
  by (simp add: slice_line_def take_Cons')

lemma slice_line_end: "LF \<notin> set l \<Longrightarrow> length l < 4000 \<Longrightarrow> slice_line (l, e) = (l, Some e, [])"
  by (simp add: slice_line_def cut_at_char_None)

lemma qp_read_encode:
  "pieces \<noteq> [] \<Longrightarrow> list_all short_piece pieces \<Longrightarrow> qp_read (qp_encode pieces, EOF) = (concat pieces, EOF)"
proof (induction pieces rule: induct_list012)
  case (2 p)
  then have "slice_line (qp_piece p, EOF) = (qp_piece p, Some EOF, [])"
    by (intro slice_line_end qp_piece_no_LF) (simp add: short_piece_def)
  then show ?case by (simp add: qp_encode_def qp_read.simps qp_line_last qp_bytes_piece)
next
  case (3 p q ps)
  have "slice_line (qp_encode (p # q # ps), EOF) = (qp_piece p @ ''='' @ crlf, None, qp_encode (q # ps))"
    using slice_line_LF [of "qp_piece p @ ''='' @ [CR]" "qp_encode (q # ps)" EOF] "3.prems" qp_piece_no_LF [of p]
    by (simp add: qp_encode_def short_piece_def)
  moreover have "qp_line (qp_piece p @ ''='' @ crlf) None = (qp_piece p, None)" by (rule qp_line_soft)
  ultimately show ?case using 3 by (simp add: qp_read.simps [of "qp_encode (p # q # ps)"] qp_bytes_piece)
qed simp

end
