(* ===== verification/Charsets.thy ===== *)
theory Charsets imports Go_Mime begin

text \<open>
  envelope/charsets.go: the character sets a mail may be written in. The decoders of
  golang.org/x/text are an argument, named by the constructors of x_encoding; a decoder turns a
  reader into a reader.
\<close>

datatype x_encoding =
    ISO8859_1 | ISO8859_2 | ISO8859_3 | ISO8859_4 | ISO8859_5 | ISO8859_6 | ISO8859_7 | ISO8859_8 |
    ISO8859_9 | ISO8859_10 | ISO8859_13 | ISO8859_14 | ISO8859_15 | ISO8859_16 | Windows1250 |
    Windows1251 | Windows1252 | Windows1253 | Windows1254 | Windows1255 | Windows1256 |
    Windows1257 | Windows1258 | Windows874 | CodePage437 | CodePage850 | CodePage852 |
    CodePage855 | CodePage858 | CodePage866 | KOI8R | KOI8U | Macintosh | ShiftJIS | EUCJP |
    ISO2022JP | EUCKR | GB18030 | GBK | Big5 | UTF8_enc | UTF16_BigEndian_IgnoreBOM |
    UTF16_LittleEndian_IgnoreBOM | UTF16_LittleEndian_UseBOM

type_synonym xtext = "x_encoding \<Rightarrow> reader \<Rightarrow> reader"

definition charsetEncodings :: "(string \<times> x_encoding) list" where
  "charsetEncodings = [
     (''iso-8859-1'', ISO8859_1), (''iso-8859-2'', ISO8859_2), (''iso-8859-3'', ISO8859_3),
     (''iso-8859-4'', ISO8859_4), (''iso-8859-5'', ISO8859_5), (''iso-8859-6'', ISO8859_6),
     (''iso-8859-7'', ISO8859_7), (''iso-8859-8'', ISO8859_8), (''iso-8859-9'', ISO8859_9),
     (''iso-8859-10'', ISO8859_10), (''iso-8859-13'', ISO8859_13), (''iso-8859-14'', ISO8859_14),
     (''iso-8859-15'', ISO8859_15), (''iso-8859-16'', ISO8859_16), (''windows-1250'', Windows1250),
     (''windows-1251'', Windows1251), (''windows-1252'', Windows1252),
     (''windows-1253'', Windows1253), (''windows-1254'', Windows1254),
     (''windows-1255'', Windows1255), (''windows-1256'', Windows1256),
     (''windows-1257'', Windows1257), (''windows-1258'', Windows1258),
     (''windows-874'', Windows874), (''ibm437'', CodePage437), (''ibm850'', CodePage850),
     (''ibm852'', CodePage852), (''ibm855'', CodePage855), (''ibm858'', CodePage858),
     (''ibm866'', CodePage866), (''koi8r'', KOI8R), (''koi8u'', KOI8U), (''macintosh'', Macintosh),
     (''shift_jis'', ShiftJIS), (''shift-jis'', ShiftJIS), (''sjis'', ShiftJIS),
     (''euc-jp'', EUCJP), (''eucjp'', EUCJP), (''iso-2022-jp'', ISO2022JP),
     (''iso2022jp'', ISO2022JP), (''euc-kr'', EUCKR), (''euckr'', EUCKR), (''gb2312'', GB18030),
     (''gbk'', GBK), (''gb18030'', GB18030), (''big5'', Big5), (''big-5'', Big5),
     (''utf-8'', UTF8_enc), (''utf-16be'', UTF16_BigEndian_IgnoreBOM),
     (''utf-16le'', UTF16_LittleEndian_IgnoreBOM), (''utf-16'', UTF16_LittleEndian_UseBOM)]"

text \<open>Other names of them.\<close>

definition charsetAliases :: "(string \<times> string) list" where
  "charsetAliases = [
     (''ascii'', ''iso-8859-1''), (''us-ascii'', ''iso-8859-1''), (''latin1'', ''iso-8859-1''),
     (''latin2'', ''iso-8859-2''), (''latin3'', ''iso-8859-3''), (''latin4'', ''iso-8859-4''),
     (''latin5'', ''iso-8859-9''), (''latin6'', ''iso-8859-10''), (''latin7'', ''iso-8859-13''),
     (''latin8'', ''iso-8859-14''), (''latin9'', ''iso-8859-15''), (''latin10'', ''iso-8859-16''),
     (''cp1250'', ''windows-1250''), (''cp1251'', ''windows-1251''),
     (''cp1252'', ''windows-1252''), (''cp1253'', ''windows-1253''),
     (''cp1254'', ''windows-1254''), (''cp1255'', ''windows-1255''),
     (''cp1256'', ''windows-1256''), (''cp1257'', ''windows-1257''),
     (''cp1258'', ''windows-1258''), (''cp874'', ''windows-874''), (''ms874'', ''windows-874''),
     (''tis-620'', ''windows-874''), (''ms-ansi'', ''windows-1252''),
     (''ms_kanji'', ''shift-jis''), (''csshiftjis'', ''shift-jis''), (''x-sjis'', ''shift-jis''),
     (''ms932'', ''shift-jis''), (''5601'', ''euc-kr''), (''ks_c_5601'', ''euc-kr''),
     (''ansi936'', ''gb2312''), (''cp936'', ''gbk''), (''ms936'', ''gbk''),
     (''ansi950'', ''big5''), (''cp950'', ''big5''), (''koi8-r'', ''koi8r''),
     (''koi8-u'', ''koi8u'')]"

text \<open>An unknown character set leaves the bytes alone.\<close>

definition charsetReader :: "xtext \<Rightarrow> charset_reader" where
  "charsetReader xtext charset0 input =
     (let charset = to_lower charset0 in
      case map_of charsetEncodings charset of
        Some m \<Rightarrow> xtext m input
      | None \<Rightarrow>
          (case map_of charsetEncodings (dict_get charsetAliases charset) of
             Some m \<Rightarrow> xtext m input
           | None \<Rightarrow> input))"

text \<open>Every alias names an encoding, and no name stands for two.\<close>

lemma charsetAliases_known: "\<forall>(a, c) \<in> set charsetAliases. map_of charsetEncodings c \<noteq> None"
  by code_simp

lemma charsets_distinct: "distinct (map fst charsetEncodings @ map fst charsetAliases)"
  by code_simp

end
