(* ===== verification/Go_Multipart.thy ===== *)
theory Go_Multipart imports Go_Mime begin

text \<open>
  mime/multipart's Reader, as envelope/mail.go uses it: the parts of a body between its boundary
  lines, on bytes in memory. Left out are the limits on the headers of a part, boundaries longer
  than the buffer of 4096 bytes, and the epilogue of a part that is itself a quoted-printable
  multipart with an invalid byte in it.
\<close>

section \<open>Boundary lines\<close>

text \<open>The line end of the boundary lines is CR LF, or LF if the first one ends so.\<close>

definition dashBoundary :: "string \<Rightarrow> string" where
  "dashBoundary b = ''--'' @ b"

definition isFinalBoundary :: "string \<Rightarrow> string \<Rightarrow> string \<Rightarrow> bool" where
  "isFinalBoundary b nl line =
     (has_prefix line (dashBoundary b @ ''--'') \<and>
      (let rest = dropWhile wsp (drop (length (dashBoundary b @ ''--'')) line) in rest = [] \<or> rest = nl))"

text \<open>Whether a line starts a part, and the line end from then on.\<close>

definition isBoundaryDelimiterLine :: "string \<Rightarrow> string \<Rightarrow> bool \<Rightarrow> string \<Rightarrow> bool \<times> string" where
  "isBoundaryDelimiterLine b nl first line =
     (if \<not> has_prefix line (dashBoundary b) then (False, nl)
      else let rest = dropWhile wsp (drop (length (dashBoundary b)) line);
               nl' = (if first \<and> rest = [LF] then tl nl else nl)
           in (rest = nl', nl'))"

section \<open>The body of a part\<close>

text \<open>
  What follows a boundary says if it is one (Some True), if not (Some False), or that more bytes
  are needed (None).
\<close>

definition matchAfterPrefix :: "string \<Rightarrow> bool option" where
  "matchAfterPrefix t =
     (case t of
        [] \<Rightarrow> None
      | c # cs \<Rightarrow>
          if c = SP \<or> c = TAB \<or> c = CR \<or> c = LF then Some True
          else if c = CHR ''-'' then (case cs of [] \<Rightarrow> None | d # _ \<Rightarrow> Some (d = CHR ''-''))
          else Some False)"

text \<open>The longest end of the input that a line end and boundary may start with, without it and it.\<close>

fun split_tail :: "string \<Rightarrow> string \<Rightarrow> string \<times> string" where
  "split_tail sep [] = ([], [])"
| "split_tail sep (c # s) =
     (if has_prefix sep (c # s) then ([], c # s)
      else case split_tail sep s of (b, t) \<Rightarrow> (c # b, t))"

text \<open>
  The body up to the boundary, the input from there on, and whether the boundary was found. At
  the beginning of a body the boundary needs no line end before it.
\<close>

function part_body :: "string \<Rightarrow> string \<Rightarrow> bool \<Rightarrow> string \<Rightarrow> string \<times> string \<times> bool" where
  "part_body b nl first s =
     (if first \<and> has_prefix s (dashBoundary b)
      then (case matchAfterPrefix (drop (length (dashBoundary b)) s) of
          Some True \<Rightarrow> ([], s, True)
        | None \<Rightarrow> ([], s, False)
        | Some False \<Rightarrow>
            (case part_body b nl False (drop (length (dashBoundary b)) s) of
               (body, rest, found) \<Rightarrow> (dashBoundary b @ body, rest, found)))
      else if first \<and> has_prefix (dashBoundary b) s then ([], s, False)
      else case cut_at (nl @ dashBoundary b) s of
          Some (pre, post) \<Rightarrow>
            (case matchAfterPrefix post of
               Some True \<Rightarrow> (pre, nl @ dashBoundary b @ post, True)
             | None \<Rightarrow> (pre, nl @ dashBoundary b @ post, False)
             | Some False \<Rightarrow>
                 (case part_body b nl False post of
                    (body, rest, found) \<Rightarrow> (pre @ nl @ dashBoundary b @ body, rest, found)))
        | None \<Rightarrow> (case split_tail (nl @ dashBoundary b) s of (body, rest) \<Rightarrow> (body, rest, False)))"
  by pat_completeness auto
termination
  by (relation "measure (\<lambda>(b, nl, first, s). length s)")
    (auto simp: dashBoundary_def has_prefix_iff dest!: cut_at_Some)

declare part_body.simps [simp del]

lemma split_tail_append: "split_tail sep s = (b, t) \<Longrightarrow> s = b @ t"
  by (induction s arbitrary: b) (auto split: if_splits prod.splits)

lemma part_body_append: "part_body b nl first s = (body, rest, found) \<Longrightarrow> s = body @ rest"
proof (induction "length s" arbitrary: first s body rest found rule: less_induct)
  case less
  show ?case
  proof (cases "first \<and> has_prefix s (dashBoundary b)")
    case True
    then obtain t where t: "s = dashBoundary b @ t" by (auto simp: has_prefix_iff)
    then have "length t < length s" by (simp add: dashBoundary_def)
    then show ?thesis using less.prems less.hyps [of t False] True t
      by (auto simp: part_body.simps [of b nl True "dashBoundary b @ t"] split: option.splits bool.splits prod.splits)
  next
    case False
    show ?thesis
    proof (cases "cut_at (nl @ dashBoundary b) s")
      case None
      then show ?thesis using less.prems False split_tail_append
        by (auto simp: part_body.simps [of b nl first s] split: if_splits prod.splits)
    next
      case (Some p)
      obtain pre post where p: "p = (pre, post)" by force
      have s: "s = pre @ (nl @ dashBoundary b) @ post" using Some p cut_at_Some by blast
      from less.prems consider "s = body @ rest" | "body = pre" "rest = nl @ dashBoundary b @ post"
        | body' where "body = pre @ nl @ dashBoundary b @ body'" "part_body b nl False post = (body', rest, found)"
        unfolding part_body.simps [of b nl first s] using Some p False
        by (auto split: option.splits bool.splits prod.splits if_splits)
      then show ?thesis
      proof cases
        case 3
        have "length post < length s" unfolding s by (simp add: dashBoundary_def)
        then have "post = body' @ rest" using less.hyps 3(2) by blast
        then show ?thesis using s 3(1) by simp
      qed (use s in simp_all)
    qed
  qed
qed

section \<open>Parts\<close>

type_synonym part = "mime_header \<times> reader"

text \<open>A part that is quoted-printable is decoded, and loses the field that says so.\<close>

definition decode_part :: "mime_header \<Rightarrow> reader \<Rightarrow> part" where
  "decode_part h r =
     (if equal_fold (header_Get h ''Content-Transfer-Encoding'') ''quoted-printable''
      then (header_Del ''Content-Transfer-Encoding'' h, qp_read r) else (h, r))"

text \<open>The end of the parts, an error, or a part with the line end of the boundaries and the rest.\<close>

datatype next_part = NoPart | PartErr ioerr | NextPart part string string

definition newPart :: "string \<Rightarrow> string \<Rightarrow> ioerr \<Rightarrow> string \<Rightarrow> next_part" where
  "newPart b nl e s =
     (case ReadMIMEHeader e s of
        ((h, Some err), _) \<Rightarrow> PartErr err
      | ((h, None), s') \<Rightarrow>
          (case part_body b nl True s' of
             (body, rest, found) \<Rightarrow>
               NextPart (decode_part h (body, if found then EOF else if e = EOF then UnexpectedEOF else e)) nl rest))"

function nextPart :: "string \<Rightarrow> string \<Rightarrow> nat \<Rightarrow> bool \<Rightarrow> ioerr \<Rightarrow> string \<Rightarrow> next_part" where
  "nextPart b nl partsRead expectNewPart e s =
     (case slice_line (s, e) of
        (line, Some err, _) \<Rightarrow>
          if err = EOF \<and> isFinalBoundary b nl line then NoPart
          else PartErr (OtherErr (''multipart: NextPart: '' @ ioerr_Error err))
      | (line, None, s') \<Rightarrow>
          (case isBoundaryDelimiterLine b nl (partsRead = 0) line of
             (True, nl') \<Rightarrow> newPart b nl' e s'
           | (False, nl') \<Rightarrow>
               if isFinalBoundary b nl' line then NoPart
               else if expectNewPart
               then PartErr (OtherErr (''multipart: expecting a new Part; got line '' @ go_quote line))
               else if partsRead = 0 then nextPart b nl' partsRead False e s'
               else if line = nl' then nextPart b nl' partsRead True e s'
               else PartErr (OtherErr (''multipart: unexpected line in Next(): '' @ go_quote line))))"
  by pat_completeness auto

lemma slice_line_shorter: "slice_line (s, e) = (l, None, s') \<Longrightarrow> length s' < length s"
  using slice_line_split [of s e l None s'] slice_line_None [of s e l s'] by auto

termination nextPart
  by (relation "measure (\<lambda>(b, nl, n, x, e, s). length s)") (auto dest: slice_line_shorter [OF sym])

declare nextPart.simps [simp del]

lemma qp_bytes_length: "length (fst (qp_bytes l)) \<le> length l"
proof (induction l rule: qp_bytes.induct)
  case (2 b s)
  then show ?case by (cases "b = CHR ''=''") (auto split: sum.splits prod.splits)
qed simp

lemma trim_right_append: "list_all f t \<Longrightarrow> trim_right f (s @ t) = trim_right f s"
  by (simp add: trim_right_def list_all_iff dropWhile_append)

lemma trim_right_length: "length (trim_right f s) \<le> length s"
  using length_dropWhile_le [of f "rev s"] by (simp add: trim_right_def)

lemma qp_line_length:
  assumes "qp_line w r = (l, r')"
  shows "length l \<le> length w"
proof -
  let ?t = "trim_right qp_space w"
  consider "l = butlast ?t" | "l = ?t" | "l = ?t @ crlf" "has_suffix w crlf"
    | "l = ?t @ [LF]" "has_suffix w [LF]"
    using assms by (auto simp: qp_line_def Let_def split: if_splits)
  then show ?thesis
  proof cases
    case 1
    then show ?thesis using trim_right_length [of qp_space w] by simp
  next
    case 2
    then show ?thesis by (simp add: trim_right_length)
  next
    case 3
    then obtain v where w: "w = v @ crlf" by (auto simp: has_suffix_iff)
    have "trim_right qp_space (v @ crlf) = trim_right qp_space v"
      by (rule trim_right_append) (simp add: qp_space_def)
    then show ?thesis using trim_right_length [of qp_space v] 3 w by simp
  next
    case 4
    then obtain v where w: "w = v @ [LF]" by (auto simp: has_suffix_iff)
    have "trim_right qp_space (v @ [LF]) = trim_right qp_space v"
      by (rule trim_right_append) (simp add: qp_space_def)
    then show ?thesis using trim_right_length [of qp_space v] 4 w by simp
  qed
qed

lemma qp_read_length: "qp_read (s, e) = (out, err) \<Longrightarrow> length out \<le> length s"
proof (induction "length s" arbitrary: s out err rule: less_induct)
  case less
  obtain w rerr s' where w: "slice_line (s, e) = (w, rerr, s')" by (metis surj_pair)
  obtain l rerr' where l: "qp_line w rerr = (l, rerr')" by force
  obtain o1 b where o1: "qp_bytes l = (o1, b)" by force
  have "length o1 \<le> length w" using qp_bytes_length [of l] qp_line_length [OF l] o1 by simp
  moreover have "length s = length w + length s'" using slice_line_split [OF w] by simp
  moreover have "out = o1 \<or> (\<exists>o2. out = o1 @ o2 \<and> rerr' = None \<and> qp_read (s', e) = (o2, err))"
    using less.prems w l o1 by (auto simp: qp_read.simps [of s e] split: option.splits prod.splits)
  moreover have "length o2 \<le> length s'" if "rerr' = None" "qp_read (s', e) = (o2, err)" for o2
    using less.hyps [OF qp_rest_shorter [OF w] that(2)] l that(1) by simp
  ultimately show ?case by fastforce
qed

lemma newPart_shorter:
  assumes "newPart b nl e s = NextPart (h, body, e') nl' rest"
  shows "length rest \<le> length s \<and> length body \<le> length s"
proof -
  obtain h0 err s' where h: "ReadMIMEHeader e s = ((h0, err), s')" by (metis surj_pair)
  obtain bd r fnd where p: "part_body b nl True s' = (bd, r, fnd)" by (metis surj_pair)
  have l: "length s' \<le> length s" using ReadMIMEHeader_length [OF h] .
  have s': "s' = bd @ r" using part_body_append [OF p] .
  define er where "er = (if fnd then EOF else if e = EOF then UnexpectedEOF else e)"
  obtain q qe where q: "qp_read (bd, er) = (q, qe)" by force
  have "rest = r \<and> (body = bd \<or> body = q)"
  proof (cases err)
    case None
    then have "newPart b nl e s = NextPart (decode_part h0 (bd, er)) nl r" by (simp add: newPart_def h p er_def)
    then have "decode_part h0 (bd, er) = (h, body, e')" "rest = r" using assms by simp_all
    then show ?thesis using q by (auto simp: decode_part_def simp del: qp_read.simps split: if_splits)
  next
    case (Some er')
    then show ?thesis using assms h by (simp add: newPart_def)
  qed
  then show ?thesis using l s' qp_read_length [OF q] by auto
qed

lemma nextPart_shorter:
  "nextPart b nl n x e s = NextPart (h, body, e') nl' rest \<Longrightarrow> length rest < length s \<and> length body < length s"
proof (induction "length s" arbitrary: nl x s rule: less_induct)
  case less
  obtain line err s' where l: "slice_line (s, e) = (line, err, s')" by (metis surj_pair)
  show ?case
  proof (cases err)
    case (Some er)
    then show ?thesis using less.prems l by (auto simp: nextPart.simps [of b nl n x e s] split: if_splits)
  next
    case None
    obtain d nl1 where d: "isBoundaryDelimiterLine b nl (n = 0) line = (d, nl1)" by force
    have sh: "length s' < length s" using l None slice_line_shorter by simp
    from less.prems consider "newPart b nl1 e s' = NextPart (h, body, e') nl' rest"
      | x' where "nextPart b nl1 n x' e s' = NextPart (h, body, e') nl' rest"
      using l None d by (auto simp: nextPart.simps [of b nl n x e s] split: if_splits bool.splits)
    then show ?thesis
    proof cases
      case 1
      then show ?thesis using newPart_shorter [OF 1] sh by simp
    next
      case 2
      then show ?thesis using less.hyps [OF sh 2] sh by simp
    qed
  qed
qed

text \<open>All parts, up to their end or an error; an error EOF in the header of a part ends them too.\<close>

function read_parts :: "string \<Rightarrow> string \<Rightarrow> nat \<Rightarrow> ioerr \<Rightarrow> string \<Rightarrow> part list \<times> ioerr option" where
  "read_parts b nl n e s =
     (case nextPart b nl n False e s of
        NoPart \<Rightarrow> ([], None)
      | PartErr err \<Rightarrow> ([], if err = EOF then None else Some err)
      | NextPart p nl' rest \<Rightarrow> (case read_parts b nl' (Suc n) e rest of (ps, fin) \<Rightarrow> (p # ps, fin)))"
  by pat_completeness auto
termination
  by (relation "measure (\<lambda>(b, nl, n, e, s). length s)") (auto dest: nextPart_shorter)

declare read_parts.simps [simp del]

definition multipart_parts :: "string \<Rightarrow> reader \<Rightarrow> part list \<times> ioerr option" where
  "multipart_parts b r = (case r of (s, e) \<Rightarrow> read_parts b crlf 0 e s)"

lemma read_parts_shorter:
  "(h, body, e') \<in> set (fst (read_parts b nl n e s)) \<Longrightarrow> length body < length s"
proof (induction b nl n e s rule: read_parts.induct)
  case (1 b nl n e s)
  show ?case
  proof (cases "nextPart b nl n False e s")
    case (NextPart p nl' rest)
    obtain h1 b1 e1 where p: "p = (h1, b1, e1)" by (metis surj_pair)
    have "length rest < length s" "length b1 < length s"
      using nextPart_shorter [of b nl n False e s h1 b1 e1 nl' rest] NextPart p by simp_all
    then show ?thesis using 1 NextPart p
      by (auto simp: read_parts.simps [of b nl n e s] split: prod.splits)
  qed (use 1(2) in \<open>auto simp: read_parts.simps [of b nl n e s]\<close>)
qed

lemma multipart_parts_shorter:
  "(h, body, e') \<in> set (fst (multipart_parts b (s, e))) \<Longrightarrow> length body < length s"
  using read_parts_shorter by (simp add: multipart_parts_def)

section \<open>Reading the parts of a well-formed body\<close>

definition header_text :: "(string \<times> string) list \<Rightarrow> string" where
  "header_text fs = concat (map (\<lambda>(k, v). field_text k v @ crlf) fs)"

definition multipart_text :: "string \<Rightarrow> ((string \<times> string) list \<times> string) list \<Rightarrow> string" where
  "multipart_text b ps =
     concat (map (\<lambda>(fs, t). dashBoundary b @ crlf @ header_text fs @ crlf @ t @ crlf) ps) @
     dashBoundary b @ ''--'' @ crlf"

text \<open>A boundary is a short line; the text of a part does not contain it.\<close>

definition boundary_ok :: "string \<Rightarrow> bool" where
  "boundary_ok b \<longleftrightarrow> b \<noteq> [] \<and> length b \<le> 70 \<and> CR \<notin> set b \<and> LF \<notin> set b"

lemma cut_at_prefix: "cut_at sep (sep @ x) = Some ([], x)"
  by (cases sep; cases x) (simp_all add: has_prefix_iff)

lemma contains_iff: "contains s sub \<longleftrightarrow> (\<exists>p q. s = p @ sub @ q)"
proof
  show "contains s sub \<Longrightarrow> \<exists>p q. s = p @ sub @ q" by (auto simp: contains_def dest: cut_at_Some)
  have "cut_at sub (p @ sub @ q) \<noteq> None" for p q
  proof (induction p)
    case Nil
    then show ?case by (simp add: cut_at_prefix)
  qed auto
  then show "\<exists>p q. s = p @ sub @ q \<Longrightarrow> contains s sub" by (auto simp: contains_def)
qed

lemma cut_at_first:
  "sep \<noteq> [] \<Longrightarrow> (\<And>u v. t = u @ v \<Longrightarrow> v \<noteq> [] \<Longrightarrow> \<not> has_prefix (v @ sep @ post) sep) \<Longrightarrow>
     cut_at sep (t @ sep @ post) = Some (t, post)"
proof (induction t)
  case Nil
  then show ?case by (simp add: cut_at_prefix)
next
  case (Cons c t)
  have "\<not> has_prefix ((c # t) @ sep @ post) sep" using Cons.prems(2) [of "[]" "c # t"] by simp
  moreover have "cut_at sep (t @ sep @ post) = Some (t, post)"
    using Cons.prems by (intro Cons.IH) (metis append_Cons)+
  ultimately show ?case by simp
qed

lemma no_overlap:
  assumes "boundary_ok b" "\<not> contains t (dashBoundary b)"
  shows "\<not> has_prefix (t @ crlf @ x) (dashBoundary b)"
proof
  let ?d = "dashBoundary b"
  assume "has_prefix (t @ crlf @ x) ?d"
  then obtain y where y: "t @ crlf @ x = ?d @ y" by (auto simp: has_prefix_iff)
  have "CR \<notin> set ?d" using assms(1) by (simp add: boundary_ok_def dashBoundary_def)
  from y consider us where "t @ us = ?d" "crlf @ x = us @ y" | z where "t = ?d @ z"
    by (auto simp: append_eq_append_conv2)
  then obtain z where "t = ?d @ z"
  proof cases
    case 1
    have "us = []"
    proof (cases us)
      case (Cons c us')
      then have "CR \<in> set (t @ us)" using 1(2) by simp
      then show ?thesis using 1(1) \<open>CR \<notin> set ?d\<close> by simp
    qed simp
    then show ?thesis using 1 that [of "[]"] by simp
  qed (rule that)
  then show False using assms(2) contains_iff by (metis append_Nil)
qed

lemma cut_at_boundary:
  assumes "boundary_ok b" "\<not> contains t (dashBoundary b)"
  shows "cut_at (crlf @ dashBoundary b) (t @ crlf @ dashBoundary b @ x) = Some (t, x)"
proof -
  have "cut_at (crlf @ dashBoundary b) (t @ (crlf @ dashBoundary b) @ x) = Some (t, x)"
  proof (rule cut_at_first)
    fix u v assume t: "t = u @ v" "v \<noteq> []"
    show "\<not> has_prefix (v @ (crlf @ dashBoundary b) @ x) (crlf @ dashBoundary b)"
    proof
      assume "has_prefix (v @ (crlf @ dashBoundary b) @ x) (crlf @ dashBoundary b)"
      then obtain v' where v: "v = CR # LF # v'" and p: "has_prefix (v' @ crlf @ dashBoundary b @ x) (dashBoundary b)"
        using t(2) by (cases v; cases "tl v") auto
      have "t = (u @ crlf) @ v'" using t(1) v by simp
      then have "\<not> contains v' (dashBoundary b)" using assms(2) unfolding contains_iff by (metis append_assoc)
      then show False using no_overlap [OF assms(1)] p by blast
    qed
  qed simp
  then show ?thesis by simp
qed

lemma part_body_found:
  assumes "boundary_ok b" "\<not> contains t (dashBoundary b)" "matchAfterPrefix x = Some True"
  shows "part_body b crlf True (t @ crlf @ dashBoundary b @ x) = (t, crlf @ dashBoundary b @ x, True)"
proof -
  have "\<not> has_prefix (t @ crlf @ dashBoundary b @ x) (dashBoundary b)" by (rule no_overlap [OF assms(1,2)])
  moreover have "\<not> has_prefix (dashBoundary b) (t @ crlf @ dashBoundary b @ x)"
  proof
    assume "has_prefix (dashBoundary b) (t @ crlf @ dashBoundary b @ x)"
    then have "CR \<in> set (dashBoundary b)" by (auto simp: has_prefix_iff)
    then show False using assms(1) by (simp add: boundary_ok_def dashBoundary_def)
  qed
  ultimately show ?thesis using cut_at_boundary [OF assms(1,2)] assms(3)
    by (simp add: part_body.simps)
qed

lemma multipart_text_start: "\<exists>x. multipart_text b ps = dashBoundary b @ x \<and> matchAfterPrefix x = Some True"
  by (cases ps) (auto simp: multipart_text_def matchAfterPrefix_def split: prod.splits)

definition part_ok :: "string \<Rightarrow> (string \<times> string) list \<times> string \<Rightarrow> bool" where
  "part_ok b p \<longleftrightarrow> (case p of (fs, t) \<Rightarrow> list_all field_ok fs \<and> \<not> contains t (dashBoundary b))"

lemma newPart_text:
  assumes "boundary_ok b" "part_ok b (fs, t)"
  shows "newPart b crlf e (header_text fs @ crlf @ t @ crlf @ multipart_text b ps) =
    NextPart (decode_part (header_of fs) (t, EOF)) crlf (crlf @ multipart_text b ps)"
proof -
  obtain x where x: "multipart_text b ps = dashBoundary b @ x" "matchAfterPrefix x = Some True"
    using multipart_text_start by blast
  have "ReadMIMEHeader e (header_text fs @ crlf @ t @ crlf @ multipart_text b ps) =
      ((header_of fs, None), t @ crlf @ multipart_text b ps)"
    using ReadMIMEHeader_fields [of fs e] assms(2) by (simp add: part_ok_def header_text_def)
  moreover have "part_body b crlf True (t @ crlf @ multipart_text b ps) = (t, crlf @ multipart_text b ps, True)"
    using part_body_found [OF assms(1) _ x(2)] assms(2) by (simp add: x(1) part_ok_def)
  ultimately show ?thesis by (simp add: newPart_def)
qed

text \<open>Lines of a boundary, before a part and at the end.\<close>

lemma boundary_line:
  assumes "boundary_ok b"
  shows "slice_line (dashBoundary b @ crlf @ s, e) = (dashBoundary b @ crlf, None, s)"
    and "slice_line (dashBoundary b @ ''--'' @ crlf @ s, e) = (dashBoundary b @ ''--'' @ crlf, None, s)"
    and "slice_line (crlf @ s, e) = (crlf, None, s)"
  using slice_line_LF [of "dashBoundary b @ [CR]" s e] slice_line_LF [of "dashBoundary b @ ''--'' @ [CR]" s e]
    slice_line_LF [of "[CR]" s e] assms
  by (simp_all add: boundary_ok_def dashBoundary_def)

lemma delimiter_lines:
  "isBoundaryDelimiterLine b crlf f (dashBoundary b @ crlf) = (True, crlf)"
  "isBoundaryDelimiterLine b crlf f (dashBoundary b @ ''--'' @ crlf) = (False, crlf)"
  "isFinalBoundary b crlf (dashBoundary b @ ''--'' @ crlf)"
  "isBoundaryDelimiterLine b crlf f crlf = (False, crlf)" "\<not> isFinalBoundary b crlf crlf"
proof -
  show "isFinalBoundary b crlf (dashBoundary b @ ''--'' @ crlf)"
    unfolding isFinalBoundary_def using has_prefix_append [of "dashBoundary b @ ''--''" crlf]
    by (simp add: wsp_def Let_def del: has_prefix_append)
  show "isBoundaryDelimiterLine b crlf f crlf = (False, crlf)" "\<not> isFinalBoundary b crlf crlf"
    by (simp_all add: isBoundaryDelimiterLine_def isFinalBoundary_def dashBoundary_def)
qed (simp_all add: isBoundaryDelimiterLine_def wsp_def)

lemma nextPart_part:
  assumes "boundary_ok b"
  shows "nextPart b crlf n x e (dashBoundary b @ crlf @ s) = newPart b crlf e s"
  using boundary_line(1) [OF assms] delimiter_lines(1) by (simp add: nextPart.simps)

lemma nextPart_final:
  assumes "boundary_ok b"
  shows "nextPart b crlf n x e (dashBoundary b @ ''--'' @ crlf) = NoPart"
  using boundary_line(2) [OF assms, of "[]" e] delimiter_lines by (simp add: nextPart.simps)

lemma nextPart_separator:
  assumes "boundary_ok b" "n \<noteq> 0"
  shows "nextPart b crlf n False e (crlf @ s) = nextPart b crlf n True e s"
  using boundary_line(3) [OF assms(1), of s e] delimiter_lines assms(2)
  by (subst nextPart.simps) simp

lemma nextPart_text:
  assumes "boundary_ok b"
  shows "nextPart b crlf n x e (multipart_text b ps) =
    (case ps of
       [] \<Rightarrow> NoPart
     | (fs, t) # ps' \<Rightarrow> newPart b crlf e (header_text fs @ crlf @ t @ crlf @ multipart_text b ps'))"
  using nextPart_part [OF assms] nextPart_final [OF assms]
  by (cases ps) (auto simp: multipart_text_def split: prod.splits)

lemma read_parts_text:
  assumes "boundary_ok b" "list_all (part_ok b) ps"
  shows "read_parts b crlf n e ((if n = 0 then [] else crlf) @ multipart_text b ps) =
    (map (\<lambda>(fs, t). decode_part (header_of fs) (t, EOF)) ps, None)"
  using assms(2)
proof (induction ps arbitrary: n)
  case Nil
  have "nextPart b crlf n False e ((if n = 0 then [] else crlf) @ multipart_text b []) = NoPart"
    using nextPart_text [OF assms(1)] nextPart_separator [OF assms(1)] by (cases "n = 0") simp_all
  then show ?case by (subst read_parts.simps) simp
next
  case (Cons p ps)
  obtain fs t where p: "p = (fs, t)" by force
  have "nextPart b crlf n False e ((if n = 0 then [] else crlf) @ multipart_text b (p # ps)) =
      NextPart (decode_part (header_of fs) (t, EOF)) crlf (crlf @ multipart_text b ps)"
    using nextPart_text [OF assms(1)] nextPart_separator [OF assms(1)] newPart_text [OF assms(1)] Cons.prems
    by (cases "n = 0") (simp_all add: p)
  then show ?case using Cons.IH [of "Suc n"] Cons.prems p by (subst read_parts.simps) simp
qed

lemma multipart_parts_text:
  "boundary_ok b \<Longrightarrow> list_all (part_ok b) ps \<Longrightarrow>
     multipart_parts b (multipart_text b ps, e) = (map (\<lambda>(fs, t). decode_part (header_of fs) (t, EOF)) ps, None)"
  using read_parts_text [of b ps 0 e] by (simp add: multipart_parts_def)

end
