(* ===== verification/Mail.thy ===== *)
theory Mail imports Charsets Go_Multipart begin

text \<open>
  envelope/mail.go and the constants of consts.go: a mail as its header and body, the decoding of
  its header, and its body as a tree of parts. Arguments are the decoders of character sets
  (xtext), the order in which a range over a map visits it (rng), and the parsers of addresses.
  The callback of Walk does not change the content it is shown.
\<close>

section \<open>Constants (consts.go)\<close>

definition MimeMultipartMixed :: string where "MimeMultipartMixed = ''multipart/mixed''"
definition MimeMultipartAlternative :: string where "MimeMultipartAlternative = ''multipart/alternative''"
definition MimeMultipartRelated :: string where "MimeMultipartRelated = ''multipart/related''"
definition MimeMultipartSigned :: string where "MimeMultipartSigned = ''multipart/signed''"
definition MimeMultipartEncrypted :: string where "MimeMultipartEncrypted = ''multipart/encrypted''"
definition MimeTextPlain :: string where "MimeTextPlain = ''text/plain''"
definition MimeTextHtml :: string where "MimeTextHtml = ''text/html''"
definition MimeTextEnriched :: string where "MimeTextEnriched = ''text/enriched''"
definition MimeTextCalendar :: string where "MimeTextCalendar = ''text/calendar''"
definition MimeMessageEmail :: string where "MimeMessageEmail = ''message/rfc822''"
definition MimeMessageDeliveryStatus :: string where "MimeMessageDeliveryStatus = ''message/delivery-status''"
definition MimeMessageDispositionNotification :: string where "MimeMessageDispositionNotification = ''message/disposition-notification''"
definition MimeImageJpeg :: string where "MimeImageJpeg = ''image/jpeg''"
definition MimeImagePng :: string where "MimeImagePng = ''image/png''"
definition MimeImageGif :: string where "MimeImageGif = ''image/gif''"
definition MimeApplicationPdf :: string where "MimeApplicationPdf = ''application/pdf''"
definition MimeApplicationOctet :: string where "MimeApplicationOctet = ''application/octet-stream''"
definition MimeApplicationPkcs7Mime :: string where "MimeApplicationPkcs7Mime = ''application/pkcs7-mime''"
definition MimeApplicationPgpEncrypted :: string where "MimeApplicationPgpEncrypted = ''application/pgp-encrypted''"
definition MimeApplicationPgpSignature :: string where "MimeApplicationPgpSignature = ''application/pgp-signature''"

section \<open>A mail\<close>

record Mail =
  mail_UTF8 :: bool
  RawHeaders :: string
  RawBody :: string

definition NewMail :: "string \<Rightarrow> bool \<Rightarrow> string + Mail" where
  "NewMail data utf8 =
     (case go_cut data (crlf @ crlf) of (header1, body1, found1) \<Rightarrow>
        case (if found1 then (header1, body1, True) else go_cut data [LF, LF]) of (header, body, found) \<Rightarrow>
          if \<not> found then Inl ''could not find body''
          else Inr \<lparr>mail_UTF8 = utf8, RawHeaders = header, RawBody = body\<rparr>)"

definition Envelope_Mail :: "envelope \<Rightarrow> string + Mail" where
  "Envelope_Mail e = NewMail (data_Bytes (Data e)) (UTF8 e)"

section \<open>Headers\<close>

record decodingConfig =
  quoteEscapeHeaders :: "string list"
  specials :: string
  literalHeaders :: bool

type_synonym DecodingOption = "decodingConfig \<Rightarrow> decodingConfig"

definition WithQuoteEscape :: "string list \<Rightarrow> DecodingOption" where
  "WithQuoteEscape headers cfg = cfg\<lparr>quoteEscapeHeaders := quoteEscapeHeaders cfg @ headers\<rparr>"

definition WithQuoteNone :: DecodingOption where
  "WithQuoteNone cfg = cfg\<lparr>quoteEscapeHeaders := []\<rparr>"

definition WithLiteral :: DecodingOption where
  "WithLiteral cfg = cfg\<lparr>literalHeaders := True\<rparr>"

definition default_config :: decodingConfig where
  "default_config =
     \<lparr>quoteEscapeHeaders = [''from'', ''to'', ''cc'', ''bcc'', ''reply-to'', ''sender''],
      specials = [QUOTE] @ ''#$%&'' @ [CHR 0x27] @ ''(),.:;<>@[]^'' @ [CHR 0x60] @ ''{|}~'',
      literalHeaders = False\<rparr>"

text \<open>
  One word of a field that is quoted: a word that decoding changed is escaped and put in quotes if
  it holds a special byte. The error of the last word decoded is kept.
\<close>

definition quote_word :: "decodingConfig \<Rightarrow> string \<Rightarrow> string \<Rightarrow> string" where
  "quote_word cfg part w =
     (if w = part then w
      else
        let w1 = concat (map (\<lambda>c. if c = QUOTE then [BACKSLASH, QUOTE] else [c]) w)
        in if \<exists>c \<in> set w1. c \<in> set (specials cfg) then [QUOTE] @ w1 @ [QUOTE] else w1)"

fun decode_parts :: "charset_reader \<Rightarrow> decodingConfig \<Rightarrow> ioerr option \<Rightarrow> string list \<Rightarrow> string list \<times> ioerr option" where
  "decode_parts cs cfg err [] = ([], err)"
| "decode_parts cs cfg err (part # parts) =
     (let (w, err') = (case DecodeHeader cs part of Inl e \<Rightarrow> ([], Some e) | Inr w \<Rightarrow> (w, None))
      in case decode_parts cs cfg err' parts of (ws, err'') \<Rightarrow> (quote_word cfg part w # ws, err''))"

text \<open>
  decodeWords: the value or the error, and the error variable of Headers, which the closure
  assigns to when it quotes.
\<close>

definition decodeWords ::
  "charset_reader \<Rightarrow> decodingConfig \<Rightarrow> string \<Rightarrow> bool \<Rightarrow> ioerr option \<Rightarrow> (ioerr + string) \<times> ioerr option" where
  "decodeWords cs cfg str quote err =
     (if \<not> quote then (DecodeHeader cs str, err)
      else case decode_parts cs cfg err (split_on SP str) of (ws, err') \<Rightarrow>
        (case err' of Some e \<Rightarrow> Inl e | None \<Rightarrow> Inr (join '' '' ws), err'))"

fun decode_values ::
  "charset_reader \<Rightarrow> decodingConfig \<Rightarrow> bool \<Rightarrow> ioerr option \<Rightarrow> string list \<Rightarrow> string list \<times> ioerr option" where
  "decode_values cs cfg quote err [] = ([], err)"
| "decode_values cs cfg quote err (v # vv) =
     (case decodeWords cs cfg v quote err of (r, err') \<Rightarrow>
        case decode_values cs cfg quote err' vv of (vv2, err'') \<Rightarrow>
          ((case r of Inl _ \<Rightarrow> v | Inr v2 \<Rightarrow> v2) # vv2, err''))"

fun decode_all ::
  "charset_reader \<Rightarrow> decodingConfig \<Rightarrow> ioerr option \<Rightarrow> mime_header \<Rightarrow> mime_header \<times> ioerr option" where
  "decode_all cs cfg err [] = ([], err)"
| "decode_all cs cfg err ((k, vv) # h) =
     (case decode_values cs cfg (to_lower k \<in> set (quoteEscapeHeaders cfg)) err vv of (vv2, err') \<Rightarrow>
        case decode_all cs cfg err' h of (h2, err'') \<Rightarrow> ((k, vv2) # h2, err''))"

type_synonym header_range = "mime_header \<Rightarrow> mime_header"

definition mail_Headers ::
  "xtext \<Rightarrow> header_range \<Rightarrow> DecodingOption list \<Rightarrow> Mail \<Rightarrow> mime_header \<times> ioerr option" where
  "mail_Headers xtext rng options m =
     (let cfg = fold (\<lambda>option cfg. option cfg) options default_config;
          ((h, err0), _) = ReadMIMEHeader EOF (RawHeaders m);
          err = (if err0 = Some EOF then None else err0)
      in if literalHeaders cfg then (h, err)
         else if mail_UTF8 m \<and> \<not> contains (RawHeaders m) ''=?'' then (h, err)
         else decode_all (charsetReader xtext) cfg err (rng h))"

definition header_From :: "(string \<Rightarrow> string + address) \<Rightarrow> mime_header \<Rightarrow> string + address" where
  "header_From parseAddress h = parseAddress (header_Get h ''From'')"

definition header_To :: "(string \<Rightarrow> string + address list) \<Rightarrow> mime_header \<Rightarrow> string + address list" where
  "header_To parseAddressList h = parseAddressList (header_Get h ''To'')"

section \<open>The body as a tree\<close>

datatype Content = Content (Headers: mime_header) (Body: string) (Children: "Content list")

text \<open>The results of a list of computations, up to the first error.\<close>

fun all_or_error :: "('a \<Rightarrow> 'e + 'b) \<Rightarrow> 'a list \<Rightarrow> 'e + 'b list" where
  "all_or_error f [] = Inr []"
| "all_or_error f (x # xs) =
     (case f x of
        Inl e \<Rightarrow> Inl e
      | Inr y \<Rightarrow> (case all_or_error f xs of Inl e \<Rightarrow> Inl e | Inr ys \<Rightarrow> Inr (y # ys)))"

lemma all_or_error_cong [fundef_cong]:
  "xs = ys \<Longrightarrow> (\<And>x. x \<in> set ys \<Longrightarrow> f x = g x) \<Longrightarrow> all_or_error f xs = all_or_error g ys"
  by (induction xs arbitrary: ys) (auto split: sum.splits)

function parseContent :: "mime_header \<Rightarrow> string \<Rightarrow> ioerr \<Rightarrow> string + Content" where
  "parseContent headers s e =
     (case ParseMediaType (header_Get headers ''Content-Type'') of
        (_, _, Some err) \<Rightarrow> Inl err
      | (mediaType, params, None) \<Rightarrow>
          if has_prefix mediaType ''multipart/''
          then
            (let boundary = dict_get params ''boundary'' in
             if boundary = [] then Inl ''no boundary in Content-Type params''
             else case all_or_error (\<lambda>(h, s', e'). parseContent h s' e') (fst (multipart_parts boundary (s, e))) of
                 Inl err \<Rightarrow> Inl err
               | Inr children \<Rightarrow>
                   (case snd (multipart_parts boundary (s, e)) of
                      Some err \<Rightarrow> Inl (''failed to get part: '' @ ioerr_Error err)
                    | None \<Rightarrow> Inr (Content headers [] children)))
          else if e \<noteq> EOF then Inl (''failed to read body: '' @ ioerr_Error e)
          else Inr (Content headers s []))"
  by pat_completeness auto
termination
  by (relation "measure (\<lambda>(h, s, e). length s)") (auto dest: multipart_parts_shorter)

declare parseContent.simps [simp del]

text \<open>The fields of the header that the top of the tree keeps.\<close>

definition keep_field :: "mime_header \<Rightarrow> string \<Rightarrow> mime_header \<Rightarrow> mime_header" where
  "keep_field h key head =
     (let v = header_Get h key in if v \<noteq> [] then header_Set key v head else head)"

definition body_head :: "mime_header \<Rightarrow> mime_header" where
  "body_head h =
     keep_field h ''Content-ID'' (keep_field h ''Content-Disposition''
       (keep_field h ''Content-Transfer-Encoding''
         (header_Set ''Content-Type'' (header_Get h ''Content-Type'') [])))"

definition mail_Body :: "xtext \<Rightarrow> header_range \<Rightarrow> Mail \<Rightarrow> string + Content" where
  "mail_Body xtext rng m =
     (case mail_Headers xtext rng [] m of
        (_, Some err) \<Rightarrow> Inl (ioerr_Error err)
      | (h, None) \<Rightarrow> parseContent (body_head h) (RawBody m) EOF)"

section \<open>One content\<close>

text \<open>Reading to the end: the bytes and the error, none if it is EOF.\<close>

definition read_all :: "reader \<Rightarrow> string \<times> ioerr option" where
  "read_all r = (case r of (s, e) \<Rightarrow> (s, if e = EOF then None else Some e))"

definition filename :: "Content \<Rightarrow> string + string" where
  "filename c =
     (let header = header_Get (Headers c) ''Content-Disposition'' in
      case ParseMediaType header of
        (_, _, Some err) \<Rightarrow> Inl (''failed to parse Content-Disposition: '' @ err)
      | (_, params, None) \<Rightarrow>
          (case (if dict_get params ''filename'' \<noteq> [] then Inr (dict_get params ''filename'')
                 else case ParseMediaType (header_Get (Headers c) ''Content-Type'') of
                     (_, _, Some err) \<Rightarrow> Inl (''failed to parse Content-Tyep: '' @ err)
                   | (_, params', None) \<Rightarrow> Inr (dict_get params' ''name'')) of
             Inl err \<Rightarrow> Inl err
           | Inr name \<Rightarrow>
               if name = [] then Inl ''no filename in Content-Disposition nor name in Content-Type params''
               else if contains header ''filename*'' then Inr name
               else (case QueryUnescape name of
                   Inl err \<Rightarrow> Inl (''failed to unescape filename: '' @ err)
                 | Inr n \<Rightarrow> Inr n)))"

definition Encoding :: "Content \<Rightarrow> string" where
  "Encoding c =
     (let enc = header_Get (Headers c) ''Content-Transfer-Encoding''
      in if enc = [] then ''7bit'' else enc)"

text \<open>The decoder of a character set, unknown ones left alone.\<close>

definition toUTF8 :: "xtext \<Rightarrow> string \<Rightarrow> reader \<Rightarrow> reader" where
  "toUTF8 xtext charset r =
     (if charset = ''utf-8'' then r
      else case (case map_of charsetEncodings charset of
            Some m \<Rightarrow> Some m
          | None \<Rightarrow> map_of charsetEncodings (dict_get charsetAliases charset)) of
          Some m \<Rightarrow> xtext m r
        | None \<Rightarrow> r)"

definition Decode :: "xtext \<Rightarrow> Content \<Rightarrow> string \<times> ioerr option" where
  "Decode xtext c =
     (let enc = Encoding c in
      case ParseMediaType (header_Get (Headers c) ''Content-Type'') of
        (_, _, Some err) \<Rightarrow> ([], Some (OtherErr (''failed to parse Content-Type: '' @ err)))
      | (_, params, None) \<Rightarrow>
          (let charset0 = to_lower (dict_get params ''charset'');
               charset = (if charset0 = [] then ''utf-8'' else charset0)
           in if enc = ''quoted-printable'' then read_all (toUTF8 xtext charset (qp_read (Body c, EOF)))
              else if enc = ''base64''
              then (case b64_decode (Body c) of
                  Inl err \<Rightarrow> ([], Some (OtherErr (''failed to decode base64: '' @ err)))
                | Inr data \<Rightarrow> read_all (toUTF8 xtext charset (data, EOF)))
              else if enc \<in> {''7bit'', ''8bit'', ''binary''}
              then read_all (toUTF8 xtext charset (Body c, EOF))
              else ([], Some (OtherErr (''unknown encoding: '' @ enc)))))"

definition Leaf :: "Content \<Rightarrow> bool" where
  "Leaf c \<longleftrightarrow> Children c = [] \<and> \<not> has_prefix (header_Get (Headers c) ''Content-Type'') ''multipart/''"

definition disposition :: "Content \<Rightarrow> string" where
  "disposition c = to_lower (fst (ParseMediaType (header_Get (Headers c) ''Content-Disposition'')))"

definition IsForm :: "Content \<Rightarrow> bool" where
  "IsForm c \<longleftrightarrow> disposition c = ''form-data''"

definition IsInline :: "Content \<Rightarrow> bool" where
  "IsInline c \<longleftrightarrow> disposition c = ''inline''"

definition IsAttachment :: "Content \<Rightarrow> bool" where
  "IsAttachment c \<longleftrightarrow> disposition c = ''attachment''"

datatype FormPart = FormPart Content
datatype InlinePart = InlinePart Content
datatype AttachmentPart = AttachmentPart Content

definition AsForm :: "Content \<Rightarrow> string + FormPart" where
  "AsForm c = (if \<not> IsForm c then Inl ''not a form'' else Inr (FormPart c))"

definition AsInline :: "Content \<Rightarrow> string + InlinePart" where
  "AsInline c = (if \<not> IsInline c then Inl ''not an inline'' else Inr (InlinePart c))"

definition AsAttachment :: "Content \<Rightarrow> string + AttachmentPart" where
  "AsAttachment c = (if \<not> IsAttachment c then Inl ''not an attachment'' else Inr (AttachmentPart c))"

definition FormPart_Filename :: "FormPart \<Rightarrow> string + string" where
  "FormPart_Filename a = (case a of FormPart c \<Rightarrow> filename c)"

definition FormPart_Name :: "FormPart \<Rightarrow> string + string" where
  "FormPart_Name a =
     (case a of FormPart c \<Rightarrow>
        case ParseMediaType (header_Get (Headers c) ''Content-Disposition'') of
          (_, _, Some err) \<Rightarrow> Inl (''failed to parse Content-Disposition: '' @ err)
        | (_, params, None) \<Rightarrow>
            if dict_get params ''name'' = [] then Inl ''no name in Content-Disposition params''
            else Inr (dict_get params ''name''))"

definition InlinePart_Filename :: "InlinePart \<Rightarrow> string + string" where
  "InlinePart_Filename a = (case a of InlinePart c \<Rightarrow> filename c)"

definition AttachmentPart_Filename :: "AttachmentPart \<Rightarrow> string + string" where
  "AttachmentPart_Filename a = (case a of AttachmentPart c \<Rightarrow> filename c)"

section \<open>Walking over the tree\<close>

text \<open>A callback works on a state and may stop the walk with an error.\<close>

fun until_error :: "('a \<Rightarrow> 's \<Rightarrow> 'e option \<times> 's) \<Rightarrow> 'a list \<Rightarrow> 's \<Rightarrow> 'e option \<times> 's" where
  "until_error f [] st = (None, st)"
| "until_error f (x # xs) st =
     (case f x st of
        (Some e, st') \<Rightarrow> (Some e, st')
      | (None, st') \<Rightarrow> until_error f xs st')"

lemma until_error_cong [fundef_cong]:
  "xs = ys \<Longrightarrow> st = st' \<Longrightarrow> (\<And>x st. x \<in> set ys \<Longrightarrow> f x st = g x st) \<Longrightarrow> until_error f xs st = until_error g ys st'"
  by (induction xs arbitrary: ys st st') (auto split: prod.splits option.splits)

fun walk_from :: "(Content \<Rightarrow> nat \<Rightarrow> 's \<Rightarrow> 'e option \<times> 's) \<Rightarrow> nat \<Rightarrow> Content \<Rightarrow> 's \<Rightarrow> 'e option \<times> 's" where
  "walk_from fn level (Content h b cs) st =
     (case fn (Content h b cs) level st of
        (Some e, st') \<Rightarrow> (Some e, st')
      | (None, st') \<Rightarrow> until_error (\<lambda>child st. walk_from fn (Suc level) child st) cs st')"

definition Walk :: "(Content \<Rightarrow> nat \<Rightarrow> 's \<Rightarrow> 'e option \<times> 's) \<Rightarrow> Content \<Rightarrow> 's \<Rightarrow> 'e option \<times> 's" where
  "Walk fn c st = walk_from fn 0 c st"

fun Flatten :: "Content \<Rightarrow> Content list" where
  "Flatten (Content h b cs) =
     (if Leaf (Content h b cs) then [Content h b []] else concat (map Flatten cs))"

end
