(* ===== verification/Example.thy ===== *)
theory Example imports Connection Middleware Mail begin

text \<open>
  example/server.go: the server of the example, which the README repeats: its middlewares, its
  handler and its settings. What the handler prints is left out, and so are the certificates and
  the goroutine that waits for a signal.
\<close>

definition example_middlewares :: "Middleware option list" where
  "example_middlewares = [Some (Logger True []), Some Recover, Some AddReturnPath]"

definition example_handler :: HandlerFunc where
  "example_handler = NewHandler (\<lambda>e.
     case Envelope_Mail e of
       Inl err \<Rightarrow> (Returned (Some (Canned FailSyntaxError)), e)
     | Inr mail \<Rightarrow> (Returned (Some (NewResponse 250 ''OK'')), e))"

definition example_server :: server where
  "example_server =
     \<lparr>has_Logger = True, Middlewares = example_middlewares, Handler = Some example_handler,
      TLSConfig = True, TLSAlwaysOn = False, Hostname = ''example.com'', Addr = '':25'',
      MaxSize = 0, ServerTimeout = 0, MaxClients = 0, XClientOn = False, ProxyOn = False,
      MaxRecipients = 0, MaxUnrecognizedCommands = 0, has_closedListener = False\<rparr>"

text \<open>The server as ListenAndServe runs it, whatever os.Hostname answers.\<close>

definition example_running :: server where
  "example_running = example_server\<lparr>MaxClients := defaultMaxClients, ServerTimeout := defaultTimeout,
     MaxSize := defaultMaxSize, MaxRecipients := defaultMaxRecipients,
     MaxUnrecognizedCommands := defaultMaxUnrecognizedCommands, has_closedListener := True\<rparr>"

lemma example_defaults: "setDefaults os_Hostname example_server = (None, example_running)"
  by (simp add: setDefaults_def example_server_def example_running_def Let_def)

text \<open>Middlewares that read the address of the sender panic if there is none.\<close>

lemma sender_missing:
  "MailFrom e = None \<Longrightarrow> AddReturnPath nxt e = (Panicked nil_pointer, e)"
  "MailFrom e = None \<Longrightarrow> Logger True [] nxt e = (Panicked nil_pointer, e)"
  by (simp_all add: AddReturnPath_def Logger_def default_settings_def)

text \<open>
  With a sender, the chain of the example answers 250 to a message that has a body and with
  a syntax error to any other, never nil and never with a panic, and the handler sees the message
  behind a Return-Path field.
\<close>

lemma example_chain:
  assumes "MailFrom e = Some a"
  shows "\<exists>e'. build_chain example_middlewares example_handler e = (Returned (Some
      (case Envelope_Mail e' of Inl _ \<Rightarrow> Canned FailSyntaxError | Inr _ \<Rightarrow> NewResponse 250 ''OK'')), e') \<and>
    data_Bytes (Data e') = ''Return-Path: <'' @ addr_Address a @ ''>'' @ crlf @ data_Bytes (Data e)"
proof -
  have key: "CanonicalMIMEHeaderKey ''Return-Path'' = ''Return-Path''" by code_simp
  show ?thesis using assms
    by (auto simp: example_middlewares_def build_chain_Cons nil2success_def Recover_def AddReturnPath_def
        example_handler_def NewHandler_def Logger_def default_settings_def response_fields_def
        Bytes_PrependHeader header_line_def key split: sum.splits option.splits)
qed

end
