(* ===== verification/Session_Errors.thy ===== *)
theory Session_Errors imports Session_Delivery Example begin

text \<open>
  Where the session does not do what its documentation says: a wrapped response reaches the
  client without its code, and DATA is accepted without a sender, which the middlewares of the
  package dereference.
\<close>

section \<open>What a response looks like on the wire\<close>

lemma show_nat_three: "100 \<le> n \<Longrightarrow> n \<le> 999 \<Longrightarrow> length (show_nat n) = 3"
proof -
  assume "100 \<le> n" "n \<le> 999"
  then have "\<not> n < 10" "\<not> n div 10 < 10" "n div 10 div 10 < 10" by auto
  then show ?thesis
    by (simp add: show_nat.simps [of n] show_nat.simps [of "n div 10"] show_nat.simps [of "n div 10 div 10"])
qed

lemma coded_result:
  assumes "100 \<le> code" "code \<le> 999"
  shows "coded (result_String code str)"
proof -
  have l: "length (show_nat (nat code)) = 3" using assms by (intro show_nat_three) auto
  have "list_all is_digit (show_nat (nat code))" using show_nat_digits by (auto simp: list_all_iff)
  with l assms show ?thesis by (simp add: coded_def result_String_def show_int_def Let_def)
qed

text \<open>
  C19: The reply to a message begins with a status code when the chain answers with one of the
  package's responses or with NewResponse and a three-digit code; but for a response wrapped with
  an error by WrapResponse the client is sent the text of the error alone, whatever its code and
  text are.
\<close>

theorem reply_texts:
  assumes "r \<in> set canned_responses" "100 \<le> code" "code \<le> 999"
  shows "coded (item_text (Resp (Canned r))) \<and> coded (item_text (Resp (NewResponse code str)))
    \<and> item_text (Resp (WrapResponse res err)) = err"
  using assms coded_result by (simp add: NewResponse_def WrapResponse_def)

theorem reply_texts_witness:
  "coded (item_text (Resp (Canned SuccessMessageQueued))) \<and>
   item_text (Resp (WrapResponse (NewResponse 550 ''no'') ''db down'')) = ''db down''"
proof -
  have "SuccessMessageQueued \<in> set canned_responses" by (simp add: canned_responses_def)
  from reply_texts [OF this, of 550] show ?thesis by simp
qed

section \<open>A message without a sender\<close>

text \<open>
  C18: A client that sends RCPT and DATA without MAIL gets its message read, and on a server whose
  first middleware is AddReturnPath or Logger, as in the example and the README, the goroutine of
  the connection then panics on the missing sender, after replies that accepted both commands.
  (Nothing in the package recovers it, a Recover behind the Logger neither: the process ends.)
\<close>

theorem no_sender_panics:
  assumes "ready s c" "avail (conn_in c) = ''RCPT TO:'' @ a @ crlf @ ''DATA'' @ crlf @ stuff ls @ rest"
    and "MailFrom (Env c) = None" "RcptTo (Env c) = []" "0 \<le> MaxRecipients s"
    and "clean a" "ParseAddress p a = Inr adr" "\<And>l. l \<in> set ls \<Longrightarrow> LF \<notin> set l"
    and "Handler s = Some h" "Middlewares s = Some m # mws" "m \<in> {AddReturnPath, Logger True []}"
  shows "\<exists>c'. serve (n + 3) s p (\<lambda>_. False) k c = Some (Crash nil_pointer, c')
    \<and> sent c' = sent c @ [reply_line SuccessRcptCmd, reply_line SuccessDataCmd]"
proof -
  let ?data = "''DATA'' @ crlf @ stuff ls @ rest"
  have "list_all clean [a]" "map (ParseAddress p) [a] = map Inr [adr]" using assms(6,7) by simp_all
  from serve_rcpts [OF assms(1) _ this, of ?data k] assms(2,4,5) obtain r1 where
    r1: "avail r1 = ?data" "reader_ok s r1" and
    t1: "\<And>n. serve (Suc n) s p (\<lambda>_. False) k c = serve n s p (\<lambda>_. False) (Suc k)
      (c\<lparr>Env := (Env c)\<lparr>RcptTo := [adr]\<rparr>, conn_in := r1, sent := sent c @ [reply_line SuccessRcptCmd]\<rparr>)"
    by (auto simp del: serve.simps)
  define c1 where "c1 = c\<lparr>Env := (Env c)\<lparr>RcptTo := [adr]\<rparr>, conn_in := r1,
      sent := sent c @ [reply_line SuccessRcptCmd]\<rparr>"
  have "ready s c1" using assms(1) r1 by (simp add: ready_def c1_def)
  from serve_data [OF this, of ls rest p] r1(1) assms(8) obtain r2 r3 where
    t2: "turn s p False c1 = (Go_on, c1\<lparr>conn_in := r2, sent := sent c1 @ [reply_line SuccessDataCmd],
         state := ConnData\<rparr>)" and d: "ReadDot r2 = ((lf_lines ls, None), r3)"
    by (auto simp: c1_def)
  define c2 where "c2 = c1\<lparr>conn_in := r2, sent := sent c1 @ [reply_line SuccessDataCmd], state := ConnData\<rparr>"
  define c3 where "c3 = (set_env (\<lambda>e. e\<lparr>Data := data_ReadFrom (lf_lines ls) (Data e)\<rparr>) c2)\<lparr>conn_in := r3\<rparr>"
  have "read_data c2 = (None, c3)" using d by (simp add: read_data_def c3_def c2_def)
  then have t3: "turn s p False c2 = deliver s p False c3"
    using assms(1) by (simp add: turn_def isAlive_def data_turn_def c2_def c1_def ready_def)
  have m: "MailFrom (Env c3) = None" using assms(3) by (simp add: c3_def c2_def c1_def set_env_def)
  have "deliver s p False c3 = (Crash nil_pointer, c3)"
    using assms(9-11) m sender_missing [OF m] by (auto simp: deliver_def build_chain_Cons nil2success_def)
  with t1 [of "Suc (Suc n)"] t2 t3 show ?thesis
    by (simp add: c1_def [symmetric] c2_def [symmetric] numeral_3_eq_3)
      (simp add: c3_def c2_def c1_def set_env_def)
qed

definition w_no_sender :: connection where
  "w_no_sender = (w_on example_running plain_platform [''RCPT TO:a'', ''DATA'', ''.''])\<lparr>state := ConnCmd\<rparr>"

theorem no_sender_panics_witness:
  "\<exists>c'. serve (0 + 3) example_running plain_platform (\<lambda>_. False) 0 w_no_sender = Some (Crash nil_pointer, c')"
proof -
  note ex = example_running_def example_server_def
  have rdy: "ready example_running w_no_sender"
    by (simp add: ready_def w_no_sender_def w_on_def start_conn_def newConnection_def reader_ok_def
        settled_def NewSMTPReader_def ex)
  have av: "avail (conn_in w_no_sender) = ''RCPT TO:'' @ ''a'' @ crlf @ ''DATA'' @ crlf @ stuff [] @ []"
    by (simp add: w_no_sender_def w_on_def start_conn_def newConnection_def avail_def NewSMTPReader_def
        stuff_def ex defaultMaxSize_def)
  have fresh: "MailFrom (Env w_no_sender) = None" "RcptTo (Env w_no_sender) = []" "0 \<le> MaxRecipients example_running"
    by (simp_all add: w_no_sender_def w_on_def start_conn_def newConnection_def ex defaultMaxRecipients_def)
  have cl: "clean ''a''" by code_simp
  have addr: "ParseAddress plain_platform ''a'' = Inr \<lparr>addr_Name = [], addr_Address = ''a''\<rparr>"
    by (simp add: plain_platform_def)
  have ls: "\<And>l. l \<in> set ([] :: string list) \<Longrightarrow> LF \<notin> set l" by simp
  have h: "Handler example_running = Some example_handler"
    "Middlewares example_running = Some (Logger True []) # [Some Recover, Some AddReturnPath]"
    by (simp_all add: ex example_middlewares_def)
  from no_sender_panics [OF rdy av fresh cl addr ls h] show ?thesis by blast
qed

end
