(* ===== verification/Session_Tls.thy ===== *)
theory Session_Tls imports Session_Correct Middleware begin

text \<open>
  STARTTLS: what the upgrade leaves of the clear-text part of a session (nothing), and what it
  records of itself (nothing either: the reset that follows it replaces the envelope).
\<close>

text \<open>
  C8: After a STARTTLS handshake nothing the client sent in clear is left: the bytes pipelined
  behind the STARTTLS command are gone from the buffer, what is read next comes from the handshake's
  connection only and under a full limit, and the transaction starts over without sender,
  recipients, greeting or message. The state the connection was in before makes no difference.
\<close>

theorem starttls_no_injection:
  assumes "TLSConfig s" "\<not> TLS (Env c)" "Handshake p (conn_raw (conn_in c)) = (None, raw)"
  shows "\<exists>c'. starttls_turn s p c = (Go_on, c') \<and> state c' = ConnCmd \<and> buffered (conn_in c') = []
    \<and> avail (conn_in c') = take (nat (rd_n (conn_in c))) (concat (chunks raw))
    \<and> MailFrom (Env c') = None \<and> RcptTo (Env c') = [] \<and> Helo (Env c') = []
    \<and> data_Bytes (Data (Env c')) = [] \<and> \<not> extTLS c'"
  using assms
  by (auto simp: starttls_turn_def upgradeTLS_def NewSMTPReader_def ResetLimit_def Limit_def
      avail_def message.bytes_none)

text \<open>The same session with one more line in the clear part, to the point of the handshake.\<close>

definition tls_platform :: platform where
  "tls_platform = plain_platform\<lparr>Handshake := (\<lambda>raw. (None, raw\<lparr>chunks := [''EHLO a'' @ crlf]\<rparr>))\<rparr>"

definition tls_server :: server where
  "tls_server = plain_server\<lparr>TLSConfig := True\<rparr>"

text \<open>A client that sends a message after the handshake.\<close>

definition tls_mail :: platform where
  "tls_mail = plain_platform\<lparr>Handshake := (\<lambda>raw. (None,
     raw\<lparr>chunks := map (\<lambda>l. l @ crlf) [''RCPT TO:a'', ''DATA'', ''x'', ''.'']\<rparr>))\<rparr>"

theorem starttls_no_injection_witness:
  "\<exists>c'. starttls_turn tls_server tls_platform
      ((w_conn [])\<lparr>conn_in := (conn_in (w_conn []))\<lparr>buffered := ''RSET'' @ crlf\<rparr>\<rparr>) = (Go_on, c')
    \<and> avail (conn_in c') = ''EHLO a'' @ crlf"
proof -
  let ?c = "(w_conn [])\<lparr>conn_in := (conn_in (w_conn []))\<lparr>buffered := ''RSET'' @ crlf\<rparr>\<rparr>"
  have h: "TLSConfig tls_server" "\<not> TLS (Env ?c)"
    by (simp_all add: tls_server_def w_on_def start_conn_def plain_server_def newConnection_def)
  have hs: "Handshake tls_platform (conn_raw (conn_in ?c)) =
      (None, (conn_raw (conn_in ?c))\<lparr>chunks := [''EHLO a'' @ crlf]\<rparr>)"
    by (simp add: tls_platform_def)
  have n: "rd_n (conn_in ?c) = 10485760"
    by (simp add: w_on_def start_conn_def plain_server_def newConnection_def NewSMTPReader_def
        defaultMaxSize_def)
  from starttls_no_injection [OF h hs] n show ?thesis by auto
qed

section \<open>The TLS field of the envelope\<close>

definition clear_inv :: "connection \<Rightarrow> bool" where
  "clear_inv c \<longleftrightarrow> \<not> TLS (Env c)"

definition clear_init :: "server \<Rightarrow> connection \<Rightarrow> bool" where
  "clear_init s c \<longleftrightarrow> \<not> (TLSAlwaysOn s \<and> TLSConfig s) \<and> conn_init s c"

named_theorems tls_steps "the commands and the field TLS"

lemma xclient_fold_TLS: "TLS (fold (xclient_token p) toks e) = TLS e"
  by (induction toks arbitrary: e) (auto simp: xclient_token_def Let_def split: prod.splits)

lemma cmd_TLS [tls_steps]:
  "\<not> TLS (Env c) \<Longrightarrow> \<not> TLS (Env (snd (cmd_helo s p cmd c)))"
  "\<not> TLS (Env c) \<Longrightarrow> \<not> TLS (Env (snd (cmd_ehlo s p cmd c)))"
  "\<not> TLS (Env c) \<Longrightarrow> \<not> TLS (Env (snd (cmd_xclient p cmd c)))"
  "\<not> TLS (Env c) \<Longrightarrow> \<not> TLS (Env (snd (cmd_proxy s p cmd c)))"
  "\<not> TLS (Env c) \<Longrightarrow> \<not> TLS (Env (snd (cmd_rcpt s p cmd c)))"
  by (simp_all add: cmd_helo_def cmd_ehlo_def cmd_xclient_def cmd_proxy_def cmd_rcpt_def
      cmd_unfold xclient_fold_TLS split: option.splits sum.splits)

lemma cmd_mail_TLS [tls_steps]: "\<not> TLS (Env c) \<Longrightarrow> \<not> TLS (Env (snd (cmd_mail p cmd c)))"
  by (auto simp: cmd_mail_def cmd_unfold split: option.splits prod.splits sum.splits)

lemma cmd_others_TLS [tls_steps]:
  "\<not> TLS (Env c) \<Longrightarrow> \<not> TLS (Env (snd (cmd_help c)))"
  "\<not> TLS (Env c) \<Longrightarrow> \<not> TLS (Env (snd (cmd_rset p c)))"
  "\<not> TLS (Env c) \<Longrightarrow> \<not> TLS (Env (snd (cmd_vrfy c)))"
  "\<not> TLS (Env c) \<Longrightarrow> \<not> TLS (Env (snd (cmd_noop c)))"
  "\<not> TLS (Env c) \<Longrightarrow> \<not> TLS (Env (snd (cmd_quit c)))"
  "\<not> TLS (Env c) \<Longrightarrow> \<not> TLS (Env (snd (cmd_data c)))"
  "\<not> TLS (Env c) \<Longrightarrow> \<not> TLS (Env (snd (cmd_starttls s c)))"
  "\<not> TLS (Env c) \<Longrightarrow> \<not> TLS (Env (snd (cmd_unrecognized s c)))"
  by (simp_all add: cmd_help_def cmd_rset_def cmd_vrfy_def cmd_noop_def cmd_quit_def cmd_data_def
      cmd_starttls_def cmd_unrecognized_def cmd_unfold)

lemma dispatch_TLS: "\<not> TLS (Env c) \<Longrightarrow> \<not> TLS (Env (snd (dispatch s p cmd c)))"
  unfolding dispatch_def by (simp add: tls_steps)

lemma cmd_turn_TLS:
  assumes "\<not> TLS (Env c)" "cmd_turn s p sd c = (Go_on, c')"
  shows "\<not> TLS (Env c')"
proof -
  obtain res c1 where rc: "readCommand c = (res, c1)" by (metis prod.exhaust)
  have "Env c1 = Env c" by (rule readCommand_frame_fields(3) [OF rc])
  with assms rc show ?thesis using dispatch_TLS [of c1 s p]
    by (auto simp: cmd_turn_def split: sum.splits ioerr.splits if_splits) (metis snd_conv)
qed

lemma deliver_TLS: "deliver s p sd c = (Go_on, c') \<Longrightarrow> \<not> TLS (Env c')"
  by (auto simp: deliver_def Let_def split: option.splits prod.splits outcome.splits)

lemma data_turn_TLS:
  assumes "\<not> TLS (Env c)" "data_turn s p sd c = (Go_on, c')"
  shows "\<not> TLS (Env c')"
proof -
  obtain e c1 where rd: "read_data c = (e, c1)" by (metis prod.exhaust)
  then have "TLS (Env c1) = TLS (Env c)"
    by (auto simp: read_data_def set_env_def split: prod.splits)
  with assms rd deliver_TLS show ?thesis
    by (auto simp: data_turn_def split: option.splits ioerr.splits)
qed

lemma starttls_turn_TLS:
  assumes "\<not> TLS (Env c)" "starttls_turn s p c = (Go_on, c')"
  shows "\<not> TLS (Env c')"
proof -
  obtain e c1 where up: "upgradeTLS p c = (e, c1)" by (metis prod.exhaust)
  have "e = Some x \<Longrightarrow> Env c1 = Env c" for x
    using up by (auto simp: upgradeTLS_def split: prod.splits option.splits)
  with assms up show ?thesis
    by (cases e) (auto simp: starttls_turn_def split: if_splits)
qed

interpretation clear_session: invariant_system "clear_init s" "loop_step s" clear_inv for s
proof
  fix c assume "clear_init s c"
  then show "clear_inv c"
    by (auto simp: clear_init_def clear_inv_def conn_init_def start_conn_def newConnection_def
        split: if_splits)
next
  fix c c' assume c: "clear_inv c" and "loop_step s c c'"
  then obtain p sd where t: "turn s p sd c = (Go_on, c')" by (auto simp: loop_step_def)
  with c show "clear_inv c'"
    unfolding clear_inv_def
    using cmd_turn_TLS [of c s p sd c'] data_turn_TLS [of c s p sd c'] starttls_turn_TLS [of c s p c']
    by (auto simp: turn_def greeting_turn_def shutdown_turn_def split: if_splits ClientState.splits)
qed

text \<open>
  C17: On a server that is not TLS only, the field TLS of the envelope is false in every reachable
  state of every connection, also after a successful STARTTLS: what handlers and middlewares are
  given never says that the message came over TLS (and the Received header never ends in S).
\<close>

theorem TLS_never_recorded:
  assumes "\<not> (TLSAlwaysOn s \<and> TLSConfig s)" "conn_init s c0" "run_of (loop_step s) c0 c"
    and "read_data c = (e, c1)"
  shows "\<not> TLS (Env c1) \<and> received_protocol (Env c1) \<in> {''SMTP'', ''ESMTP''}"
proof -
  have "clear_inv c" using clear_session.reachable_inv [of s c0 c] assms(1-3) by (simp add: clear_init_def)
  moreover have "TLS (Env c1) = TLS (Env c)"
    using assms(4) by (auto simp: read_data_def set_env_def split: prod.splits)
  ultimately show ?thesis by (simp add: clear_inv_def received_protocol_def Let_def)
qed

theorem TLS_never_recorded_witness:
  "\<exists>c c1. go_turns 5 tls_server tls_mail (w_on tls_server tls_mail [''STARTTLS'']) = Some c
     \<and> read_data c = (None, c1) \<and> map addr_Address (RcptTo (Env c1)) = [''a''] \<and> \<not> TLS (Env c1)"
proof -
  have "(case go_turns 5 tls_server tls_mail (w_on tls_server tls_mail [''STARTTLS'']) of
      None \<Rightarrow> False
    | Some c \<Rightarrow> (case read_data c of (e, c1) \<Rightarrow> e = None \<and> map addr_Address (RcptTo (Env c1)) = [''a'']))"
    by code_simp
  then obtain c c1 where c: "go_turns 5 tls_server tls_mail (w_on tls_server tls_mail [''STARTTLS'']) = Some c"
      "read_data c = (None, c1)" "map addr_Address (RcptTo (Env c1)) = [''a'']"
    by (auto split: option.splits prod.splits)
  have s: "\<not> (TLSAlwaysOn tls_server \<and> TLSConfig tls_server)"
    by (simp add: tls_server_def plain_server_def)
  from TLS_never_recorded [OF s w_on_init [OF s] go_turns_run [OF c(1)] c(2)] have "\<not> TLS (Env c1)"
    by blast
  with c show ?thesis by (intro exI [of _ c] exI [of _ c1] conjI)
qed

end
