(* ===== verification/Session_Chunks.thy ===== *)
theory Session_Chunks imports Session_Termination begin

text \<open>
  Pipelining and fragmentation make no difference: two clients that send the same bytes get the
  same session, turn by turn, however the bytes arrive. The reads depend on the available bytes
  alone (same_input), the commands do not look at the reader, and so the loops run in step.
  The bytes have to fit the limit: the reset of the limit after a transaction is counted from
  what the buffer has already taken, which depends on the chunks.
\<close>

section \<open>Reads\<close>

definition same_input :: "smtpReader \<Rightarrow> smtpReader \<Rightarrow> bool" where
  "same_input r1 r2 \<longleftrightarrow> settled r1 \<and> settled r2 \<and> length (buffered r1) \<le> bufsize \<and>
     length (buffered r2) \<le> bufsize \<and> avail r1 = avail r2 \<and> fin_err r1 = fin_err r2 \<and>
     fin_err r1 \<noteq> LimitReached \<and> limit_N r1 \<le> rd_n r1 \<and> limit_N r2 \<le> rd_n r2 \<and> rd_n r1 = rd_n r2"

lemma same_input_frame:
  "same_input r1 r2 \<Longrightarrow> read_frame r1 r1' \<Longrightarrow> read_frame r2 r2' \<Longrightarrow> avail r1' = avail r2' \<Longrightarrow>
     same_input r1' r2'"
  by (auto simp: same_input_def read_frame_def)

lemma roomy:
  assumes "fin_err r \<noteq> LimitReached"
  shows "avail r = buffered r @ concat (chunks (conn_raw r))" "fin_err r = raw_end (conn_raw r)"
    "length (concat (chunks (conn_raw r))) < nat (limit_N r)"
  using assms by (auto simp: fin_err_def avail_def split: if_splits)

lemma same_input_ResetLimit:
  assumes "same_input r1 r2"
  shows "same_input (ResetLimit r1) (ResetLimit r2)"
proof -
  have reset: "avail (ResetLimit r) = avail r \<and> fin_err (ResetLimit r) = fin_err r"
    if "fin_err r \<noteq> LimitReached" "limit_N r \<le> rd_n r" for r
  proof -
    from that(2) have "nat (limit_N r) \<le> nat (rd_n r)" by simp
    with roomy(3) [OF that(1)] have "length (concat (chunks (conn_raw r))) < nat (rd_n r)" by simp
    with roomy [OF that(1)] show ?thesis by (simp add: avail_def fin_err_def ResetLimit_def)
  qed
  have "fin_err r2 \<noteq> LimitReached" using assms by (auto simp: same_input_def)
  then show ?thesis using assms reset [of r1] reset [of r2]
    by (simp add: same_input_def) (simp add: ResetLimit_def settled_def)
qed

lemma read_slice_length:
  "settled r \<Longrightarrow> length (buffered r) \<le> bufsize \<Longrightarrow> read_slice r = ((l, x), r') \<Longrightarrow>
     length l \<le> bufsize \<and> (x = BufferFull \<longrightarrow> length l = bufsize) \<and>
     (\<forall>e. x = SliceErr e \<longrightarrow> length l < bufsize)"
proof (induction r rule: read_slice.induct)
  case (1 r)
  have n: "buf_err r = None" using "1.prems"(1) by (simp add: settled_def)
  show ?case
  proof (cases "LF \<in> set (buffered r)")
    case True
    then have "length (takeWhile (\<lambda>c. c \<noteq> LF) (buffered r)) < length (buffered r)"
      by (metis (mono_tags, lifting) length_takeWhile_le nless_le set_takeWhileD
          takeWhile_eq_all_conv takeWhile_eq_take take_all)
    with True 1 show ?thesis by (auto simp: read_slice.simps [of r] Let_def)
  next
    case False
    show ?thesis
    proof (cases "bufsize \<le> length (buffered r)")
      case True
      with False n 1 show ?thesis by (auto simp: read_slice.simps [of r])
    next
      case small: False
      then have sm: "length (buffered r) < bufsize" by simp
      note f = fill_avail [OF "1.prems"(1) sm]
      have rs: "read_slice (fill r) = ((l, x), r')"
        using "1.prems"(3) False n small by (simp add: read_slice.simps [of r])
      show ?thesis
      proof (cases "buf_err (fill r)")
        case None
        then have "settled (fill r)" by (simp add: settled_def)
        from "1.IH" [OF False n small this f(5) rs] show ?thesis .
      next
        case (Some e)
        then have "buffered (fill r) = buffered r" using fill_size(4) [OF sm n] by simp
        with Some False rs sm show ?thesis by (auto simp: read_slice.simps [of "fill r"])
      qed
    qed
  qed
qed

text \<open>The slice is determined by the available bytes and the error behind them.\<close>

definition slice_of :: "string \<Rightarrow> ioerr \<Rightarrow> string \<times> slice_end" where
  "slice_of av e =
     (if LF \<in> set (take bufsize av) then (takeWhile (\<lambda>c. c \<noteq> LF) av @ [LF], Delim)
      else if bufsize \<le> length av then (take bufsize av, BufferFull) else (av, SliceErr e))"

lemma read_slice_of:
  assumes "settled r" "length (buffered r) \<le> bufsize" "read_slice r = ((l, x), r')"
  shows "(l, x) = slice_of (avail r) (fin_err r)"
proof -
  note a = read_slice_avail [OF assms] read_slice_length [OF assms]
  then have av: "avail r = l @ avail r'" by simp
  show ?thesis
  proof (cases x)
    case Delim
    with a obtain p where p: "l = p @ [LF]" "LF \<notin> set p" by auto
    then have "takeWhile (\<lambda>c. c \<noteq> LF) (avail r) = p" by (auto simp: av intro!: takeWhile_append_stop)
    moreover have "take bufsize (avail r) = l @ take (bufsize - length l) (avail r')" using a by (simp add: av)
    ultimately show ?thesis by (simp add: slice_of_def Delim p(1))
  qed (use a in \<open>auto simp: slice_of_def av\<close>)
qed

lemma read_slice_same:
  assumes "same_input r1 r2" "read_slice r1 = ((l1, x1), r1')" "read_slice r2 = ((l2, x2), r2')"
  shows "l1 = l2 \<and> x1 = x2 \<and> same_input r1' r2'"
proof -
  have s: "settled r1" "length (buffered r1) \<le> bufsize" "settled r2" "length (buffered r2) \<le> bufsize"
    "avail r1 = avail r2" "fin_err r1 = fin_err r2" using assms(1) by (auto simp: same_input_def)
  have e: "l1 = l2 \<and> x1 = x2"
    using read_slice_of [OF s(1,2) assms(2)] read_slice_of [OF s(3,4) assms(3)] s(5,6) by (metis Pair_inject)
  moreover have "read_frame r1 r1'" "read_frame r2 r2'" "avail r1' = avail r2'"
    using read_slice_avail [OF s(1,2) assms(2)] read_slice_avail [OF s(3,4) assms(3)] e s(5)
    by (blast, blast, metis same_append_eq)
  ultimately show ?thesis using same_input_frame [OF assms(1)] by blast
qed

lemma read_fragment_same:
  assumes "same_input r1 r2" "read_fragment r1 = (x1, r1')" "read_fragment r2 = (x2, r2')"
  shows "x1 = x2 \<and> same_input r1' r2'"
proof -
  obtain l1 y1 s1 l2 y2 s2 where s: "read_slice r1 = ((l1, y1), s1)" "read_slice r2 = ((l2, y2), s2)"
    by (metis prod.exhaust)
  from read_slice_same [OF assms(1) s] have e: "l2 = l1" "y2 = y1" "same_input s1 s2" by auto
  have ok: "settled r1" "length (buffered r1) \<le> bufsize" "settled r2" "length (buffered r2) \<le> bufsize"
    using assms(1) by (auto simp: same_input_def)
  have b: "y1 = BufferFull \<Longrightarrow> buffered s1 = [] \<and> buffered s2 = []"
    using read_slice_avail [OF ok(1,2) s(1)] read_slice_avail [OF ok(3,4) s(2)] e by auto
  have cr: "y1 = BufferFull \<Longrightarrow> same_input (s1\<lparr>buffered := [CR]\<rparr>) (s2\<lparr>buffered := [CR]\<rparr>)"
    using e(3) b by (auto simp: same_input_def settled_def bufsize_def avail_def)
  show ?thesis
  proof (cases y1)
    case BufferFull
    with assms(2,3) s e b cr show ?thesis by (auto simp: read_fragment_def split: if_splits)
  qed (use assms(2,3) s e in \<open>auto simp: read_fragment_def Let_def split: if_splits\<close>)
qed

lemma readLine_acc_same:
  "same_input r1 r2 \<Longrightarrow> readLine_acc acc r1 = (x1, r1') \<Longrightarrow> readLine_acc acc r2 = (x2, r2') \<Longrightarrow>
     x1 = x2 \<and> same_input r1' r2'"
proof (induction acc r1 arbitrary: r2 rule: readLine_acc.induct)
  case (1 acc r1)
  obtain y s1 s2 where f: "read_fragment r1 = (y, s1)" "read_fragment r2 = (y, s2)" "same_input s1 s2"
    using read_fragment_same [OF "1.prems"(1)] by (metis prod.exhaust)
  show ?case
  proof (cases y)
    case (Inl e)
    with f "1.prems" show ?thesis by (auto simp: readLine_acc.simps [of acc])
  next
    case (Inr z)
    obtain l mor where z: "z = (l, mor)" by (metis prod.exhaust)
    show ?thesis
    proof (cases mor)
      case True
      with f Inr z "1.prems" "1.IH" [OF f(1) [symmetric] Inr z [symmetric] True f(3)] show ?thesis
        by (simp add: readLine_acc.simps [of acc])
    next
      case False
      with f Inr z "1.prems" show ?thesis by (auto simp: readLine_acc.simps [of acc])
    qed
  qed
qed

lemma ReadDot_same:
  assumes "same_input r1 r2" "ReadDot r1 = (x1, r1')" "ReadDot r2 = (x2, r2')"
  shows "x1 = x2 \<and> same_input r1' r2'"
proof -
  obtain out fin rest where d: "dot_decode BeginLine (avail r1) = (out, fin, rest)" by (metis prod_cases3)
  have ok: "settled r1" "length (buffered r1) \<le> bufsize" "settled r2" "length (buffered r2) \<le> bufsize"
    "avail r2 = avail r1" "fin_err r2 = fin_err r1"
    using assms(1) by (auto simp: same_input_def)
  from dot_read_avail [OF ok(1,2) d] dot_read_avail [OF ok(3,4), of BeginLine out fin rest] d ok(5,6) assms(2,3)
  show ?thesis using same_input_frame [OF assms(1)] by (auto simp: ReadDot_def)
qed

section \<open>The commands do not look at the reader\<close>

text \<open>
  A step commutes with a change of the reader when it leaves the reader alone, or resets its limit.
\<close>

definition blind :: "(connection \<Rightarrow> flow \<times> connection) \<Rightarrow> bool" where
  "blind F \<longleftrightarrow> (\<forall>c. \<exists>g \<in> {id, ResetLimit}. \<forall>r.
     F (c\<lparr>conn_in := r\<rparr>) = (fst (F c), (snd (F c))\<lparr>conn_in := g r\<rparr>))"

lemma blindI_id: "(\<And>c r. F (c\<lparr>conn_in := r\<rparr>) = (fst (F c), (snd (F c))\<lparr>conn_in := r\<rparr>)) \<Longrightarrow> blind F"
  unfolding blind_def by (intro allI bexI [of _ id]) auto

lemma blindI_reset:
  "(\<And>c r. F (c\<lparr>conn_in := r\<rparr>) = (fst (F c), (snd (F c))\<lparr>conn_in := ResetLimit r\<rparr>)) \<Longrightarrow> blind F"
  unfolding blind_def by (intro allI bexI [of _ ResetLimit]) auto

lemma frame_ops:
  "sendResponse it (c\<lparr>conn_in := r\<rparr>) = (sendResponse it c)\<lparr>conn_in := r\<rparr>"
  "add_error (c\<lparr>conn_in := r\<rparr>) = (add_error c)\<lparr>conn_in := r\<rparr>"
  "set_env f (c\<lparr>conn_in := r\<rparr>) = (set_env f c)\<lparr>conn_in := r\<rparr>"
  "kill (c\<lparr>conn_in := r\<rparr>) = (kill c)\<lparr>conn_in := r\<rparr>"
  "resetTransaction p (c\<lparr>conn_in := r\<rparr>) = (resetTransaction p c)\<lparr>conn_in := ResetLimit r\<rparr>"
  "isInTransaction (c\<lparr>conn_in := r\<rparr>) = isInTransaction c"
  "greeting s p (c\<lparr>conn_in := r\<rparr>) = greeting s p c"
  "ehlo_reply s (c\<lparr>conn_in := r\<rparr>) = ehlo_reply s c"
  by (simp_all add: sendResponse_def Let_def add_error_def set_env_def kill_def resetTransaction_def
      isInTransaction_def greeting_def ehlo_reply_def split: list.splits bool.splits)

lemma record_frame:
  "(c\<lparr>conn_in := r\<rparr>)\<lparr>state := st\<rparr> = (c\<lparr>state := st\<rparr>)\<lparr>conn_in := r\<rparr>"
  "(c\<lparr>conn_in := r\<rparr>)\<lparr>charset := x\<rparr> = (c\<lparr>charset := x\<rparr>)\<lparr>conn_in := r\<rparr>"
  by simp_all

named_theorems blind_steps "the steps that do not look at the reader"

lemma blind_hello [blind_steps]: "blind (cmd_helo s p cmd)" "blind (cmd_ehlo s p cmd)"
proof -
  show "blind (cmd_helo s p cmd)"
    by (rule blindI_reset) (simp add: cmd_helo_def with_content_def Let_def frame_ops split: option.splits)
  show "blind (cmd_ehlo s p cmd)"
    by (rule blindI_reset) (simp add: cmd_ehlo_def with_content_def Let_def frame_ops split: option.splits)
qed

lemma blind_proxies [blind_steps]: "blind (cmd_xclient p cmd)" "blind (cmd_proxy s p cmd)"
proof -
  show "blind (cmd_xclient p cmd)"
    by (rule blindI_id) (simp add: cmd_xclient_def with_content_def Let_def frame_ops split: option.splits)
  show "blind (cmd_proxy s p cmd)"
    by (rule blindI_id) (simp add: cmd_proxy_def with_content_def Let_def frame_ops split: option.splits)
qed

lemma blind_mail [blind_steps]: "blind (cmd_mail p cmd)"
  by (rule blindI_id) (simp add: cmd_mail_def with_content_def Let_def frame_ops record_frame
      split: option.splits prod.splits sum.splits)

lemma blind_rcpt [blind_steps]: "blind (cmd_rcpt s p cmd)"
  by (rule blindI_id) (simp add: cmd_rcpt_def with_content_def Let_def frame_ops
      split: option.splits sum.splits)

lemma blind_rset [blind_steps]: "blind (cmd_rset p)"
  by (rule blindI_reset) (simp add: cmd_rset_def frame_ops)

lemma blind_quit [blind_steps]: "blind cmd_quit"
  by (rule blindI_id) (simp add: cmd_quit_def frame_ops)

lemma blind_data [blind_steps]: "blind cmd_data"
  by (rule blindI_id) (simp add: cmd_data_def frame_ops)

lemma blind_starttls [blind_steps]: "blind (cmd_starttls s)"
  by (rule blindI_id) (simp add: cmd_starttls_def frame_ops)

lemma blind_unrecognized [blind_steps]: "blind (cmd_unrecognized s)"
  by (rule blindI_id) (simp add: cmd_unrecognized_def Let_def frame_ops)

lemma blind_replies [blind_steps]: "blind cmd_help" "blind cmd_vrfy" "blind cmd_noop"
proof -
  show "blind cmd_help" by (rule blindI_id) (simp add: cmd_help_def frame_ops)
  show "blind cmd_vrfy" by (rule blindI_id) (simp add: cmd_vrfy_def frame_ops)
  show "blind cmd_noop" by (rule blindI_id) (simp add: cmd_noop_def frame_ops)
qed

lemma blind_if: "blind F \<Longrightarrow> blind G \<Longrightarrow> blind (\<lambda>c. if b then F c else G c)"
  by (cases b) simp_all

lemma blind_dispatch: "blind (dispatch s p cmd)"
proof -
  have eta: "dispatch s p cmd = (\<lambda>c. dispatch s p cmd c)" by simp
  show ?thesis
    by (subst eta, unfold dispatch_def) (intro blind_if blind_steps)
qed

section \<open>The loops run in step\<close>

definition in_step :: "connection \<Rightarrow> connection \<Rightarrow> bool" where
  "in_step c1 c2 \<longleftrightarrow> (\<exists>r. c2 = c1\<lparr>conn_in := r\<rparr> \<and> same_input (conn_in c1) r)"

lemma in_step_blind:
  assumes "blind F" "in_step c1 c2" "F c1 = (f, c1')"
  shows "\<exists>c2'. F c2 = (f, c2') \<and> in_step c1' c2'"
proof -
  obtain r where r: "c2 = c1\<lparr>conn_in := r\<rparr>" "same_input (conn_in c1) r"
    using assms(2) by (auto simp: in_step_def)
  have "\<exists>g \<in> {id, ResetLimit}. \<forall>r. F (c1\<lparr>conn_in := r\<rparr>) = (f, c1'\<lparr>conn_in := g r\<rparr>)"
    using assms(1,3) unfolding blind_def by (metis fst_conv snd_conv)
  then obtain g where g: "g \<in> {id, ResetLimit}"
    "\<And>r. F (c1\<lparr>conn_in := r\<rparr>) = (f, c1'\<lparr>conn_in := g r\<rparr>)" by blast
  have "c1\<lparr>conn_in := conn_in c1\<rparr> = c1" by simp
  with g(2) [of "conn_in c1"] assms(3) have "c1' = c1'\<lparr>conn_in := g (conn_in c1)\<rparr>" by simp
  then have "conn_in c1' = conn_in (c1'\<lparr>conn_in := g (conn_in c1)\<rparr>)" by simp
  then have "conn_in c1' = g (conn_in c1)" by simp
  then have "same_input (conn_in c1') (g r)" using g(1) r(2) same_input_ResetLimit by auto
  then show ?thesis using g(2) [of r] r(1) by (auto simp: in_step_def)
qed

lemma in_step_readCommand:
  assumes "in_step c1 c2" "readCommand c1 = (res, c1')"
  shows "\<exists>c2'. readCommand c2 = (res, c2') \<and> in_step c1' c2'"
proof -
  obtain r where r: "c2 = c1\<lparr>conn_in := r\<rparr>" "same_input (conn_in c1) r"
    using assms(1) by (auto simp: in_step_def)
  obtain x1 s1 x2 s2 where l: "ReadLine (conn_in c1) = (x1, s1)" "ReadLine r = (x2, s2)"
    by (metis prod.exhaust)
  from readLine_acc_same [OF r(2) l [unfolded ReadLine_def]] have "x2 = x1" "same_input s1 s2" by auto
  with assms(2) r l show ?thesis by (auto simp: readCommand_def in_step_def split: sum.splits)
qed

lemma in_step_read_data:
  assumes "in_step c1 c2" "read_data c1 = (e, c1')"
  shows "\<exists>c2'. read_data c2 = (e, c2') \<and> in_step c1' c2'"
proof -
  obtain r where r: "c2 = c1\<lparr>conn_in := r\<rparr>" "same_input (conn_in c1) r"
    using assms(1) by (auto simp: in_step_def)
  obtain x1 s1 x2 s2 where l: "ReadDot (conn_in c1) = (x1, s1)" "ReadDot r = (x2, s2)"
    by (metis prod.exhaust)
  from ReadDot_same [OF r(2) l] have "x2 = x1" "same_input s1 s2" by auto
  with assms(2) r l show ?thesis
    by (auto simp: read_data_def in_step_def set_env_def split: prod.splits)
qed

lemma blind_finish: "blind (\<lambda>c. (f, kill (sendResponse it c)))" "blind (\<lambda>c. (f, kill c))"
    "blind (\<lambda>c. (f, c))" "blind (\<lambda>c. (f, c\<lparr>state := st\<rparr>))"
proof -
  show "blind (\<lambda>c. (f, kill (sendResponse it c)))" by (rule blindI_id) (simp add: frame_ops)
  show "blind (\<lambda>c. (f, kill c))" by (rule blindI_id) (simp add: frame_ops)
  show "blind (\<lambda>c. (f, c))" by (rule blindI_id) simp
  show "blind (\<lambda>c. (f, c\<lparr>state := st\<rparr>))" by (rule blindI_id) simp
qed

lemma blind_greeting: "blind (greeting_turn s p)"
  by (rule blindI_id) (simp add: greeting_turn_def frame_ops)

lemma frame_counts:
  "(c\<lparr>conn_in := r\<rparr>)\<lparr>messagesSent := n\<rparr> = (c\<lparr>messagesSent := n\<rparr>)\<lparr>conn_in := r\<rparr>"
  "(c\<lparr>conn_in := r\<rparr>)\<lparr>Env := e\<rparr> = (c\<lparr>Env := e\<rparr>)\<lparr>conn_in := r\<rparr>"
  by simp_all

lemma deliver_frame:
  "deliver s p sd (c\<lparr>conn_in := r\<rparr>) = (fst (deliver s p sd c), (snd (deliver s p sd c))\<lparr>conn_in :=
     if fst (deliver s p sd c) = Go_on then ResetLimit r else r\<rparr>)"
  by (simp add: deliver_def Let_def frame_ops frame_counts record_frame
      del: connection.update_convs split: option.splits prod.splits outcome.splits)

lemma blind_deliver: "blind (deliver s p sd)"
  unfolding blind_def
proof
  fix c
  show "\<exists>g\<in>{id, ResetLimit}. \<forall>r. deliver s p sd (c\<lparr>conn_in := r\<rparr>) =
      (fst (deliver s p sd c), (snd (deliver s p sd c))\<lparr>conn_in := g r\<rparr>)"
    by (rule bexI [of _ "if fst (deliver s p sd c) = Go_on then ResetLimit else id"])
      (auto simp: deliver_frame)
qed

lemma in_step_cmd_turn:
  assumes "in_step c1 c2" "cmd_turn s p sd c1 = (f, c1')"
  shows "\<exists>c2'. cmd_turn s p sd c2 = (f, c2') \<and> in_step c1' c2'"
proof -
  obtain res d1 where rc: "readCommand c1 = (res, d1)" by (metis prod.exhaust)
  from in_step_readCommand [OF assms(1) this] obtain d2 where
    d2: "readCommand c2 = (res, d2)" "in_step d1 d2" by blast
  note b = in_step_blind [OF _ d2(2)]
  show ?thesis
  proof (cases res)
    case (Inl e)
    with assms(2) rc d2 show ?thesis
      using b [OF blind_finish(1) [of Return "[Resp (Canned FailLineTooLong)]"]]
        b [OF blind_finish(2) [of Return]] b [OF blind_finish(3) [of Return]]
      by (cases e) (auto simp: cmd_turn_def)
  next
    case (Inr cmd)
    with assms(2) rc d2 show ?thesis
      using b [OF blind_dispatch [of s p cmd]] b [OF blind_finish(4) [of Go_on ConnShutdown]]
      by (auto simp: cmd_turn_def split: if_splits)
  qed
qed

lemma in_step_data_turn:
  assumes "in_step c1 c2" "data_turn s p sd c1 = (f, c1')"
  shows "\<exists>c2'. data_turn s p sd c2 = (f, c2') \<and> in_step c1' c2'"
proof -
  obtain e d1 where rd: "read_data c1 = (e, d1)" by (metis prod.exhaust)
  from in_step_read_data [OF assms(1) this] obtain d2 where
    d2: "read_data c2 = (e, d2)" "in_step d1 d2" by blast
  note b = in_step_blind [OF _ d2(2)]
  show ?thesis
  proof (cases e)
    case None
    with assms(2) rd d2 show ?thesis
      using b [OF blind_deliver [of s p sd]] by (auto simp: data_turn_def)
  next
    case (Some x)
    with assms(2) rd d2 show ?thesis
      using b [OF blind_finish(1) [of Go_on]] by (cases x) (auto simp: data_turn_def)
  qed
qed

lemma in_step_turn:
  assumes "\<not> TLSConfig s" "in_step c1 c2" "turn s p sd c1 = (f, c1')"
  shows "\<exists>c2'. turn s p sd c2 = (f, c2') \<and> in_step c1' c2'"
proof -
  have same: "isAlive c2 = isAlive c1" "bufErr c2 = bufErr c1" "state c2 = state c1"
    using assms(2) by (auto simp: in_step_def isAlive_def)
  note b = in_step_blind [OF _ assms(2)]
  have tls: "starttls_turn s p = (\<lambda>c. (Go_on, c\<lparr>state := ConnCmd\<rparr>))"
    using assms(1) by (simp add: starttls_turn_def fun_eq_iff)
  have shut: "shutdown_turn = (\<lambda>c. (Go_on, kill (reply ErrorShutdown c)))"
    by (simp add: shutdown_turn_def fun_eq_iff)
  show ?thesis
  proof (cases "isAlive c1 \<and> \<not> bufErr c1")
    case False
    with assms(2,3) same show ?thesis by (auto simp: turn_def split: if_splits)
  next
    case True
    with same assms(3) show ?thesis
      using b [OF blind_greeting [of s p]] in_step_cmd_turn [OF assms(2), of s p sd]
        in_step_data_turn [OF assms(2), of s p sd] b [OF blind_finish(4) [of Go_on ConnCmd]]
        b [OF blind_finish(1) [of Go_on "[Resp (Canned ErrorShutdown)]"]]
      by (cases "state c1") (simp_all add: turn_def tls shut)
  qed
qed

lemma in_step_serve:
  "\<not> TLSConfig s \<Longrightarrow> in_step c1 c2 \<Longrightarrow>
     rel_option (\<lambda>(f, d1) (g, d2). f = g \<and> in_step d1 d2) (serve n s p sd k c1) (serve n s p sd k c2)"
proof (induction n arbitrary: k c1 c2)
  case (Suc n)
  obtain f d1 where t: "turn s p (sd k) c1 = (f, d1)" by (metis prod.exhaust)
  from in_step_turn [OF Suc.prems this] obtain d2 where "turn s p (sd k) c2 = (f, d2)" "in_step d1 d2"
    by blast
  with t Suc.IH [OF Suc.prems(1), of d1 d2 "Suc k"] show ?case by (cases f) auto
qed simp

definition same_bytes :: "raw_conn \<Rightarrow> raw_conn \<Rightarrow> bool" where
  "same_bytes raw1 raw2 \<longleftrightarrow> concat (chunks raw1) = concat (chunks raw2) \<and> raw_end raw1 = raw_end raw2"

lemma in_step_start:
  assumes "same_bytes raw1 raw2" "raw_end raw1 \<noteq> LimitReached"
    and "int (length (concat (chunks raw1))) < MaxSize s" "\<not> TLSConfig s"
    and "start_conn s p (newConnection p raw1 ws ra (MaxSize s) cid) = (b, c1)"
  shows "\<exists>c2. start_conn s p (newConnection p raw2 ws ra (MaxSize s) cid) = (b, c2) \<and> in_step c1 c2"
proof -
  have "fin_err (NewSMTPReader raw (MaxSize s)) = raw_end raw"
      "avail (NewSMTPReader raw (MaxSize s)) = concat (chunks raw)"
    if "concat (chunks raw) = concat (chunks raw1)" for raw
  proof -
    have "length (concat (chunks raw1)) < nat (MaxSize s)" using assms(3) by simp
    with that show "fin_err (NewSMTPReader raw (MaxSize s)) = raw_end raw"
      "avail (NewSMTPReader raw (MaxSize s)) = concat (chunks raw)"
      by (simp_all add: fin_err_def avail_def NewSMTPReader_def)
  qed
  then have "same_input (NewSMTPReader raw1 (MaxSize s)) (NewSMTPReader raw2 (MaxSize s))"
    using assms(1,2) by (simp add: same_bytes_def same_input_def)
      (simp add: NewSMTPReader_def settled_def)
  then show ?thesis using assms(4,5)
    by (auto simp: start_conn_def newConnection_def in_step_def)
qed

text \<open>
  C3: Two clients that send the same bytes get the same session, whatever the chunks in which the
  bytes arrive: with the same configuration, platform, shutdown times and outcomes of the writes,
  handleConn ends after the same number of turns and in the same way on both connections, having
  sent the same replies in the same order and left the same state in every field but the reader.
  (Without TLS, where the chunks belong to the handshake, and for a client that sends less than
  MaxSize bytes in all.)
\<close>

theorem chunks_irrelevant:
  assumes "same_bytes raw1 raw2" "raw_end raw1 \<noteq> LimitReached"
    and "int (length (concat (chunks raw1))) < MaxSize s" "\<not> TLSConfig s"
  shows "rel_option (\<lambda>(f, c1) (g, c2). f = g \<and> c2 = c1\<lparr>conn_in := conn_in c2\<rparr>)
    (handleConn n s p sd (newConnection p raw1 ws ra (MaxSize s) cid))
    (handleConn n s p sd (newConnection p raw2 ws ra (MaxSize s) cid))"
proof -
  obtain b c1 where s1: "start_conn s p (newConnection p raw1 ws ra (MaxSize s) cid) = (b, c1)"
    by (metis prod.exhaust)
  from in_step_start [OF assms this] obtain c2 where
    s2: "start_conn s p (newConnection p raw2 ws ra (MaxSize s) cid) = (b, c2)" "in_step c1 c2" by blast
  have eq: "in_step d1 d2 \<Longrightarrow> closeConn d2 = (closeConn d1)\<lparr>conn_in := conn_in (closeConn d2)\<rparr>" for d1 d2
    by (auto simp: in_step_def closeConn_def)
  show ?thesis
  proof (cases b)
    case False
    with s1 s2 eq [OF s2(2)] show ?thesis by (simp add: handleConn_def)
  next
    case True
    have r: "rel_option (\<lambda>(f, d1) (g, d2). f = g \<and> in_step d1 d2) (serve n s p sd 0 c1) (serve n s p sd 0 c2)"
      by (rule in_step_serve [OF assms(4) s2(2)])
    show ?thesis using s1 s2(1) True eq
      by (auto simp: handleConn_def option.rel_map intro: option.rel_mono_strong [OF r])
  qed
qed

text \<open>The end a pair of loops comes to, on concrete chunks.\<close>

theorem chunks_irrelevant_witness:
  "\<exists>f c1 c2.
     handleConn 50 plain_server plain_platform (\<lambda>_. False) (newConnection plain_platform
       \<lparr>chunks = [''NOOP'' @ crlf, ''x''], raw_end = EOF\<rparr> [] (PeerAddr ''::1'') (MaxSize plain_server) 1) = Some (f, c1) \<and>
     handleConn 50 plain_server plain_platform (\<lambda>_. False) (newConnection plain_platform
       \<lparr>chunks = [''NO'', ''OP'', crlf @ ''x''], raw_end = EOF\<rparr> [] (PeerAddr ''::1'') (MaxSize plain_server) 1) = Some (f, c2) \<and>
     sent c1 = sent c2"
proof -
  let ?r1 = "\<lparr>chunks = [''NOOP'' @ crlf, ''x''], raw_end = EOF\<rparr>"
    and ?r2 = "\<lparr>chunks = [''NO'', ''OP'', crlf @ ''x''], raw_end = EOF\<rparr>"
  have h: "same_bytes ?r1 ?r2" "raw_end ?r1 \<noteq> LimitReached"
    "int (length (concat (chunks ?r1))) < MaxSize plain_server" "\<not> TLSConfig plain_server"
    by (simp_all add: same_bytes_def plain_server_def defaultMaxSize_def)
  have "3 * raw_size ?r1 + 3 < 50" by (simp add: raw_size_def)
  from handleConn_ends [OF plain_handshake this] obtain f c1 where
    e1: "handleConn 50 plain_server plain_platform (\<lambda>_. False)
      (newConnection plain_platform ?r1 [] (PeerAddr ''::1'') (MaxSize plain_server) 1) = Some (f, c1)"
    by blast
  note step = chunks_irrelevant [OF h, of 50 plain_platform "\<lambda>_. False" "[]" "PeerAddr ''::1''" 1, unfolded e1]
  from step obtain c2 where
    e2: "handleConn 50 plain_server plain_platform (\<lambda>_. False)
      (newConnection plain_platform ?r2 [] (PeerAddr ''::1'') (MaxSize plain_server) 1) = Some (f, c2)"
    and c2: "c2 = c1\<lparr>conn_in := conn_in c2\<rparr>"
    unfolding option_rel_Some1 by fast
  have "sent c2 = sent c1" by (subst c2) simp
  with e1 e2 show ?thesis by metis
qed

end
