(* ===== verification/Lifecycle.thy ===== *)
theory Lifecycle imports Session_Termination begin

text \<open>
  The life of a server: ListenAndServe, Shutdown, GetActiveClientsCount and isShuttingDown of
  server.go, as a step relation on the server with its active connections, each served by a
  goroutine of its own that makes one turn of handleConn per step. The steps interleave in any
  order; the connections share nothing but the channel closedListener.
\<close>

section \<open>State and operations\<close>

datatype server_state = ServerStateNew | ServerStateStopped | ServerStateRunning | ServerStateStartError

text \<open>
  listener is None while it is nil and says otherwise whether it is open; accepting is true while
  ListenAndServe is in its loop; active holds the connections of the running goroutines with the
  number they were accepted under; crashed says that a panic has ended the process.
\<close>

record lifecycle =
  srv :: server
  srv_state :: server_state
  listener :: "bool option"
  accepting :: bool
  last_id :: "64 word"
  active :: "(64 word \<times> connection) list"
  wgConnections :: nat
  countConnections :: int
  closedListener :: bool
  crashed :: bool

definition new_server :: "server \<Rightarrow> lifecycle" where
  "new_server s = \<lparr>srv = s, srv_state = ServerStateNew, listener = None, accepting = False,
     last_id = 0, active = [], wgConnections = 0, countConnections = 0, closedListener = False,
     crashed = False\<rparr>"

text \<open>The start of ListenAndServe: the defaults and the listener, each of which may fail.\<close>

definition listen :: "string + string \<Rightarrow> bool \<Rightarrow> lifecycle \<Rightarrow> lifecycle" where
  "listen os_Hostname listen_ok l =
     (case setDefaults os_Hostname (srv l) of
        (Some err, s) \<Rightarrow> l\<lparr>srv := s\<rparr>
      | (None, s) \<Rightarrow>
          if listen_ok then l\<lparr>srv := s, srv_state := ServerStateRunning, listener := Some True, accepting := True\<rparr>
          else l\<lparr>srv := s, srv_state := ServerStateStartError\<rparr>)"

text \<open>Accept returned a connection: its goroutine starts with what precedes the loop of handleConn.\<close>

definition accept_conn :: "platform \<Rightarrow> raw_conn \<Rightarrow> bool list \<Rightarrow> remote_addr \<Rightarrow> lifecycle \<Rightarrow> lifecycle" where
  "accept_conn p raw ws remote l =
     (let i = last_id l + 1;
          c = snd (start_conn (srv l) p (newConnection p raw ws remote (MaxSize (srv l)) i))
      in l\<lparr>last_id := i, wgConnections := wgConnections l + 1,
           countConnections := countConnections l + 1, active := active l @ [(i, c)]\<rparr>)"

text \<open>Accept returned an error: the loop ends and waits for the goroutines.\<close>

definition accept_error :: "lifecycle \<Rightarrow> lifecycle" where
  "accept_error l = l\<lparr>last_id := last_id l + 1, srv_state := ServerStateStopped, accepting := False\<rparr>"

definition wait_done :: "lifecycle \<Rightarrow> lifecycle" where
  "wait_done l = l\<lparr>closedListener := True\<rparr>"

definition isShuttingDown :: "lifecycle \<Rightarrow> bool" where
  "isShuttingDown l = closedListener l"

definition GetActiveClientsCount :: "lifecycle \<Rightarrow> int" where
  "GetActiveClientsCount l = countConnections l"

text \<open>Shutdown closes the listener, and returns nil without an effect when there is none.\<close>

definition Shutdown_close :: "lifecycle \<Rightarrow> lifecycle" where
  "Shutdown_close l = l\<lparr>listener := map_option (\<lambda>_. False) (listener l)\<rparr>"

text \<open>The select of Shutdown: None while it blocks.\<close>

definition Shutdown_wait :: "bool \<Rightarrow> lifecycle \<Rightarrow> (string option) option" where
  "Shutdown_wait ctx_done l =
     (if listener l = None then Some None
      else if closedListener l then Some None
      else if ctx_done then Some (Some ''context done'') else None)"

text \<open>One turn of the k-th goroutine; the deferred calls run when handleConn returns or panics.\<close>

definition conn_turn :: "platform \<Rightarrow> nat \<Rightarrow> lifecycle \<Rightarrow> lifecycle" where
  "conn_turn p k l =
     (let (i, c) = active l ! k;
          gone = l\<lparr>active := take k (active l) @ drop (Suc k) (active l),
                    wgConnections := wgConnections l - 1, countConnections := countConnections l - 1\<rparr>
      in case turn (srv l) p (isShuttingDown l) c of
           (Go_on, c') \<Rightarrow> l\<lparr>active := (active l)[k := (i, c')]\<rparr>
         | (Return, c') \<Rightarrow> gone
         | (Crash r, c') \<Rightarrow> gone\<lparr>crashed := True\<rparr>)"

inductive life_step :: "platform \<Rightarrow> lifecycle \<Rightarrow> lifecycle \<Rightarrow> bool" for p where
  step_listen: "\<not> crashed l \<Longrightarrow> srv_state l = ServerStateNew \<Longrightarrow> life_step p l (listen h ok l)"
| step_accept: "\<not> crashed l \<Longrightarrow> accepting l \<Longrightarrow> listener l = Some True \<Longrightarrow>
    life_step p l (accept_conn p raw ws remote l)"
| step_accept_error: "\<not> crashed l \<Longrightarrow> accepting l \<Longrightarrow> life_step p l (accept_error l)"
| step_turn: "\<not> crashed l \<Longrightarrow> k < length (active l) \<Longrightarrow> life_step p l (conn_turn p k l)"
| step_wait: "\<not> crashed l \<Longrightarrow> srv_state l = ServerStateStopped \<Longrightarrow> wgConnections l = 0 \<Longrightarrow>
    \<not> closedListener l \<Longrightarrow> life_step p l (wait_done l)"
| step_shutdown: "\<not> crashed l \<Longrightarrow> life_step p l (Shutdown_close l)"

inductive_cases life_stepE: "life_step p l l'"

section \<open>The invariant\<close>

text \<open>
  The counters count the goroutines; the channel is closed only after all of them are gone and
  the server has stopped accepting; and no connection is in the state that announces a shutdown.
\<close>

definition life_inv :: "lifecycle \<Rightarrow> bool" where
  "life_inv l \<longleftrightarrow>
     wgConnections l = length (active l) \<and> countConnections l = int (length (active l)) \<and>
     (closedListener l \<longrightarrow> active l = [] \<and> srv_state l = ServerStateStopped) \<and>
     (accepting l \<longleftrightarrow> srv_state l = ServerStateRunning) \<and>
     (srv_state l = ServerStateNew \<longrightarrow> active l = []) \<and>
     (\<forall>(i, c) \<in> set (active l). state c \<noteq> ConnShutdown \<and> conn_inv (srv l) c)"

named_theorems cmd_state "the states a command can lead to"

lemma cmd_hello_state [cmd_state]:
  "state (snd (cmd_helo s p cmd c)) = state c" "state (snd (cmd_ehlo s p cmd c)) = state c"
  by (simp_all add: cmd_helo_def cmd_ehlo_def cmd_unfold split: option.splits)

lemma cmd_proxies_state [cmd_state]:
  "state (snd (cmd_xclient p cmd c)) = state c" "state (snd (cmd_proxy s p cmd c)) = state c"
  by (simp_all add: cmd_xclient_def cmd_proxy_def cmd_unfold split: option.splits)

lemma cmd_mail_state [cmd_state]: "state (snd (cmd_mail p cmd c)) = state c"
  by (auto simp: cmd_mail_def cmd_unfold split: option.splits prod.splits sum.splits)

lemma cmd_rcpt_state [cmd_state]: "state (snd (cmd_rcpt s p cmd c)) = state c"
  by (simp add: cmd_rcpt_def cmd_unfold split: option.splits sum.splits)

lemma cmd_others_state [cmd_state]:
  "state (snd (cmd_help c)) = state c" "state (snd (cmd_rset p c)) = state c"
  "state (snd (cmd_vrfy c)) = state c" "state (snd (cmd_noop c)) = state c"
  "state (snd (cmd_quit c)) = state c" "state (snd (cmd_unrecognized s c)) = state c"
  "state (snd (cmd_data c)) = (if RcptTo (Env c) = [] then state c else ConnData)"
  "state (snd (cmd_starttls s c)) = (if TLSConfig s then ConnStartTLS else state c)"
  by (simp_all add: cmd_help_def cmd_rset_def cmd_vrfy_def cmd_noop_def cmd_quit_def cmd_data_def
      cmd_starttls_def cmd_unrecognized_def cmd_unfold)

lemma dispatch_state: "state c = ConnCmd \<Longrightarrow> state (snd (dispatch s p cmd c)) \<noteq> ConnShutdown"
  by (simp add: dispatch_def cmd_state)

lemma cmd_turn_no_shutdown:
  assumes "state c = ConnCmd" "cmd_turn s p False c = (Go_on, c')"
  shows "state c' \<noteq> ConnShutdown"
proof -
  obtain res c1 where rc: "readCommand c = (res, c1)" by (metis prod.exhaust)
  from assms(2) rc obtain cmd where "res = Inr cmd"
    by (cases res) (auto simp: cmd_turn_def split: ioerr.splits)
  with assms(2) rc have d: "dispatch s p cmd c1 = (Go_on, c')" by (simp add: cmd_turn_def)
  have "state c1 = ConnCmd" using assms(1) by (subst readCommand_fields(1) [OF rc]) simp
  from dispatch_state [OF this, of s p cmd] d show ?thesis by simp
qed

lemma data_turn_no_shutdown:
  assumes "state c = ConnData" "data_turn s p False c = (Go_on, c')"
  shows "state c' \<noteq> ConnShutdown"
proof -
  obtain e c1 where rd: "read_data c = (e, c1)" by (metis prod.exhaust)
  then have st: "state c1 = ConnData"
    using assms(1) by (auto simp: read_data_def set_env_def split: prod.splits)
  have "deliver s p False c1 = (Go_on, c') \<Longrightarrow> state c' = ConnCmd"
    by (auto simp: deliver_def Let_def split: option.splits prod.splits outcome.splits)
  with assms(2) rd st show ?thesis
    by (auto simp: data_turn_def split: option.splits ioerr.splits)
qed

lemma turn_no_shutdown:
  assumes "state c \<noteq> ConnShutdown" "turn s p False c = (Go_on, c')"
  shows "state c' \<noteq> ConnShutdown"
proof (cases "state c")
  case ConnStartTLS
  have "starttls_turn s p c = (Go_on, c') \<Longrightarrow> state c' = ConnCmd"
    by (auto simp: starttls_turn_def split: if_splits prod.splits option.splits)
  with ConnStartTLS assms(2) show ?thesis by (auto simp: turn_def split: if_splits)
qed (use assms cmd_turn_no_shutdown data_turn_no_shutdown in
    \<open>auto simp: turn_def greeting_turn_def split: if_splits\<close>)

lemma start_conn_state:
  "state (snd (start_conn s p (newConnection p raw ws remote n i))) = ConnGreeting"
  by (simp add: start_conn_def upgradeTLS_def newConnection_def kill_def
      split: prod.splits option.splits)

lemma start_conn_inv: "conn_inv s (snd (start_conn s p (newConnection p raw ws remote (MaxSize s) i)))"
  by (auto simp: start_conn_def upgradeTLS_def newConnection_def conn_inv_def reader_ok_def
      NewSMTPReader_def Limit_def settled_def kill_def split: prod.splits option.splits)

lemma conn_turn_inv:
  assumes "life_inv l" "k < length (active l)"
  shows "life_inv (conn_turn p k l)"
proof -
  obtain i c where ic: "active l ! k = (i, c)" by (metis prod.exhaust)
  have mem: "(i, c) \<in> set (active l)" using assms(2) ic by (metis nth_mem)
  then have open': "\<not> closedListener l" and st: "state c \<noteq> ConnShutdown" "conn_inv (srv l) c"
    and new: "srv_state l \<noteq> ServerStateNew"
    using assms(1) by (auto simp: life_inv_def)
  obtain f c' where t: "turn (srv l) p False c = (f, c')" by (metis prod.exhaust)
  have sub: "set (take k (active l)) \<union> set (drop (Suc k) (active l)) \<subseteq> set (active l)"
    using set_take_subset set_drop_subset by fastforce
  have gone: "life_inv (l\<lparr>active := take k (active l) @ drop (Suc k) (active l),
      wgConnections := wgConnections l - 1, countConnections := countConnections l - 1\<rparr>)"
    using assms sub open' new by (auto simp: life_inv_def)
  show ?thesis
  proof (cases f)
    case Go_on
    with t turn_no_shutdown [OF st(1)] turn_inv [OF st(2)]
    have st': "state c' \<noteq> ConnShutdown" "conn_inv (srv l) c'" by blast+
    have "set ((active l)[k := (i, c')]) \<subseteq> insert (i, c') (set (active l))"
      by (rule set_update_subset_insert)
    with assms st' open' new Go_on t ic show ?thesis
      by (auto simp: conn_turn_def isShuttingDown_def life_inv_def)
  next
    case Return
    with gone t ic open' show ?thesis by (simp add: conn_turn_def isShuttingDown_def)
  next
    case (Crash r)
    with gone t ic open' show ?thesis
      by (simp add: conn_turn_def isShuttingDown_def) (simp add: life_inv_def)
  qed
qed

lemma life_step_inv: "life_inv l \<Longrightarrow> life_step p l l' \<Longrightarrow> life_inv l'"
proof (erule life_stepE, goal_cases)
  case (1 h ok)
  then show ?case by (auto simp: listen_def life_inv_def split: prod.splits option.splits)
next
  case (2 raw ws remote)
  then show ?case by (auto simp: accept_conn_def life_inv_def Let_def start_conn_state start_conn_inv)
next
  case (4 k)
  then show ?case by (simp add: conn_turn_inv)
qed (auto simp: accept_error_def wait_done_def Shutdown_close_def life_inv_def)

definition life_init :: "lifecycle \<Rightarrow> bool" where
  "life_init l \<longleftrightarrow> (\<exists>s. l = new_server s)"

interpretation life: invariant_system life_init "life_step p" life_inv for p
proof
  show "life_init l \<Longrightarrow> life_inv l" for l
    by (auto simp: life_init_def new_server_def life_inv_def)
qed (rule life_step_inv)

section \<open>Properties\<close>

text \<open>
  C4: Shutdown returns nil only after the last client is gone: in every reachable state of a server
  that has been listening, if Shutdown can return without an error then no connection is being
  served and GetActiveClientsCount is 0; and at all times that count is the number of connections
  being served, however their turns interleave.
\<close>

theorem Shutdown_waits:
  assumes "life_init l0" "run_of (life_step p) l0 l"
  shows "GetActiveClientsCount l = int (length (active l))
    \<and> (listener l \<noteq> None \<and> Shutdown_wait ctx_done l = Some None \<longrightarrow>
         active l = [] \<and> srv_state l = ServerStateStopped)"
proof -
  have "life_inv l" using life.reachable_inv assms by blast
  then show ?thesis
    by (auto simp: life_inv_def GetActiveClientsCount_def Shutdown_wait_def split: if_splits)
qed

text \<open>
  C16: isShuttingDown is false in every turn of every connection: the channel it looks at is closed
  only after the last connection has gone. No connection ever reaches the state ConnShutdown, so
  no client is sent the 421 reply that announces a shutdown; a Shutdown waits for the clients to
  leave on their own.
\<close>

theorem shutdown_never_announced:
  assumes "life_init l0" "run_of (life_step p) l0 l" "(i, c) \<in> set (active l)"
  shows "\<not> isShuttingDown l \<and> state c \<noteq> ConnShutdown"
proof -
  have "life_inv l" using life.reachable_inv assms(1,2) by blast
  with assms(3) show ?thesis by (auto simp: life_inv_def isShuttingDown_def)
qed

text \<open>The turns that are left to the goroutines of a server that has stopped accepting.\<close>

definition life_measure :: "lifecycle \<Rightarrow> nat" where
  "life_measure l = sum_list (map (\<lambda>(i, c). Suc (conn_measure c)) (active l))"

lemma conn_turn_measure:
  assumes "handshake_consumes p" "life_inv l" "active l = (i, c) # rest" "\<not> crashed (conn_turn p 0 l)"
  shows "life_measure (conn_turn p 0 l) < life_measure l"
    "srv_state (conn_turn p 0 l) = srv_state l" "listener (conn_turn p 0 l) = listener l"
proof -
  have c: "conn_inv (srv l) c" "\<not> closedListener l" using assms(2,3) by (auto simp: life_inv_def)
  obtain f c' where t: "turn (srv l) p False c = (f, c')" by (metis prod.exhaust)
  show "life_measure (conn_turn p 0 l) < life_measure l"
    "srv_state (conn_turn p 0 l) = srv_state l" "listener (conn_turn p 0 l) = listener l"
    using t assms(3,4) c turn_measure [OF assms(1) c(1), of False c']
    by (cases f, simp_all add: conn_turn_def isShuttingDown_def life_measure_def Let_def)+
qed

lemma drain:
  "handshake_consumes p \<Longrightarrow> life_inv l \<Longrightarrow> \<not> crashed l \<Longrightarrow> srv_state l = ServerStateStopped \<Longrightarrow>
     \<exists>l'. run_of (life_step p) l l' \<and> (crashed l' \<or> closedListener l')"
proof (induction "life_measure l" arbitrary: l rule: less_induct)
  case less
  show ?case
  proof (cases "active l")
    case Nil
    then have "wgConnections l = 0" using less.prems(2) by (simp add: life_inv_def)
    then have "\<not> closedListener l \<Longrightarrow> run_of (life_step p) l (wait_done l)"
      using step_wait [OF less.prems(3,4), of p] by (intro run_of_one) blast
    moreover have "closedListener (wait_done l)" by (simp add: wait_done_def)
    ultimately show ?thesis using run_refl [of "life_step p" l] by blast
  next
    case (Cons ic rest)
    let ?l = "conn_turn p 0 l"
    have st: "life_step p l ?l" using less.prems(3) Cons by (intro step_turn) auto
    show ?thesis
    proof (cases "crashed ?l")
      case True
      then show ?thesis using run_of_one [of "life_step p", OF st] by blast
    next
      case False
      obtain i c where ic: "ic = (i, c)" by (metis prod.exhaust)
      note m = conn_turn_measure [OF less.prems(1,2) Cons [unfolded ic] False]
      have "srv_state ?l = ServerStateStopped" using m(2) less.prems(4) by simp
      from less.hyps [OF m(1) less.prems(1) life_step_inv [OF less.prems(2) st] False this]
      obtain l' where l': "run_of (life_step p) ?l l'" "crashed l' \<or> closedListener l'" by blast
      from run_of_trans [OF l'(1) run_of_one [of "life_step p", OF st]] l'(2) show ?thesis by blast
    qed
  qed
qed


text \<open>A server that accepts one client and is shut down.\<close>

definition w_running :: lifecycle where
  "w_running = accept_conn plain_platform \<lparr>chunks = [], raw_end = EOF\<rparr> [] (PeerAddr ''::1'')
     (listen (Inr ''mx'') True (new_server plain_server))"

definition w_stopped :: lifecycle where
  "w_stopped = accept_error (Shutdown_close w_running)"

lemma w_listen: "listen (Inr ''mx'') True (new_server plain_server) =
    (new_server plain_server)\<lparr>srv_state := ServerStateRunning, listener := Some True, accepting := True\<rparr>"
  by (simp add: listen_def setDefaults_def new_server_def plain_server_def defaultInterface_def
      defaultMaxClients_def defaultTimeout_def defaultMaxSize_def defaultMaxRecipients_def
      defaultMaxUnrecognizedCommands_def)

lemma w_listen_fields [simp]:
  "\<not> crashed (listen (Inr ''mx'') True (new_server plain_server))"
  "accepting (listen (Inr ''mx'') True (new_server plain_server))"
  "listener (listen (Inr ''mx'') True (new_server plain_server)) = Some True"
  "active (listen (Inr ''mx'') True (new_server plain_server)) = []"
  by (simp_all add: w_listen) (simp_all add: new_server_def)

lemma w_running_run: "run_of (life_step plain_platform) (new_server plain_server) w_running"
proof -
  let ?l = "listen (Inr ''mx'') True (new_server plain_server)"
  have "life_step plain_platform (new_server plain_server) ?l"
    by (rule step_listen) (simp_all add: new_server_def)
  moreover have "life_step plain_platform ?l w_running" unfolding w_running_def
    by (rule step_accept) simp_all
  ultimately show ?thesis by (blast intro: run_of.intros)
qed

lemma w_stopped_run: "run_of (life_step plain_platform) (new_server plain_server) w_stopped"
proof -
  have r: "\<not> crashed w_running" "accepting w_running"
    by (simp_all add: w_running_def accept_conn_def Let_def)
  then have "life_step plain_platform w_running (Shutdown_close w_running)" by (intro step_shutdown)
  moreover have "life_step plain_platform (Shutdown_close w_running) w_stopped"
    using r unfolding w_stopped_def by (intro step_accept_error) (simp_all add: Shutdown_close_def)
  ultimately show ?thesis using w_running_run by (blast intro: run_of.intros)
qed

lemma w_init: "life_init (new_server plain_server)"
  by (auto simp: life_init_def)

theorem Shutdown_waits_witness:
  "GetActiveClientsCount w_running = 1 \<and> Shutdown_wait True w_running \<noteq> Some None"
proof -
  have l: "listener w_running = Some True" "length (active w_running) = 1"
    by (simp_all add: w_running_def accept_conn_def Let_def)
  from Shutdown_waits [OF w_init w_running_run, of True] l show ?thesis by auto
qed

theorem shutdown_never_announced_witness:
  "\<exists>i c. (i, c) \<in> set (active w_stopped) \<and> \<not> isShuttingDown w_stopped \<and> state c \<noteq> ConnShutdown"
proof -
  have "\<exists>i c. (i, c) \<in> set (active w_stopped)"
    by (auto simp: w_stopped_def accept_error_def Shutdown_close_def w_running_def accept_conn_def Let_def)
  with shutdown_never_announced [OF w_init w_stopped_run] show ?thesis by blast
qed


end
