(* ===== verification/Xid.thy ===== *)
theory Xid imports Go_Strings "HOL-Library.Word" begin

unbundle bit_operations_syntax

text \<open>
  utils/id.go: identifiers of 12 bytes (time, machine, process, counter) written as 20 characters
  in base 32. Bytes are 8-bit words, the counter is a 32-bit word; an index out of range is None.
  Hostname, process id, random bytes, SHA-256 and the clock are arguments.
\<close>

section \<open>Identifiers\<close>

definition encodedLen :: nat where
  "encodedLen = 20"

definition encoding :: string where
  "encoding = ''0123456789abcdefghijklmnopqrstuv''"

text \<open>What encode writes where, in its order; & binds tighter than |, and shifts drop bits.\<close>

definition encode_digits :: "8 word list \<Rightarrow> (nat \<times> 8 word) list" where
  "encode_digits x =
    [(19, push_bit 4 (x ! 11) AND 0x1F),
     (18, drop_bit 1 (x ! 11) AND 0x1F),
     (17, drop_bit 6 (x ! 11) OR (push_bit 2 (x ! 10) AND 0x1F)),
     (16, drop_bit 3 (x ! 10)),
     (15, x ! 9 AND 0x1F),
     (14, drop_bit 5 (x ! 9) OR (push_bit 3 (x ! 8) AND 0x1F)),
     (13, drop_bit 2 (x ! 8) AND 0x1F),
     (12, drop_bit 7 (x ! 8) OR (push_bit 1 (x ! 7) AND 0x1F)),
     (11, drop_bit 4 (x ! 7) OR (push_bit 4 (x ! 6) AND 0x1F)),
     (10, drop_bit 1 (x ! 6) AND 0x1F),
     (9, drop_bit 6 (x ! 6) OR (push_bit 2 (x ! 5) AND 0x1F)),
     (8, drop_bit 3 (x ! 5)),
     (7, x ! 4 AND 0x1F),
     (6, drop_bit 5 (x ! 4) OR (push_bit 3 (x ! 3) AND 0x1F)),
     (5, drop_bit 2 (x ! 3) AND 0x1F),
     (4, drop_bit 7 (x ! 3) OR (push_bit 1 (x ! 2) AND 0x1F)),
     (3, drop_bit 4 (x ! 2) OR (push_bit 4 (x ! 1) AND 0x1F)),
     (2, drop_bit 1 (x ! 1) AND 0x1F),
     (1, drop_bit 6 (x ! 1) OR (push_bit 2 (x ! 0) AND 0x1F)),
     (0, drop_bit 3 (x ! 0))]"

fun write_digits :: "(nat \<times> 8 word) list \<Rightarrow> string \<Rightarrow> string option" where
  "write_digits [] dst = Some dst"
| "write_digits ((i, d) # ds) dst =
     (if unat d < length encoding \<and> i < length dst then write_digits ds (dst[i := encoding ! unat d]) else None)"

definition encode :: "string \<Rightarrow> 8 word list \<Rightarrow> string option" where
  "encode dst x = (if length dst \<le> 19 \<or> length x \<le> 11 then None else write_digits (encode_digits x) dst)"

text \<open>The variables of the package.\<close>

record id_state =
  machine :: "8 word list"
  pid :: int
  counter :: "32 word"

definition randInt :: "8 word list \<Rightarrow> 32 word" where
  "randInt b = push_bit 16 (ucast (b ! 0)) OR push_bit 8 (ucast (b ! 1)) OR ucast (b ! 2)"

text \<open>The initialisation: copy writes the first three bytes of the hash.\<close>

definition id_init :: "(string \<Rightarrow> 8 word list) \<Rightarrow> string \<Rightarrow> int \<Rightarrow> 8 word list \<Rightarrow> id_state" where
  "id_init sha256 hostname getpid random =
     (let sum = take 3 (sha256 hostname)
      in \<lparr>machine = sum @ drop (length sum) [0, 0, 0], pid = getpid, counter = randInt random\<rparr>)"

definition PutUint32 :: "32 word \<Rightarrow> 8 word list" where
  "PutUint32 v = [ucast (drop_bit 24 v), ucast (drop_bit 16 v), ucast (drop_bit 8 v), ucast v]"

text \<open>The 12 bytes of an identifier.\<close>

definition id_bytes :: "id_state \<Rightarrow> int \<Rightarrow> 32 word \<Rightarrow> 8 word list" where
  "id_bytes s unix i =
     PutUint32 (word_of_int unix) @ [machine s ! 0, machine s ! 1, machine s ! 2] @
     [word_of_int (pid s div 2 ^ 8), word_of_int (pid s)] @
     [ucast (drop_bit 16 i), ucast (drop_bit 8 i), ucast i]"

definition XID :: "int \<Rightarrow> id_state \<Rightarrow> string option \<times> id_state" where
  "XID unix s =
     (let i = counter s + 1
      in (encode (replicate encodedLen (CHR 0x00)) (id_bytes s unix i), s\<lparr>counter := i\<rparr>))"

section \<open>Every identifier can be decoded\<close>

text \<open>The bytes back from the digits.\<close>

definition decode_digits :: "8 word list \<Rightarrow> 8 word list" where
  "decode_digits d =
    [push_bit 3 (d ! 0) OR drop_bit 2 (d ! 1),
     push_bit 6 (d ! 1) OR push_bit 1 (d ! 2) OR drop_bit 4 (d ! 3),
     push_bit 4 (d ! 3) OR drop_bit 1 (d ! 4),
     push_bit 7 (d ! 4) OR push_bit 2 (d ! 5) OR drop_bit 3 (d ! 6),
     push_bit 5 (d ! 6) OR d ! 7,
     push_bit 3 (d ! 8) OR drop_bit 2 (d ! 9),
     push_bit 6 (d ! 9) OR push_bit 1 (d ! 10) OR drop_bit 4 (d ! 11),
     push_bit 4 (d ! 11) OR drop_bit 1 (d ! 12),
     push_bit 7 (d ! 12) OR push_bit 2 (d ! 13) OR drop_bit 3 (d ! 14),
     push_bit 5 (d ! 14) OR d ! 15,
     push_bit 3 (d ! 16) OR drop_bit 2 (d ! 17),
     push_bit 6 (d ! 17) OR push_bit 1 (d ! 18) OR drop_bit 4 (d ! 19)]"

text \<open>A digit is below 32 if none of the upper three bits is set.\<close>

lemma bit_byte_lt: "bit d n \<Longrightarrow> n < 8" for d :: "8 word"
  by (auto dest: bit_imp_le_length)

lemma digit_lt: "(\<And>n. bit d n \<Longrightarrow> n < 5) \<Longrightarrow> unat d < 32" for d :: "8 word"
proof -
  assume a: "\<And>n. bit d n \<Longrightarrow> n < 5"
  have "take_bit 5 d = d"
    by (rule bit_word_eqI) (use a in \<open>auto simp: bit_take_bit_iff\<close>)
  then have "unat d = take_bit 5 (unat d)" by (metis unsigned_take_bit_eq)
  then show ?thesis using take_bit_nat_less_exp [of 5 "unat d"] by simp
qed

lemma bits_1F: "bit (0x1F :: 8 word) n \<longleftrightarrow> n < 5"
proof -
  have "(0x1F :: 8 word) = mask 5" by (simp add: mask_eq_exp_minus_1)
  then have "bit (0x1F :: 8 word) n \<longleftrightarrow> bit (mask 5 :: 8 word) n" by (rule arg_cong)
  then show ?thesis unfolding bit_mask_iff by auto
qed

lemmas byte_bits = bit_or_iff bit_and_iff bit_push_bit_iff bit_drop_bit_eq bits_1F comp_def

lemma encode_digits_lt: "list_all (\<lambda>(i, d). unat d < 32) (encode_digits x)"
  unfolding encode_digits_def
  by (simp only: list.pred_inject prod.case; intro conjI digit_lt TrueI; simp only: byte_bits;
    (elim disjE conjE)?; ((drule bit_byte_lt)+)?; simp)

text \<open>The digits one by one, in the order of the text.\<close>

definition digits :: "8 word list \<Rightarrow> 8 word list" where
  "digits x = rev (map snd (encode_digits x))"

lemma digits_nth:
  "digits x ! 0 = drop_bit 3 (x ! 0)"
  "digits x ! 1 = drop_bit 6 (x ! 1) OR (push_bit 2 (x ! 0) AND 0x1F)"
  "digits x ! 2 = drop_bit 1 (x ! 1) AND 0x1F"
  "digits x ! 3 = drop_bit 4 (x ! 2) OR (push_bit 4 (x ! 1) AND 0x1F)"
  "digits x ! 4 = drop_bit 7 (x ! 3) OR (push_bit 1 (x ! 2) AND 0x1F)"
  "digits x ! 5 = drop_bit 2 (x ! 3) AND 0x1F"
  "digits x ! 6 = drop_bit 5 (x ! 4) OR (push_bit 3 (x ! 3) AND 0x1F)"
  "digits x ! 7 = x ! 4 AND 0x1F"
  "digits x ! 8 = drop_bit 3 (x ! 5)"
  "digits x ! 9 = drop_bit 6 (x ! 6) OR (push_bit 2 (x ! 5) AND 0x1F)"
  "digits x ! 10 = drop_bit 1 (x ! 6) AND 0x1F"
  "digits x ! 11 = drop_bit 4 (x ! 7) OR (push_bit 4 (x ! 6) AND 0x1F)"
  "digits x ! 12 = drop_bit 7 (x ! 8) OR (push_bit 1 (x ! 7) AND 0x1F)"
  "digits x ! 13 = drop_bit 2 (x ! 8) AND 0x1F"
  "digits x ! 14 = drop_bit 5 (x ! 9) OR (push_bit 3 (x ! 8) AND 0x1F)"
  "digits x ! 15 = x ! 9 AND 0x1F"
  "digits x ! 16 = drop_bit 3 (x ! 10)"
  "digits x ! 17 = drop_bit 6 (x ! 11) OR (push_bit 2 (x ! 10) AND 0x1F)"
  "digits x ! 18 = drop_bit 1 (x ! 11) AND 0x1F"
  "digits x ! 19 = push_bit 4 (x ! 11) AND 0x1F"
  by (simp_all add: digits_def encode_digits_def)

lemma below_eight: "n < 8 \<Longrightarrow> n = 0 \<or> n = 1 \<or> n = 2 \<or> n = 3 \<or> n = 4 \<or> n = 5 \<or> n = 6 \<or> n = (7 :: nat)"
  by arith

lemma byte_eqI:
  fixes a b :: "8 word"
  assumes "\<And>n. n = 0 \<or> n = 1 \<or> n = 2 \<or> n = 3 \<or> n = 4 \<or> n = 5 \<or> n = 6 \<or> n = 7 \<Longrightarrow> bit a n = bit b n"
  shows "a = b"
  by (rule bit_word_eqI, rule assms, rule below_eight) simp

lemma bit_byte_high: "8 \<le> n \<Longrightarrow> \<not> bit d n" for d :: "8 word"
  using bit_byte_lt [of d n] by linarith

text \<open>The six ways a byte is spread over digits.\<close>

lemma spread_bytes:
  fixes a b c :: "8 word"
  shows "push_bit 3 (drop_bit 3 a) OR drop_bit 2 (drop_bit 6 b OR (push_bit 2 a AND 0x1F)) = a"
    and "push_bit 6 (drop_bit 6 a OR (push_bit 2 b AND 0x1F)) OR push_bit 1 (drop_bit 1 a AND 0x1F)
      OR drop_bit 4 (drop_bit 4 c OR (push_bit 4 a AND 0x1F)) = a"
    and "push_bit 6 (drop_bit 6 a OR (push_bit 2 b AND 0x1F)) OR push_bit 1 (drop_bit 1 a AND 0x1F)
      OR drop_bit 4 (push_bit 4 a AND 0x1F) = a"
    and "push_bit 4 (drop_bit 4 a OR (push_bit 4 b AND 0x1F)) OR
      drop_bit 1 (drop_bit 7 c OR (push_bit 1 a AND 0x1F)) = a"
    and "push_bit 7 (drop_bit 7 a OR (push_bit 1 b AND 0x1F)) OR push_bit 2 (drop_bit 2 a AND 0x1F)
      OR drop_bit 3 (drop_bit 5 c OR (push_bit 3 a AND 0x1F)) = a"
    and "push_bit 5 (drop_bit 5 a OR (push_bit 3 b AND 0x1F)) OR (a AND 0x1F) = a"
  by (rule byte_eqI; elim disjE; simp only: byte_bits; simp add: numeral_eq_Suc bit_byte_high)+

lemma decode_encode_digits: "length x = 12 \<Longrightarrow> decode_digits (digits x) = x"
  unfolding decode_digits_def digits_nth spread_bytes
  by (rule nth_equalityI) (auto simp: less_Suc_eq numeral_eq_Suc)

text \<open>encode writes every character of a buffer of the right length, and never panics.\<close>

lemma write_digits_Some:
  "list_all (\<lambda>(i, d). unat d < 32 \<and> i < length dst) ds \<Longrightarrow>
     write_digits ds dst = Some (foldl (\<lambda>t (i, d). t[i := encoding ! unat d]) dst ds)"
  by (induction ds dst rule: write_digits.induct) (auto simp: encoding_def)

lemma encode_text:
  assumes "length dst = 20" "length x = 12"
  shows "encode dst x = Some (map (\<lambda>d. encoding ! unat d) (digits x))"
proof -
  from assms(1) obtain a b c d e f g h i j k l m n p q r s t u
    where dst: "dst = [a, b, c, d, e, f, g, h, i, j, k, l, m, n, p, q, r, s, t, u]"
    by (auto simp: numeral_eq_Suc length_Suc_conv)
  have "write_digits (encode_digits x) dst =
      Some (foldl (\<lambda>t (i, d). t[i := encoding ! unat d]) dst (encode_digits x))"
    using encode_digits_lt [of x] assms(1)
    by (intro write_digits_Some) (simp add: encode_digits_def)
  also have "foldl (\<lambda>t (i, d). t[i := encoding ! unat d]) dst (encode_digits x) =
      map (\<lambda>d. encoding ! unat d) (digits x)"
    by (simp add: dst digits_def encode_digits_def)
  finally show ?thesis using assms by (simp add: encode_def)
qed

definition digit_of :: "char \<Rightarrow> 8 word" where
  "digit_of c = of_nat (length (takeWhile (\<lambda>x. x \<noteq> c) encoding))"

definition decode :: "string \<Rightarrow> 8 word list" where
  "decode text = decode_digits (map digit_of text)"

lemma digit_of_encoding: "unat d < 32 \<Longrightarrow> digit_of (encoding ! unat d) = d"
proof -
  have "\<forall>n \<in> set [0..<32]. length (takeWhile (\<lambda>x. x \<noteq> encoding ! n) encoding) = n" by code_simp
  then show "unat d < 32 \<Longrightarrow> digit_of (encoding ! unat d) = d" by (simp add: digit_of_def)
qed

lemma decode_encode: "length dst = 20 \<Longrightarrow> length x = 12 \<Longrightarrow> \<exists>t. encode dst x = Some t \<and> length t = 20 \<and> decode t = x"
proof -
  assume a: "length dst = 20" "length x = 12"
  have "\<forall>d \<in> set (digits x). digit_of (encoding ! unat d) = d"
    using encode_digits_lt [of x] digit_of_encoding by (fastforce simp: digits_def list_all_iff)
  then have "map (digit_of \<circ> (\<lambda>d. encoding ! unat d)) (digits x) = digits x" by (simp add: map_idI)
  then show ?thesis using a encode_text [OF a] decode_encode_digits [OF a(2)]
    by (simp add: decode_def) (simp add: digits_def encode_digits_def)
qed

section \<open>What is in an identifier\<close>

lemma length_id_bytes [simp]: "length (id_bytes s unix i) = 12"
  by (simp add: id_bytes_def PutUint32_def)

definition id_ok :: "id_state \<Rightarrow> bool" where
  "id_ok s \<longleftrightarrow> length (machine s) = 3"

lemma id_init_ok: "id_ok (id_init sha256 hostname getpid random)"
  by (simp add: id_ok_def id_init_def Let_def)

text \<open>
  C40: XID never fails: it increments the counter and returns 20 characters, from which the 12 bytes
  of the identifier can be read back.
\<close>

theorem XID_decodes:
  "\<exists>text. XID unix s = (Some text, s\<lparr>counter := counter s + 1\<rparr>) \<and> length text = 20 \<and>
     decode text = id_bytes s unix (counter s + 1)"
  using decode_encode [of "replicate encodedLen (CHR 0x00)" "id_bytes s unix (counter s + 1)"]
  by (auto simp: XID_def Let_def encodedLen_def)

text \<open>The bytes determine the time, the machine, the process and the counter, as far as they are kept.\<close>

lemma PutUint32_inj: "PutUint32 v = PutUint32 w \<longleftrightarrow> v = w"
proof
  assume eq: "PutUint32 v = PutUint32 w"
  show "v = w"
  proof (rule bit_word_eqI)
    fix n assume "n < LENGTH(32)"
    then have n: "n < 8 \<or> (8 \<le> n \<and> n < 16) \<or> (16 \<le> n \<and> n < 24) \<or> (24 \<le> n \<and> n < 32)" by auto
    have u: "bit (ucast (drop_bit k v) :: 8 word) m = bit (ucast (drop_bit k w) :: 8 word) m"
      if "k \<in> {0, 8, 16, 24}" for k m using that eq by (auto simp: PutUint32_def)
    have "bit v (k + m) = bit w (k + m)" if "k \<in> {0, 8, 16, 24}" "m < 8" for k m
      using u [OF that(1), of m] that(2) by (simp add: bit_simps)
    from this [of 0 n] this [of 8 "n - 8"] this [of 16 "n - 16"] this [of 24 "n - 24"] n
    show "bit v n = bit w n" by auto
  qed
qed simp

lemma counter_bytes:
  "[ucast (drop_bit 16 i), ucast (drop_bit 8 i), ucast i] =
     [ucast (drop_bit 16 j), ucast (drop_bit 8 j), ucast j :: 8 word] \<longleftrightarrow>
   take_bit 24 i = take_bit 24 j" for i j :: "32 word"
proof
  assume eq: "[ucast (drop_bit 16 i), ucast (drop_bit 8 i), ucast i] =
     [ucast (drop_bit 16 j), ucast (drop_bit 8 j), ucast j :: 8 word]"
  have "bit i (k + m) = bit j (k + m)" if "k \<in> {0, 8, 16}" "m < 8" for k m
  proof -
    have "bit (ucast (drop_bit k i) :: 8 word) m = bit (ucast (drop_bit k j) :: 8 word) m"
      using that(1) eq by auto
    then show ?thesis using that(2) by (simp add: bit_simps)
  qed
  note b = this
  have "bit i n = bit j n" if n: "n < 24" for n
  proof -
    consider "n < 8" | "8 \<le> n" "n < 16" | "16 \<le> n" by linarith
    then show ?thesis
    proof cases
      case 1 then show ?thesis using b [of 0 n] by simp
    next
      case 2 then show ?thesis using b [of 8 "n - 8"] by simp
    next
      case 3 then show ?thesis using b [of 16 "n - 16"] n by simp
    qed
  qed
  then show "take_bit 24 i = take_bit 24 j" by (intro bit_word_eqI) (auto simp: bit_take_bit_iff)
next
  assume eq: "take_bit 24 i = take_bit 24 j"
  have b: "bit i n = bit j n" if "n < 24" for n
    using arg_cong [OF eq, of "\<lambda>x. bit x n"] that by (simp add: bit_take_bit_iff)
  have "(ucast (drop_bit k i) :: 8 word) = ucast (drop_bit k j)" if "k \<le> 16" for k
  proof (rule bit_word_eqI)
    fix n assume "n < LENGTH(8)"
    then show "bit (ucast (drop_bit k i) :: 8 word) n = bit (ucast (drop_bit k j) :: 8 word) n"
      using that b [of "k + n"] by (simp add: bit_simps)
  qed
  from this [of 16] this [of 8] this [of 0]
  show "[ucast (drop_bit 16 i), ucast (drop_bit 8 i), ucast i] =
     [ucast (drop_bit 16 j), ucast (drop_bit 8 j), ucast j :: 8 word]" by simp
qed

lemma two_digits_eq:
  fixes a b A B :: int
  assumes "0 \<le> a" "a < 256" "0 \<le> b" "b < 256"
  shows "256 * A + a = 256 * B + b \<longleftrightarrow> A = B \<and> a = b"
  using assms by (cases A B rule: linorder_cases) auto

lemma pid_bytes:
  "word_of_int (p div 2 ^ 8) = (word_of_int (q div 2 ^ 8) :: 8 word) \<and> word_of_int p = (word_of_int q :: 8 word)
   \<longleftrightarrow> p mod 2 ^ 16 = q mod 2 ^ 16"
proof -
  have m: "p mod 65536 = 256 * (p div 256 mod 256) + p mod 256" for p :: int
    using zmod_zmult2_eq [of 256 p 256] by simp
  have w: "word_of_int a = (word_of_int b :: 8 word) \<longleftrightarrow> a mod 256 = b mod 256" for a b
    by (simp add: word_of_int_eq_iff take_bit_eq_mod)
  have "p mod 65536 = q mod 65536 \<longleftrightarrow> p div 256 mod 256 = q div 256 mod 256 \<and> p mod 256 = q mod 256"
    unfolding m [of p] m [of q] by (rule two_digits_eq) simp_all
  moreover have "(2 :: int) ^ 8 = 256" "(2 :: int) ^ 16 = 65536" by simp_all
  ultimately show ?thesis unfolding w by (simp only:)
qed

text \<open>The part of an identifier that XID puts into it.\<close>

definition id_parts :: "id_state \<Rightarrow> int \<Rightarrow> 32 word \<times> 8 word list \<times> int \<times> 32 word" where
  "id_parts s unix = (word_of_int unix, machine s, pid s mod 2 ^ 16, take_bit 24 (counter s + 1))"

lemma id_bytes_parts:
  assumes "id_ok s" "id_ok s'"
  shows "id_bytes s u (counter s + 1) = id_bytes s' u' (counter s' + 1) \<longleftrightarrow> id_parts s u = id_parts s' u'"
proof -
  obtain a b c where m: "machine s = [a, b, c]"
    using assms(1) by (auto simp: id_ok_def numeral_eq_Suc length_Suc_conv)
  obtain a' b' c' where m': "machine s' = [a', b', c']"
    using assms(2) by (auto simp: id_ok_def numeral_eq_Suc length_Suc_conv)
  have l: "length (PutUint32 v) = length (PutUint32 w)" for v w by (simp add: PutUint32_def)
  have "id_bytes s u (counter s + 1) = id_bytes s' u' (counter s' + 1) \<longleftrightarrow>
      PutUint32 (word_of_int u) = PutUint32 (word_of_int u') \<and> [a, b, c] = [a', b', c'] \<and>
      (word_of_int (pid s div 2 ^ 8) = (word_of_int (pid s' div 2 ^ 8) :: 8 word) \<and>
       word_of_int (pid s) = (word_of_int (pid s') :: 8 word)) \<and>
      [ucast (drop_bit 16 (counter s + 1)), ucast (drop_bit 8 (counter s + 1)), ucast (counter s + 1)] =
        [ucast (drop_bit 16 (counter s' + 1)), ucast (drop_bit 8 (counter s' + 1)), ucast (counter s' + 1) :: 8 word]"
    unfolding id_bytes_def m m' append_eq_append_conv [OF disjI1 [OF l]] by auto
  then show ?thesis unfolding PutUint32_inj pid_bytes counter_bytes id_parts_def m m' by auto
qed

text \<open>The identifiers of one process, made at the given times one after the other.\<close>

fun XIDs :: "int list \<Rightarrow> id_state \<Rightarrow> string option list" where
  "XIDs [] s = []"
| "XIDs (t # ts) s = (case XID t s of (x, s') \<Rightarrow> x # XIDs ts s')"

lemma XID_eq_iff:
  assumes "id_ok s" "id_ok s'"
  shows "fst (XID u s) = fst (XID u' s') \<longleftrightarrow> id_parts s u = id_parts s' u'"
proof -
  obtain t where t: "fst (XID u s) = Some t" "decode t = id_bytes s u (counter s + 1)"
    using decode_encode [of "replicate encodedLen (CHR 0x00)" "id_bytes s u (counter s + 1)"]
    by (auto simp: XID_def Let_def encodedLen_def)
  obtain t' where t': "fst (XID u' s') = Some t'" "decode t' = id_bytes s' u' (counter s' + 1)"
    using decode_encode [of "replicate encodedLen (CHR 0x00)" "id_bytes s' u' (counter s' + 1)"]
    by (auto simp: XID_def Let_def encodedLen_def)
  have "fst (XID u s) = fst (XID u' s')" if "id_bytes s u (counter s + 1) = id_bytes s' u' (counter s' + 1)"
    using that by (simp add: XID_def Let_def)
  then show ?thesis using t t' id_bytes_parts [OF assms, of u u'] by auto
qed

lemma XIDs_nth:
  "i < length ts \<Longrightarrow> XIDs ts s ! i = fst (XID (ts ! i) (s\<lparr>counter := counter s + of_nat i\<rparr>))"
proof (induction ts arbitrary: s i)
  case (Cons t ts)
  show ?case
  proof (cases i)
    case 0
    then show ?thesis by (simp add: case_prod_beta)
  next
    case (Suc j)
    then show ?thesis using Cons.IH [of j "s\<lparr>counter := counter s + 1\<rparr>"] Cons.prems
      by (simp add: case_prod_beta XID_def Let_def add.assoc)
  qed
qed simp

lemma length_XIDs [simp]: "length (XIDs ts s) = length ts"
  by (induction ts arbitrary: s) (auto split: prod.splits)

lemma take_bit_counter:
  fixes c :: "32 word"
  assumes "i < 2 ^ 24" "j < 2 ^ 24" "take_bit 24 (c + of_nat i + 1) = take_bit 24 (c + of_nat j + 1)"
  shows "i = j"
proof -
  have "unat (take_bit 24 (c + of_nat k + 1)) = (unat c + k + 1) mod 2 ^ 24" for k
  proof -
    have "c + of_nat k + 1 = of_nat (unat c + k + 1)" by simp
    then have "unat (take_bit 24 (c + of_nat k + 1)) = take_bit 24 (take_bit 32 (unat c + k + 1))"
      by (simp only: unsigned_take_bit_eq unsigned_of_nat) simp
    moreover have "take_bit 24 (take_bit 32 (unat c + k + 1)) = take_bit 24 (unat c + k + 1)" by simp
    ultimately show ?thesis by (simp only: take_bit_eq_mod)
  qed
  with assms(3) have eq: "(unat c + i + 1) mod 2 ^ 24 = (unat c + j + 1) mod 2 ^ 24" by metis
  have same: "a = b" if "a \<le> b" "b < 2 ^ 24" "(C + b + 1) mod 2 ^ 24 = (C + a + 1) mod 2 ^ 24" for a b C :: nat
  proof -
    have "2 ^ 24 dvd (C + b + 1) - (C + a + 1)" using that(1,3) by (subst mod_eq_dvd_iff_nat [symmetric]) simp_all
    then have "2 ^ 24 dvd b - a" by simp
    then show ?thesis using that(1,2) dvd_imp_le [of "2 ^ 24" "b - a"] by linarith
  qed
  show ?thesis using same [of i j "unat c"] same [of j i "unat c"] eq assms(1,2) by (cases "i \<le> j") simp_all
qed

text \<open>
  C39: Identifiers are unique. Those of any 2^24 consecutive calls in a process differ, whatever the
  clock does; and two identifiers made anywhere are equal only if the time (modulo 2^32 seconds),
  the machine, the process id (modulo 2^16) and the counter (modulo 2^24) are.
\<close>

theorem XIDs_distinct:
  assumes "id_ok s" "length ts \<le> 2 ^ 24" "id_ok s'"
  shows "distinct (XIDs ts s) \<and> (fst (XID u s) = fst (XID u' s') \<longleftrightarrow> id_parts s u = id_parts s' u')"
proof
  have ok: "id_ok (s\<lparr>counter := c\<rparr>)" for c using assms(1) by (simp add: id_ok_def)
  show "distinct (XIDs ts s)" unfolding distinct_conv_nth
  proof (intro allI impI)
    fix i j assume ij: "i < length (XIDs ts s)" "j < length (XIDs ts s)" "i \<noteq> j"
    then have "i < 2 ^ 24" "j < 2 ^ 24" using assms(2) by simp_all
    then show "XIDs ts s ! i \<noteq> XIDs ts s ! j"
      using ij take_bit_counter [of i j "counter s"] by (auto simp: XIDs_nth XID_eq_iff ok id_parts_def)
  qed
  show "fst (XID u s) = fst (XID u' s') \<longleftrightarrow> id_parts s u = id_parts s' u'"
    using assms(1,3) by (rule XID_eq_iff)
qed

definition w_ids :: id_state where
  "w_ids = \<lparr>machine = [0xCA, 0xFE, 0x42], pid = 4711, counter = 0x10203\<rparr>"

lemma XIDs_distinct_witness:
  "distinct (XIDs [1700000000, 1700000000, 1600000000] w_ids) \<and>
   (fst (XID 0 w_ids) = fst (XID (2 ^ 32) w_ids) \<longleftrightarrow> id_parts w_ids 0 = id_parts w_ids (2 ^ 32))"
  by (rule XIDs_distinct) (simp_all add: w_ids_def id_ok_def)

end
