(* ===== verification/Mail_Facts.thy ===== *)
theory Mail_Facts imports Mail "HOL-Library.Multiset" begin

text \<open>
  What envelope/mail.go does: walking and flattening a content, the header fields of a mail, the
  tree of its parts, and decoding.
\<close>

section \<open>Walking\<close>

text \<open>The contents of a tree with their levels, each before its children.\<close>

fun preorder :: "nat \<Rightarrow> Content \<Rightarrow> (Content \<times> nat) list" where
  "preorder l (Content h b cs) = (Content h b cs, l) # concat (map (preorder (Suc l)) cs)"

lemma until_error_append:
  "until_error f (xs @ ys) st =
     (case until_error f xs st of (Some e, st') \<Rightarrow> (Some e, st') | (None, st') \<Rightarrow> until_error f ys st')"
  by (induction xs arbitrary: st) (auto split: prod.splits option.splits)

lemma until_error_concat:
  "(\<And>x st. x \<in> set xs \<Longrightarrow> g x st = until_error f (h x) st) \<Longrightarrow>
     until_error g xs st = until_error f (concat (map h xs)) st"
  by (induction xs arbitrary: st) (auto simp: until_error_append split: prod.splits option.splits)

lemma walk_from_preorder:
  "walk_from fn l c st = until_error (\<lambda>(d, n). fn d n) (preorder l c) st"
proof (induction c arbitrary: l st)
  case (Content h b cs)
  have "until_error (\<lambda>child. walk_from fn (Suc l) child) cs st
      = until_error (\<lambda>(d, n). fn d n) (concat (map (preorder (Suc l)) cs)) st" for st
    by (rule until_error_concat) (use Content in blast)
  then show ?case by (auto split: prod.splits option.splits)
qed

lemma Flatten_preorder: "Flatten c = filter Leaf (map fst (preorder l c))"
proof (induction c arbitrary: l)
  case (Content h b cs)
  have "map Flatten cs = map (\<lambda>d. filter Leaf (map fst (preorder (Suc l) d))) cs"
    using Content by auto
  then have "concat (map Flatten cs) = concat (map (\<lambda>d. filter Leaf (map fst (preorder (Suc l) d))) cs)"
    by (simp only:)
  also have "\<dots> = filter Leaf (map fst (concat (map (preorder (Suc l)) cs)))"
    by (simp add: map_concat filter_concat comp_def)
  finally have "concat (map Flatten cs) = \<dots>" .
  moreover have "Leaf (Content h b cs) \<Longrightarrow> cs = []" by (simp add: Leaf_def)
  ultimately show ?case by auto
qed

text \<open>
  C28: Walk calls the callback for every content of the tree, each before its children and these in
  order, with its depth as the level, until the callback fails, whose error it returns; Flatten
  returns exactly the leaves, in the order of the walk.
\<close>

theorem Walk_Flatten:
  "Walk fn c st = until_error (\<lambda>(d, n). fn d n) (preorder 0 c) st
   \<and> Flatten c = filter Leaf (map fst (preorder 0 c))"
  using walk_from_preorder [of fn 0 c st] Flatten_preorder [of c 0] by (simp add: Walk_def)

section \<open>Fields without encoded words\<close>

definition no_words :: "string \<Rightarrow> bool" where
  "no_words v \<longleftrightarrow> \<not> contains v ''=?''"

definition header_no_words :: "mime_header \<Rightarrow> bool" where
  "header_no_words h \<longleftrightarrow> (\<forall>(k, vv) \<in> set h. \<forall>v \<in> set vv. no_words v)"

lemma split_on_contains: "p \<in> set (split_on d s) \<Longrightarrow> contains p sub \<Longrightarrow> contains s sub"
proof -
  assume p: "p \<in> set (split_on d s)" "contains p sub"
  then obtain a b where ab: "split_on d s = a @ p # b" by (meson split_list)
  have j: "join [d] (a @ p # b) = (if a = [] then [] else join [d] a @ [d]) @ p @
      (if b = [] then [] else d # join [d] b)"
    by (induction a rule: induct_list012; cases b) auto
  obtain x y where "p = x @ sub @ y" using p(2) contains_iff by blast
  then have "s = ((if a = [] then [] else join [d] a @ [d]) @ x) @ sub @ y @ (if b = [] then [] else d # join [d] b)"
    using j ab join_split_on [of d s] by simp
  then show ?thesis unfolding contains_iff by blast
qed

lemma decode_parts_plain:
  "(\<forall>p \<in> set ps. no_words p) \<Longrightarrow> decode_parts cs cfg err ps = (ps, if ps = [] then err else None)"
  by (induction ps arbitrary: err) (auto simp: DecodeHeader_plain no_words_def quote_word_def)

lemma decodeWords_plain:
  assumes "no_words v"
  shows "decodeWords cs cfg v quote err = (Inr v, if quote then None else err)"
proof -
  have "\<forall>p \<in> set (split_on SP v). no_words p"
    using assms split_on_contains unfolding no_words_def by blast
  then show ?thesis using assms
    by (simp add: decodeWords_def decode_parts_plain DecodeHeader_plain no_words_def)
qed

lemma decode_values_plain:
  "(\<forall>v \<in> set vv. no_words v) \<Longrightarrow>
     decode_values cs cfg quote err vv = (vv, if quote \<and> vv \<noteq> [] then None else err)"
  by (induction vv arbitrary: err) (auto simp: decodeWords_plain)

definition quoted_key :: "decodingConfig \<Rightarrow> string \<times> string list \<Rightarrow> bool" where
  "quoted_key cfg f \<longleftrightarrow> to_lower (fst f) \<in> set (quoteEscapeHeaders cfg) \<and> snd f \<noteq> []"

lemma decode_all_plain:
  "header_no_words h \<Longrightarrow>
     decode_all cs cfg err h = (h, if \<exists>f \<in> set h. quoted_key cfg f then None else err)"
  by (induction h arbitrary: err)
    (auto simp: decode_values_plain header_no_words_def quoted_key_def split: prod.splits)

text \<open>A range over a map visits each entry once.\<close>

definition range_ok :: "header_range \<Rightarrow> bool" where
  "range_ok rng \<longleftrightarrow> (\<forall>h. mset (rng h) = mset h)"

lemma range_ok_set: "range_ok rng \<Longrightarrow> set (rng h) = set h"
  by (metis range_ok_def mset_eq_setD)

lemma range_ok_map_of:
  assumes "range_ok rng" "distinct (map fst h)"
  shows "map_of (rng h) = map_of h"
proof -
  have m: "mset (rng h) = mset h" using assms(1) by (simp add: range_ok_def)
  then have "mset (map fst (rng h)) = mset (map fst h)" by simp
  then have "distinct (map fst (rng h))" using assms(2) by (metis mset_eq_imp_distinct_iff)
  then have "map_of (rng h) k = Some v \<longleftrightarrow> map_of h k = Some v" for k v
    using assms(2) range_ok_set [OF assms(1), of h] by simp
  then show ?thesis by (intro ext) (metis option.exhaust)
qed

section \<open>Cutting a mail\<close>

text \<open>A mail as it is written: its fields, an empty line and its body.\<close>

definition mail_text :: "(string \<times> string) list \<Rightarrow> string \<Rightarrow> string" where
  "mail_text fs body = join crlf (map (\<lambda>(k, v). field_text k v) fs) @ crlf @ crlf @ body"

lemma cut_at_skip:
  "c \<notin> set l \<Longrightarrow> cut_at (c # sep) (l @ s) = map_option (\<lambda>p. (l @ fst p, snd p)) (cut_at (c # sep) s)"
  by (induction l) (auto simp: option.map_comp comp_def case_prod_beta option.map_ident)

lemma cut_at_lines:
  assumes "lines \<noteq> []" "\<forall>l \<in> set lines. l \<noteq> [] \<and> CR \<notin> set l"
  shows "cut_at (crlf @ crlf) (join crlf lines @ crlf @ crlf @ body) = Some (join crlf lines, body)"
  using assms
proof (induction lines rule: induct_list012)
  case (2 l)
  then show ?case using cut_at_skip [of CR l "LF # crlf" "crlf @ crlf @ body"] cut_at_prefix [of "crlf @ crlf" body]
    by simp
next
  case (3 l k ls)
  define rest where "rest = join crlf (k # ls) @ crlf @ crlf @ body"
  obtain c r where r: "rest = c # r" "c \<noteq> CR"
    using "3.prems"(2) by (cases k; cases ls) (auto simp: rest_def)
  have "cut_at (crlf @ crlf) rest = Some (join crlf (k # ls), body)"
    using "3.IH"(2) "3.prems"(2) by (simp add: rest_def)
  then have "cut_at (crlf @ crlf) (LF # rest) = Some (LF # join crlf (k # ls), body)" by simp
  moreover have "\<not> has_prefix (CR # LF # rest) (crlf @ crlf)" using r by simp
  ultimately have "cut_at (crlf @ crlf) (crlf @ rest) = Some (crlf @ join crlf (k # ls), body)" by simp
  then have "cut_at (crlf @ crlf) (l @ crlf @ rest) = Some (l @ crlf @ join crlf (k # ls), body)"
    using cut_at_skip [of CR l "LF # crlf" "crlf @ rest"] "3.prems"(2) by simp
  then show ?case by (simp add: rest_def)
qed simp

lemma NewMail_text:
  assumes "list_all field_ok fs" "fs \<noteq> []"
  shows "NewMail (mail_text fs body) u =
    Inr \<lparr>mail_UTF8 = u, RawHeaders = join crlf (map (\<lambda>(k, v). field_text k v) fs), RawBody = body\<rparr>"
proof -
  have "\<forall>l \<in> set (map (\<lambda>(k, v). field_text k v) fs). l \<noteq> [] \<and> CR \<notin> set l"
    using assms(1) field_bytes by (fastforce simp: list_all_iff)
  then show ?thesis using cut_at_lines [of "map (\<lambda>(k, v). field_text k v) fs" body] assms(2)
    by (simp add: NewMail_def mail_text_def go_cut_def)
qed

section \<open>The header of a mail\<close>

definition fields_ok :: "(string \<times> string) list \<Rightarrow> bool" where
  "fields_ok fs \<longleftrightarrow> fs \<noteq> [] \<and> list_all field_ok fs \<and> (\<forall>(k, v) \<in> set fs. no_words v)"

lemma distinct_header_append: "distinct (map fst h) \<Longrightarrow> distinct (map fst (header_append k v h))"
  by (simp add: header_append_def distinct_update)

lemma distinct_header_of: "distinct (map fst (header_of fs))"
proof -
  have "distinct (map fst h) \<Longrightarrow>
      distinct (map fst (fold (\<lambda>(k, v). header_append (CanonicalMIMEHeaderKey k) v) fs h))" for h
    by (induction fs arbitrary: h) (auto simp: distinct_header_append)
  then show ?thesis by (simp add: header_of_def)
qed

lemma header_of_no_words: "(\<forall>(k, v) \<in> set fs. no_words v) \<Longrightarrow> header_no_words (header_of fs)"
proof -
  assume a: "\<forall>(k, v) \<in> set fs. no_words v"
  have "no_words v" if "(k, vv) \<in> set (header_of fs)" "v \<in> set vv" for k vv v
  proof -
    have "map_of (header_of fs) k = Some vv" using that(1) distinct_header_of by simp
    then have "v \<in> set (header_values (header_of fs) k)" using that(2) by (simp add: header_values_def)
    then show ?thesis using a by (auto simp: header_values_of)
  qed
  then show ?thesis by (auto simp: header_no_words_def)
qed

lemma header_no_words_range: "range_ok rng \<Longrightarrow> header_no_words (rng h) = header_no_words h"
  by (simp add: header_no_words_def range_ok_set)

text \<open>The header that is read: as it is or in the order of the range; the keys and values are the same.\<close>

lemma mail_Headers_plain:
  assumes "ReadMIMEHeader EOF (RawHeaders m) = ((h, err0), rest)" "header_no_words h" "range_ok rng"
  shows "fst (mail_Headers xtext rng [] m) \<in> {h, rng h} \<and>
    (err0 = None \<or> err0 = Some EOF \<longrightarrow> snd (mail_Headers xtext rng [] m) = None)"
  using assms decode_all_plain [of "rng h"]
  by (auto simp: mail_Headers_def header_no_words_range split: if_splits)

lemma mail_Headers_text:
  assumes "fields_ok fs" "range_ok rng"
    and "m = \<lparr>mail_UTF8 = u, RawHeaders = join crlf (map (\<lambda>(k, v). field_text k v) fs), RawBody = body\<rparr>"
  shows "snd (mail_Headers xtext rng [] m) = None"
    and "map_of (fst (mail_Headers xtext rng [] m)) = map_of (header_of fs)"
proof -
  have r: "ReadMIMEHeader EOF (RawHeaders m) = ((header_of fs, Some EOF), [])"
    using ReadMIMEHeader_unterminated [of fs EOF] assms(1) by (simp add: assms(3) fields_ok_def)
  have n: "header_no_words (header_of fs)"
    using assms(1) by (intro header_of_no_words) (simp add: fields_ok_def)
  note p = mail_Headers_plain [OF r n assms(2), of xtext]
  show "snd (mail_Headers xtext rng [] m) = None" using p by simp
  show "map_of (fst (mail_Headers xtext rng [] m)) = map_of (header_of fs)"
    using p range_ok_map_of [OF assms(2) distinct_header_of] by auto
qed

text \<open>
  C24: A mail that is written as fields without encoded words, an empty line and a body is read back:
  NewMail cuts it there whatever the body holds, and Headers gives, for every key in any spelling
  of its letters, the values of the fields with that key in their order, without an error.
\<close>

theorem header_fields_roundtrip:
  assumes "fields_ok fs" "range_ok rng"
  shows "\<exists>m. NewMail (mail_text fs body) u = Inr m \<and> RawBody m = body \<and> mail_UTF8 m = u \<and>
    snd (mail_Headers xtext rng [] m) = None \<and>
    header_values (fst (mail_Headers xtext rng [] m)) (CanonicalMIMEHeaderKey key) =
      [v. (k, v) \<leftarrow> fs, CanonicalMIMEHeaderKey k = CanonicalMIMEHeaderKey key]"
proof -
  let ?m = "\<lparr>mail_UTF8 = u, RawHeaders = join crlf (map (\<lambda>(k, v). field_text k v) fs), RawBody = body\<rparr>"
  have "NewMail (mail_text fs body) u = Inr ?m"
    using NewMail_text assms(1) by (simp add: fields_ok_def)
  moreover have "header_values (fst (mail_Headers xtext rng [] ?m)) k = header_values (header_of fs) k" for k
    using mail_Headers_text(2) [OF assms refl] by (simp add: header_values_def)
  ultimately show ?thesis using mail_Headers_text(1) [OF assms refl] header_values_of by (intro exI [of _ ?m]) simp
qed

lemma range_ok_id: "range_ok id"
  by (simp add: range_ok_def)

theorem header_fields_roundtrip_witness:
  "\<exists>m. NewMail (mail_text [(''To'', ''x''), (''tO'', ''y'')] ''B'') True = Inr m \<and> RawBody m = ''B'' \<and>
    header_values (fst (mail_Headers (\<lambda>e r. r) id [] m)) ''To'' = [''x'', ''y'']"
proof -
  have ok: "fields_ok [(''To'', ''x''), (''tO'', ''y'')]" by code_simp
  have keys: "CanonicalMIMEHeaderKey ''To'' = ''To''" "CanonicalMIMEHeaderKey ''tO'' = ''To''" by code_simp+
  show ?thesis
    using header_fields_roundtrip [OF ok range_ok_id, of "''B''" True "\<lambda>e r. r" "''To''"]
    by (auto simp: keys)
qed

text \<open>
  C25: Headers forgets an error of the header: if the mail is not marked as UTF-8 and has a field
  that is quoted (From, To, Cc, Bcc, Reply-To or Sender) before the malformed line, the decoding of
  that field resets the error, and Headers reports none although the fields after the line are
  missing.
\<close>

theorem malformed_header_forgotten:
  assumes "ReadMIMEHeader EOF (RawHeaders m) = ((h, Some err), rest)" "err \<noteq> EOF" "\<not> mail_UTF8 m"
    and "header_no_words h" "range_ok rng" "(key, vv) \<in> set h" "vv \<noteq> []"
    and "to_lower key \<in> {''from'', ''to'', ''cc'', ''bcc'', ''reply-to'', ''sender''}"
  shows "mail_Headers xtext rng [] m = (rng h, None)"
proof -
  have "\<exists>f \<in> set (rng h). quoted_key default_config f"
    using assms(5-8) by (intro bexI [of _ "(key, vv)"]) (auto simp: quoted_key_def default_config_def range_ok_set)
  moreover have "\<not> literalHeaders default_config" by (simp add: default_config_def)
  ultimately show ?thesis using assms(1-5)
    by (simp add: mail_Headers_def header_no_words_range decode_all_plain)
qed

definition w_malformed :: Mail where
  "w_malformed = \<lparr>mail_UTF8 = False, RawHeaders = ''To: x'' @ crlf @ ''q'' @ crlf @ ''A: y'', RawBody = []\<rparr>"

theorem malformed_header_forgotten_witness:
  "mail_Headers (\<lambda>e r. r) id [] w_malformed = ([(''To'', [''x''])], None)"
proof -
  have "ReadMIMEHeader EOF (RawHeaders w_malformed) =
      (([(''To'', [''x''])], Some (ProtocolError (''malformed MIME header: missing colon: '' @ go_quote ''q''))), ''A: y'')"
    "header_no_words [(''To'', [''x''])]" "to_lower ''To'' = ''to''" by code_simp+
  then show ?thesis
    using malformed_header_forgotten [OF _ _ _ _ range_ok_id, of w_malformed _ _ _ "''To''" "[''x'']"]
    by (simp add: ProtocolError_def w_malformed_def)
qed

end
