(* ===== verification/Mail_Tree.thy ===== *)
theory Mail_Tree imports Mail_Facts begin

text \<open>
  A mail built from a tree of parts is read back as that tree, and a content that was encoded is
  decoded to what it was.
\<close>

section \<open>Trees of parts\<close>

datatype mime = Single "(string \<times> string) list" string | Multi "(string \<times> string) list" string "mime list"

fun mime_fields :: "mime \<Rightarrow> (string \<times> string) list" where
  "mime_fields (Single fs body) = fs"
| "mime_fields (Multi fs b ms) = fs"

text \<open>The body of a part as it is written, and the content it stands for.\<close>

fun mime_text :: "mime \<Rightarrow> string" where
  "mime_text (Single fs body) = body"
| "mime_text (Multi fs b ms) = multipart_text b (map (\<lambda>m. (mime_fields m, mime_text m)) ms)"

fun mime_content :: "mime \<Rightarrow> Content" where
  "mime_content (Single fs body) = Content (header_of fs) body []"
| "mime_content (Multi fs b ms) = Content (header_of fs) [] (map mime_content ms)"

text \<open>
  The fields of a part: they can be written on one line each, the part is not quoted-printable
  (a reader of parts decodes such a part), and its media type parses. Leaf looks for multipart in
  the field itself, so it is spelled there in lower case.
\<close>

definition part_fields_ok :: "(string \<times> string) list \<Rightarrow> bool" where
  "part_fields_ok fs \<longleftrightarrow> list_all field_ok fs \<and>
     \<not> equal_fold (header_Get (header_of fs) ''Content-Transfer-Encoding'') ''quoted-printable'' \<and>
     snd (snd (ParseMediaType (header_Get (header_of fs) ''Content-Type''))) = None \<and>
     has_prefix (header_Get (header_of fs) ''Content-Type'') ''multipart/'' =
       has_prefix (fst (ParseMediaType (header_Get (header_of fs) ''Content-Type''))) ''multipart/''"

definition media_type :: "(string \<times> string) list \<Rightarrow> string" where
  "media_type fs = fst (ParseMediaType (header_Get (header_of fs) ''Content-Type''))"

definition media_boundary :: "(string \<times> string) list \<Rightarrow> string" where
  "media_boundary fs = dict_get (fst (snd (ParseMediaType (header_Get (header_of fs) ''Content-Type'')))) ''boundary''"

text \<open>The boundary of a multipart is the one its media type names, and none of its parts contains it.\<close>

fun mime_ok :: "mime \<Rightarrow> bool" where
  "mime_ok (Single fs body) \<longleftrightarrow> part_fields_ok fs \<and> \<not> has_prefix (media_type fs) ''multipart/''"
| "mime_ok (Multi fs b ms) \<longleftrightarrow> part_fields_ok fs \<and> has_prefix (media_type fs) ''multipart/'' \<and>
     media_boundary fs = b \<and> boundary_ok b \<and>
     (\<forall>m \<in> set ms. mime_ok m \<and> \<not> contains (mime_text m) (dashBoundary b))"

lemma mime_ok_fields: "mime_ok m \<Longrightarrow> part_fields_ok (mime_fields m)"
  by (cases m) simp_all

lemma decode_part_plain:
  "part_fields_ok fs \<Longrightarrow> decode_part (header_of fs) r = (header_of fs, r)"
  by (simp add: decode_part_def part_fields_ok_def)

text \<open>A content with another header that has the same media type.\<close>

lemma parseContent_mime:
  "mime_ok m \<Longrightarrow> header_Get h ''Content-Type'' = header_Get (header_of (mime_fields m)) ''Content-Type'' \<Longrightarrow>
     parseContent h (mime_text m) EOF = Inr (Content h (Body (mime_content m)) (Children (mime_content m)))"
proof (induction m arbitrary: h)
  case (Single fs body)
  obtain t ps where "ParseMediaType (header_Get (header_of fs) ''Content-Type'') = (t, ps, None)"
    "\<not> has_prefix t ''multipart/''"
    using Single.prems(1)
    by (cases "ParseMediaType (header_Get (header_of fs) ''Content-Type'')")
      (auto simp: part_fields_ok_def media_type_def)
  then show ?case using Single.prems(2) by (subst parseContent.simps) simp
next
  case (Multi fs b ms)
  let ?ps = "map (\<lambda>m. (mime_fields m, mime_text m)) ms"
  obtain t ps where t: "ParseMediaType (header_Get (header_of fs) ''Content-Type'') = (t, ps, None)"
    "has_prefix t ''multipart/''" "dict_get ps ''boundary'' = b"
    using Multi.prems(1)
    by (cases "ParseMediaType (header_Get (header_of fs) ''Content-Type'')")
      (auto simp: part_fields_ok_def media_type_def media_boundary_def)
  have b: "boundary_ok b" "b \<noteq> []" using Multi.prems(1) by (simp_all add: boundary_ok_def)
  have "list_all (part_ok b) ?ps"
    using Multi.prems(1) mime_ok_fields by (fastforce simp: list_all_iff part_ok_def part_fields_ok_def)
  then have "multipart_parts b (multipart_text b ?ps, EOF)
      = (map (\<lambda>(fs, t). decode_part (header_of fs) (t, EOF)) ?ps, None)"
    by (rule multipart_parts_text [OF b(1)])
  moreover have "map (\<lambda>(fs, t). decode_part (header_of fs) (t, EOF)) ?ps
      = map (\<lambda>m. (header_of (mime_fields m), mime_text m, EOF)) ms"
    using Multi.prems(1) mime_ok_fields decode_part_plain by auto
  ultimately have mp: "multipart_parts b (multipart_text b ?ps, EOF)
      = (map (\<lambda>m. (header_of (mime_fields m), mime_text m, EOF)) ms, None)" by simp
  have c: "Content (header_of (mime_fields m)) (Body (mime_content m)) (Children (mime_content m)) = mime_content m" for m
    by (cases m) simp_all
  have "parseContent (header_of (mime_fields m)) (mime_text m) EOF = Inr (mime_content m)" if "m \<in> set ms" for m
    using Multi.IH [OF that] Multi.prems(1) that c by simp
  then have "all_or_error (\<lambda>(h, s', e'). parseContent h s' e')
      (map (\<lambda>m. (header_of (mime_fields m), mime_text m, EOF)) ms) = Inr (map mime_content ms)"
    by (induction ms) auto
  then show ?case using Multi.prems(2) t b mp
    by (subst parseContent.simps) (simp add: Let_def)
qed

text \<open>The fields kept at the top do not change the media type.\<close>

lemma header_Get_Set:
  "header_Get (header_Set key val h) key' =
     (if CanonicalMIMEHeaderKey key' = CanonicalMIMEHeaderKey key then val else header_Get h key')"
  by (simp add: header_Get_def header_Set_def update_conv')

lemma header_Get_keep:
  "CanonicalMIMEHeaderKey key' \<noteq> CanonicalMIMEHeaderKey key \<Longrightarrow>
     header_Get (keep_field h key head) key' = header_Get head key'"
  by (simp add: keep_field_def header_Get_Set Let_def)

lemma body_head_type: "header_Get (body_head h) ''Content-Type'' = header_Get h ''Content-Type''"
proof -
  have "CanonicalMIMEHeaderKey ''Content-Type'' \<notin> CanonicalMIMEHeaderKey `
      {''Content-ID'', ''Content-Disposition'', ''Content-Transfer-Encoding''}"
    by code_simp
  then show ?thesis by (simp add: body_head_def header_Get_keep header_Get_Set)
qed

fun mime_leaves :: "mime \<Rightarrow> mime list" where
  "mime_leaves (Single fs body) = [Single fs body]"
| "mime_leaves (Multi fs b ms) = concat (map mime_leaves ms)"

lemma Flatten_mime: "mime_ok m \<Longrightarrow> Flatten (mime_content m) = map mime_content (mime_leaves m)"
proof (induction m)
  case (Single fs body)
  then show ?case by (simp add: Leaf_def part_fields_ok_def media_type_def)
next
  case (Multi fs b ms)
  then have "\<not> Leaf (mime_content (Multi fs b ms))"
    by (simp add: Leaf_def part_fields_ok_def media_type_def)
  moreover have "map Flatten (map mime_content ms) = map (\<lambda>m. map mime_content (mime_leaves m)) ms"
    using Multi by simp
  ultimately show ?case by (simp add: map_concat comp_def del: map_map) (simp add: comp_def)
qed


definition w_inner :: mime where
  "w_inner = Multi [(''Content-Type'', ''multipart/x; boundary='' @ [QUOTE] @ ''in'' @ [QUOTE])] ''in''
     [Single [(''Content-Type'', ''a/b'')] (''Hi'' @ crlf @ ''x''), Single [(''Content-Type'', ''c/d'')] []]"

definition w_mail :: mime where
  "w_mail = Multi [(''To'', ''a@b''), (''Content-Type'', ''multipart/x; boundary=out'')] ''out''
     [w_inner, Single [(''Content-Type'', ''e/f'')] ''y'']"

lemma w_inner_ok: "mime_ok w_inner"
  by code_simp

lemma w_inner_text: "\<not> contains (mime_text w_inner) (dashBoundary ''out'')"
  by code_simp

lemma w_mail_ok: "mime_ok w_mail \<and> fields_ok (mime_fields w_mail)"
proof -
  have "part_fields_ok (mime_fields w_mail)" "fields_ok (mime_fields w_mail)"
    "has_prefix (media_type (mime_fields w_mail)) ''multipart/''"
    "media_boundary (mime_fields w_mail) = ''out''" "boundary_ok ''out''"
    "mime_ok (Single [(''Content-Type'', ''e/f'')] ''y'')" "\<not> contains ''y'' (dashBoundary ''out'')"
    by code_simp+
  then show ?thesis using w_inner_ok w_inner_text by (simp add: w_mail_def)
qed


section \<open>Decoding\<close>

text \<open>
  C27: Decode undoes the transfer encoding: for a content whose media type parses and names no
  character set or UTF-8, base64 text gives the bytes that were encoded, quoted-printable text (in
  lines the reader's buffer holds) the bytes of its pieces, 7bit, 8bit, binary or no encoding the
  body as it is, each without an error, and any other encoding is an error without data.
\<close>

theorem Decode_encoded:
  assumes "ParseMediaType (header_Get (Headers c) ''Content-Type'') = (t, ps, None)"
    and "to_lower (dict_get ps ''charset'') \<in> {[], ''utf-8''}"
  shows "(Encoding c = ''base64'' \<and> Body c = b64_encode d \<longrightarrow> Decode xtext c = (d, None)) \<and>
    (Encoding c = ''quoted-printable'' \<and> Body c = qp_encode pieces \<and> pieces \<noteq> [] \<and> list_all short_piece pieces
       \<longrightarrow> Decode xtext c = (concat pieces, None)) \<and>
    (Encoding c \<in> {''7bit'', ''8bit'', ''binary''} \<longrightarrow> Decode xtext c = (Body c, None)) \<and>
    (Encoding c \<notin> {''7bit'', ''8bit'', ''binary'', ''base64'', ''quoted-printable''} \<longrightarrow>
       Decode xtext c = ([], Some (OtherErr (''unknown encoding: '' @ Encoding c))))"
  using assms qp_read_encode [of pieces]
  by (auto simp: Decode_def toUTF8_def read_all_def Let_def)

definition w_content :: Content where
  "w_content = Content (header_of [(''Content-Type'', ''text/plain''), (''Content-Transfer-Encoding'', ''base64'')])
     (b64_encode ''Hello'') []"

lemma Decode_encoded_witness: "Decode (\<lambda>e r. r) w_content = (''Hello'', None)"
proof -
  have "ParseMediaType (header_Get (Headers w_content) ''Content-Type'') = (''text/plain'', [], None)"
    "Encoding w_content = ''base64''" by code_simp+
  then show ?thesis
    using Decode_encoded [of w_content "''text/plain''" "[]" "''Hello''" "\<lambda>e r. r" "[[]]"]
    by (simp add: dict_get_def w_content_def)
qed

end
