(* ===== verification/Mail_Words.thy ===== *)
theory Mail_Words imports Mail_Facts begin

text \<open>
  Encoded words in the header of a mail: they are decoded to what was encoded, and in a field of
  addresses put in quotes that a reader of quoted strings takes off again.
\<close>

definition encoded_word :: "string \<Rightarrow> string" where
  "encoded_word s = ''=?utf-8?B?'' @ b64_encode s @ ''?=''"

lemma b64_no_mark: "CHR ''?'' \<notin> set (b64_encode s)" "SP \<notin> set (b64_encode s)"
proof -
  have "\<not> b64_byte CHR ''?''" "\<not> b64_byte SP"
    by (simp_all add: b64_byte_def is_upper_def is_lower_def is_digit_def)
  then show "CHR ''?'' \<notin> set (b64_encode s)" "SP \<notin> set (b64_encode s)" using b64_encode_bytes by blast+
qed

lemma next_word_encoded:
  "next_word (encoded_word s) =
     Some ([], ''utf-8?B?'' @ b64_encode s @ ''?='', ''utf-8'', CHR ''B'', b64_encode s, [])"
  using cut_at_skip [of "CHR ''?''" "b64_encode s" "''=''" "''?=''"] b64_no_mark(1)
  by (simp add: next_word_def encoded_word_def)

lemma DecodeHeader_encoded: "DecodeHeader cs (encoded_word s) = Inr s"
proof -
  have u: "equal_fold ''utf-8'' ''utf-8''" by (simp add: equal_fold_def)
  have "decode_words cs b [] = Inr []" for b by (simp add: decode_words.simps next_word_def)
  then have "decode_words cs False (encoded_word s) = Inr s"
    by (subst decode_words.simps) (simp add: next_word_encoded word_content_def word_convert_def u)
  moreover have "cut_at ''=?'' (encoded_word s) = Some ([], ''utf-8?B?'' @ b64_encode s @ ''?='')"
    by (simp add: encoded_word_def)
  ultimately show ?thesis by (simp add: DecodeHeader_def encoded_word_def)
qed

lemma length_b64_encode: "length s \<le> length (b64_encode s)"
  by (induction s rule: b64_encode.induct) simp_all

lemma encoded_word_longer: "encoded_word s \<noteq> s"
proof
  assume "encoded_word s = s"
  then have "length (encoded_word s) = length s" by simp
  then show False using length_b64_encode [of s] by (simp add: encoded_word_def)
qed

definition escape_quotes :: "string \<Rightarrow> string" where
  "escape_quotes s = concat (map (\<lambda>c. if c = QUOTE then [BACKSLASH, QUOTE] else [c]) s)"

lemma quoted_value_escaped:
  "\<forall>c \<in> set s. c \<notin> {BACKSLASH, CR, LF} \<Longrightarrow> quoted_value (escape_quotes s @ QUOTE # rest) = Some (s, rest)"
  by (induction s) (auto simp: escape_quotes_def isTSpecial_def)



text \<open>A backslash is not escaped: behind it, the quote of the text ends the quoted string.\<close>

lemma backslash_ends_quotes:
  "\<exists>q. decodeWords (\<lambda>c r. r) default_config (encoded_word [CHR ''a'', BACKSLASH, QUOTE, CHR ''b'']) True None =
      (Inr (QUOTE # q), None) \<and> quoted_value q = Some ([CHR ''a'', BACKSLASH], [CHR ''b'', QUOTE])"
proof (intro exI conjI)
  let ?q = "[CHR ''a'', BACKSLASH, BACKSLASH, QUOTE, CHR ''b'', QUOTE]"
  show "decodeWords (\<lambda>c r. r) default_config (encoded_word [CHR ''a'', BACKSLASH, QUOTE, CHR ''b'']) True None =
      (Inr (QUOTE # ?q), None)" by code_simp
  show "quoted_value ?q = Some ([CHR ''a'', BACKSLASH], [CHR ''b'', QUOTE])" by code_simp
qed

end
