(* ===== verification/Dkim_Tags.thy ===== *)
theory Dkim_Tags imports Dkim_Header begin

text \<open>
  The tag lists of header.go, written and read: formatHeaderParams breaks its lines and folds the
  signature value only where parseHeaderParams skips white space, so the tags that are read are
  the tags that were written; and what it writes is one field when the header is read again.
\<close>

section \<open>Tag lists that parse back\<close>

text \<open>Names and values a tag list can carry, and values of a signature (base64).\<close>

definition tag_name :: "string \<Rightarrow> bool" where
  "tag_name k \<longleftrightarrow> k \<noteq> [] \<and> (\<forall>c \<in> set k. plain c \<and> c \<noteq> CHR '';'' \<and> c \<noteq> CHR ''='')"

definition tag_value :: "string \<Rightarrow> bool" where
  "tag_value v \<longleftrightarrow> (v = [] \<or> plain (hd v) \<and> plain (last v)) \<and> CHR '';'' \<notin> set v"

lemma ascii_space_tag: "ascii_space c \<Longrightarrow> c \<noteq> CHR '';'' \<and> c \<noteq> CHR ''=''"
  by (auto simp: ascii_space_def)

text \<open>One tag with the white space before it.\<close>

definition tag_text :: "string \<times> string \<times> string \<Rightarrow> string" where
  "tag_text t = (case t of (a, k, w) \<Rightarrow> a @ k @ CHR ''='' # w)"

definition tag_ok :: "string \<times> string \<times> string \<Rightarrow> bool" where
  "tag_ok t = (case t of (a, k, w) \<Rightarrow> blank a \<and> tag_name k \<and> CHR '';'' \<notin> set w)"

lemma tag_ok_no_semicolon: "tag_ok t \<Longrightarrow> CHR '';'' \<notin> set (tag_text t)"
  by (cases t) (auto simp: tag_ok_def tag_text_def tag_name_def blank_def dest: ascii_space_tag)

lemma parse_tag:
  assumes "tag_ok (a, k, w)"
  shows "go_cut (tag_text (a, k, w)) ''='' = (a @ k, w, True)" "trim_space (a @ k) = k"
proof -
  have "CHR ''='' \<notin> set (a @ k)"
    using assms by (auto simp: tag_ok_def tag_name_def blank_def dest: ascii_space_tag)
  from go_cut_char [OF this, of w] show "go_cut (tag_text (a, k, w)) ''='' = (a @ k, w, True)"
    by (simp add: tag_text_def)
  have "plain (hd k) \<and> plain (last k)" using assms by (auto simp: tag_ok_def tag_name_def)
  then show "trim_space (a @ k) = k"
    using assms trim_space_core [of k a "[]"] by (simp add: tag_ok_def)
qed

definition tag_entry :: "string \<times> string \<times> string \<Rightarrow> string \<times> string" where
  "tag_entry t = (fst (snd t), trim_space (snd (snd t)))"

definition put_tag :: "string \<times> string \<times> string \<Rightarrow> dict \<Rightarrow> dict" where
  "put_tag t = dict_put (fst (tag_entry t)) (snd (tag_entry t))"

lemma parse_tags:
  "(\<forall>t \<in> set ts. tag_ok t) \<Longrightarrow> distinct (map (fst \<circ> snd) ts) \<Longrightarrow>
     (\<forall>t \<in> set ts. map_of params (fst (snd t)) = None) \<Longrightarrow>
     parseHeaderParams_loop params (map tag_text ts) = Inr (fold put_tag ts params)"
proof (induction ts arbitrary: params)
  case (Cons t ts)
  obtain a k w where t: "t = (a, k, w)" by (metis prod_cases3)
  with Cons.prems have ok: "tag_ok (a, k, w)" and new: "map_of params k = None" by auto
  have "parseHeaderParams_loop params (map tag_text (t # ts))
      = parseHeaderParams_loop (put_tag t params) (map tag_text ts)"
    using new by (simp add: t parse_tag [OF ok] put_tag_def tag_entry_def)
  also have "\<dots> = Inr (fold put_tag ts (put_tag t params))"
    by (rule Cons.IH) (use Cons.prems t in \<open>auto simp: put_tag_def tag_entry_def\<close>)
  finally show ?case by simp
qed simp

lemma map_of_put_tags:
  "distinct (map (fst \<circ> snd) ts) \<Longrightarrow>
     map_of (fold put_tag ts params) = map_of params ++ map_of (map tag_entry ts)"
proof (induction ts arbitrary: params)
  case (Cons t ts)
  then have "map_of (map tag_entry ts) (fst (tag_entry t)) = None"
    by (simp add: map_of_eq_None_iff image_image tag_entry_def)
  with Cons show ?case
    by (auto simp: put_tag_def map_add_def fun_eq_iff split: option.splits)
qed simp

lemma dict_ok_put_tags: "dict_ok params \<Longrightarrow> dict_ok (fold put_tag ts params)"
  by (induction ts arbitrary: params) (auto simp: put_tag_def)

text \<open>The pieces of the folded signature value.\<close>

lemma concat_pieces75: "concat (pieces75 s) = s"
  by (induction s rule: pieces75.induct) (simp add: pieces75.simps)

lemma pieces75_Nil [simp]: "pieces75 [] = []"
  by (simp add: pieces75.simps)

lemma pieces75_nonempty: "p \<in> set (pieces75 s) \<Longrightarrow> p \<noteq> []"
proof (induction s rule: pieces75.induct)
  case (1 s)
  then show ?case by (cases "s = []") (auto simp: pieces75.simps [of s])
qed

lemma last_last_concat: "ps \<noteq> [] \<Longrightarrow> last ps \<noteq> [] \<Longrightarrow> last (last ps) \<in> set (concat ps)"
  using last_in_set [of ps] last_in_set [of "last ps"] by (auto intro!: bexI [of _ "last ps"])

lemma join_Cons_append: "join sep ((x @ y) # ps) = x @ join sep (y # ps)"
  by (cases ps) simp_all

definition folded_value :: "string \<Rightarrow> string" where
  "folded_value v = join (crlf @ [SP]) (take 72 v # pieces75 (drop 72 v))"

lemma foldHeaderField_b: "foldHeaderField ('' b='' @ v) = SP # ''b='' @ folded_value v @ crlf"
proof -
  have "pieces75 ('' b='' @ v) = ('' b='' @ take 72 v) # pieces75 (drop 72 v)"
    by (subst pieces75.simps) (simp add: numeral_eq_Suc)
  then show ?thesis
    by (simp add: foldHeaderField_def folded_value_def join_Cons_append [of _ "'' b=''", simplified])
qed

lemma folded_value_plain:
  assumes "\<forall>c \<in> set v. plain c"
  shows "filter (\<lambda>c. \<not> ascii_space c) (folded_value v) = v"
    and "set (folded_value v) \<subseteq> {CR, LF, SP} \<union> set v"
    and "folded_value v = [] \<or> plain (hd (folded_value v)) \<and> plain (last (folded_value v))"
proof -
  have c: "concat (take 72 v # pieces75 (drop 72 v)) = v" by (simp add: concat_pieces75)
  have "filter (\<lambda>c. \<not> ascii_space c) (folded_value v)
      = filter (\<lambda>c. \<not> ascii_space c) (concat (take 72 v # pieces75 (drop 72 v)))"
    unfolding folded_value_def by (rule filter_join) simp
  with c assms show "filter (\<lambda>c. \<not> ascii_space c) (folded_value v) = v"
    by (simp add: plain_def filter_all)
  show "set (folded_value v) \<subseteq> {CR, LF, SP} \<union> set v"
    using set_join [of "crlf @ [SP]" "take 72 v # pieces75 (drop 72 v)"]
    unfolding c folded_value_def by auto
  show "folded_value v = [] \<or> plain (hd (folded_value v)) \<and> plain (last (folded_value v))"
  proof (cases "v = []")
    case True
    then show ?thesis by (simp add: folded_value_def pieces75.simps)
  next
    case False
    let ?ps = "take 72 v # pieces75 (drop 72 v)"
    have ne: "p \<noteq> []" if "p \<in> set ?ps" for p
      using that False pieces75_nonempty by (auto simp: take_eq_Nil)
    have "last ?ps \<noteq> []" using ne [of "last ?ps"] last_in_set [of ?ps] by blast
    then have "last (folded_value v) = last (last ?ps)"
      using last_join [of ?ps "crlf @ [SP]"] unfolding folded_value_def by (simp del: last.simps)
    moreover have "last (last ?ps) \<in> set (concat ?ps)"
      using \<open>last ?ps \<noteq> []\<close> by (intro last_last_concat) simp_all
    moreover have "hd (folded_value v) = hd v"
      using False by (cases v; cases "pieces75 (drop 72 v)") (simp_all add: folded_value_def numeral_eq_Suc)
    ultimately show ?thesis using assms False c by (metis hd_in_set)
  qed
qed

lemma stripWhitespace_ascii:
  "is_ascii s \<Longrightarrow> stripWhitespace s = filter (\<lambda>c. \<not> ascii_space c) s"
proof (induction s)
  case (Cons c s)
  then show ?case
    by (cases "ascii_space c") (simp_all add: stripWhitespace.simps [of "c # s"] ascii_plain)
qed (simp add: stripWhitespace.simps)

lemma stripWhitespace_folded:
  assumes "\<forall>c \<in> set v. plain c"
  shows "stripWhitespace (folded_value v) = v"
proof -
  have "is_ascii (folded_value v)"
    using folded_value_plain(2) [OF assms] assms by (auto simp: is_ascii_def plain_def)
  then show ?thesis using folded_value_plain(1) [OF assms] by (simp add: stripWhitespace_ascii)
qed

lemma formatHeaderParams_loop_text:
  "formatHeaderParams_loop params ks s line = (s', line') \<Longrightarrow>
     \<exists>ts. s' @ line' = s @ line @ concat (map (\<lambda>t. tag_text t @ '';'') ts) \<and>
       map snd ts = map (\<lambda>k. (k, dict_get params k)) ks \<and>
       (\<forall>t \<in> set ts. fst t \<in> {[SP], crlf @ [SP]})"
proof (induction ks arbitrary: s line)
  case (Cons k ks)
  let ?v = "dict_get params k"
  let ?wrap = "75 < 3 + length line + length ?v + length k"
  let ?s = "if ?wrap then s @ line @ crlf else s" and ?l = "if ?wrap then [] else line"
  have "formatHeaderParams_loop params ks ?s (?l @ '' '' @ k @ ''='' @ ?v @ '';'') = (s', line')"
    using Cons.prems by (simp add: Let_def split: if_splits)
  from Cons.IH [OF this] obtain ts where
    ts: "s' @ line' = ?s @ (?l @ '' '' @ k @ ''='' @ ?v @ '';'') @ concat (map (\<lambda>t. tag_text t @ '';'') ts)"
      "map snd ts = map (\<lambda>k. (k, dict_get params k)) ks" "\<forall>t \<in> set ts. fst t \<in> {[SP], crlf @ [SP]}"
    by blast
  let ?t = "(if ?wrap then crlf @ [SP] else [SP], k, ?v)"
  have "s' @ line' = s @ line @ concat (map (\<lambda>t. tag_text t @ '';'') (?t # ts))"
    using ts(1) by (simp add: tag_text_def)
  moreover have "map snd (?t # ts) = map (\<lambda>k. (k, dict_get params k)) (k # ks)"
    "\<forall>t \<in> set (?t # ts). fst t \<in> {[SP], crlf @ [SP]}" using ts(2,3) by simp_all
  ultimately show ?case by blast
qed (auto intro!: exI [of _ "[]"])

lemma concat_join: "concat (map (\<lambda>t. f t @ '';'') ts) @ x = join '';'' (map f ts @ [x])"
proof (induction ts)
  case (Cons t ts)
  then show ?case by (cases "map f ts @ [x]") auto
qed simp

lemma formatHeaderParams_text:
  assumes "map_of ps ''b'' = Some v"
  obtains ts where
    "formatHeaderParams name ps = name @ CHR '':'' #
       join '';'' (map tag_text (ts @ [(crlf @ [SP], ''b'', folded_value v)])) @ crlf"
    "map snd ts = map (\<lambda>k. (k, dict_get ps k)) (fst (sortParams ps))"
    "\<forall>t \<in> set ts. fst t \<in> {[SP], crlf @ [SP]}"
proof -
  obtain s' line where f: "formatHeaderParams_loop ps (fst (sortParams ps)) (name @ '':'') [] = (s', line)"
    by (metis prod.exhaust)
  from formatHeaderParams_loop_text [OF f] obtain ts where
    ts: "s' @ line = (name @ '':'') @ concat (map (\<lambda>t. tag_text t @ '';'') ts)"
      "map snd ts = map (\<lambda>k. (k, dict_get ps k)) (fst (sortParams ps))"
      "\<forall>t \<in> set ts. fst t \<in> {[SP], crlf @ [SP]}"
    by auto
  have "formatHeaderParams name ps = (s' @ line) @ crlf @ foldHeaderField ('' b='' @ v)"
    using f assms by (auto simp: formatHeaderParams_def sortParams_def Let_def)
  also have "\<dots> = name @ CHR '':'' # (concat (map (\<lambda>t. tag_text t @ '';'') ts) @
      tag_text (crlf @ [SP], ''b'', folded_value v)) @ crlf"
    unfolding foldHeaderField_b ts(1) by (simp add: tag_text_def)
  finally show ?thesis using that ts(2,3) by (simp add: concat_join)
qed

text \<open>A formatted field is one field when a header is read: its folds are continuation lines.\<close>

definition in_lines :: "string \<Rightarrow> bool" where
  "in_lines x \<longleftrightarrow> (\<exists>ls. field_ok ls \<and> list_all no_break ls \<and> x = join crlf ls)"

lemma join_snoc: "xs \<noteq> [] \<Longrightarrow> join sep (xs @ [y]) = join sep xs @ sep @ y"
  by (induction sep xs rule: join.induct) simp_all

lemma field_text_join: "ls \<noteq> [] \<Longrightarrow> field_text ls = join crlf ls @ crlf"
  unfolding field_text_def by (induction crlf ls rule: join.induct) simp_all

lemma no_break_parts:
  "no_break []" "no_break (c # l) \<longleftrightarrow> c \<noteq> CR \<and> c \<noteq> LF \<and> no_break l"
  "no_break (k @ l) \<longleftrightarrow> no_break k \<and> no_break l"
  by (auto simp: no_break_def)

lemma in_lines_field: "in_lines x \<Longrightarrow> \<exists>ls. field_ok ls \<and> list_all no_break ls \<and> x @ crlf = field_text ls"
  by (auto simp: in_lines_def field_ok_def field_text_join)

lemma in_lines_start: "x \<noteq> [] \<Longrightarrow> hd x \<notin> {SP, TAB} \<Longrightarrow> no_break x \<Longrightarrow> in_lines x"
  unfolding in_lines_def by (rule exI [of _ "[x]"]) (simp add: field_ok_def no_break_def)

lemma in_lines_append:
  assumes "in_lines x" "no_break y"
  shows "in_lines (x @ y)"
proof -
  obtain ls where ls: "field_ok ls" "list_all no_break ls" "x = join crlf ls" using assms(1) by (auto simp: in_lines_def)
  then have "ls \<noteq> []" by (simp add: field_ok_def)
  then obtain ms l where ms: "ls = ms @ [l]" by (metis append_butlast_last_id)
  have "field_ok (ms @ [l @ y])" "list_all no_break (ms @ [l @ y])"
    using ls(1,2) assms(2) by (cases ms; auto simp: field_ok_def no_break_def ms)+
  moreover have "join crlf (ms @ [l @ y]) = x @ y"
    by (cases "ms = []") (simp_all add: ls(3) ms join_snoc)
  ultimately show ?thesis unfolding in_lines_def by metis
qed

lemma in_lines_fold:
  assumes "in_lines x" "no_break y"
  shows "in_lines (x @ crlf @ SP # y)"
proof -
  obtain ls where ls: "field_ok ls" "list_all no_break ls" "x = join crlf ls" using assms(1) by (auto simp: in_lines_def)
  then have "ls \<noteq> []" by (simp add: field_ok_def)
  moreover from this have "field_ok (ls @ [SP # y])" "list_all no_break (ls @ [SP # y])"
    using ls(1,2) assms(2) by (auto simp: field_ok_def no_break_def)
  ultimately show ?thesis unfolding in_lines_def ls(3)
    by (intro exI [of _ "ls @ [SP # y]"]) (simp add: join_snoc)
qed

lemma in_lines_join:
  "in_lines x \<Longrightarrow> (\<forall>p \<in> set ps. no_break p) \<Longrightarrow> in_lines (x @ join (crlf @ [SP]) ps)"
proof (induction "crlf @ [SP]" ps arbitrary: x rule: join.induct)
  case (3 p q ps)
  then have "in_lines (x @ p)" by (simp add: in_lines_append)
  then have "in_lines ((x @ p) @ crlf @ SP # [])" by (intro in_lines_fold) (simp_all add: no_break_parts)
  from "3.hyps" [OF this] "3.prems" show ?case by simp
qed (simp_all add: in_lines_append)

lemma in_lines_tags:
  "in_lines x \<Longrightarrow> (\<forall>t \<in> set ts. fst t \<in> {[SP], crlf @ [SP]} \<and> no_break (fst (snd t)) \<and> no_break (snd (snd t))) \<Longrightarrow>
     in_lines (x @ concat (map (\<lambda>t. tag_text t @ '';'') ts))"
proof (induction ts arbitrary: x)
  case (Cons t ts)
  obtain a k w where t: "t = (a, k, w)" by (metis prod_cases3)
  have lf: "no_break k" "no_break w" "a = [SP] \<or> a = crlf @ [SP]" using Cons.prems(2) by (auto simp: t)
  have "in_lines (x @ a @ k @ CHR ''='' # w @ '';'')"
  proof (cases "a = [SP]")
    case True
    then show ?thesis using in_lines_append [OF Cons.prems(1), of "SP # k @ CHR ''='' # w @ '';''"] lf by (simp add: no_break_parts)
  next
    case False
    then show ?thesis using in_lines_fold [OF Cons.prems(1), of "k @ CHR ''='' # w @ '';''"] lf by (simp add: no_break_parts)
  qed
  from Cons.IH [OF this] Cons.prems(2) show ?case by (simp add: t tag_text_def)
qed simp

lemma formatHeaderParams_field:
  assumes "dict_ok ps" "map_of ps ''b'' = Some v" "\<forall>(k, w) \<in> set ps. no_break k \<and> no_break w"
    and "name \<noteq> []" "hd name \<notin> {SP, TAB}" "no_break name"
  shows "\<exists>ls. field_ok ls \<and> list_all no_break ls \<and> formatHeaderParams name ps = field_text ls"
proof -
  let ?keys = "fst (sortParams ps)" and ?b = "(crlf @ [SP], ''b'', folded_value v)"
  obtain ts where ts: "formatHeaderParams name ps
      = name @ CHR '':'' # join '';'' (map tag_text (ts @ [?b])) @ crlf"
    "map snd ts = map (\<lambda>k. (k, dict_get ps k)) ?keys" "\<forall>t \<in> set ts. fst t \<in> {[SP], crlf @ [SP]}"
    by (rule formatHeaderParams_text [OF assms(2)])
  have "no_break (fst (snd t)) \<and> no_break (snd (snd t))" if "t \<in> set ts" for t
  proof -
    from that have "snd t \<in> set (map snd ts)" by simp
    then obtain k where k: "snd t = (k, dict_get ps k)" "k \<in> set ?keys" unfolding ts(2) by auto
    then obtain w where "map_of ps k = Some w" by (auto simp: sortParams_def set_dict_keys)
    with k show ?thesis using assms(3) by (auto simp: dict_get_def dest!: map_of_SomeD)
  qed
  with ts(3) have "in_lines ((name @ '':'') @ concat (map (\<lambda>t. tag_text t @ '';'') ts))"
    using assms(4-6) by (intro in_lines_tags in_lines_start) (auto simp: no_break_parts)
  then have "in_lines ((name @ '':'' @ concat (map (\<lambda>t. tag_text t @ '';'') ts)) @ crlf @ SP # ''b='')"
    by (intro in_lines_fold) (simp_all add: no_break_parts)
  moreover have "\<forall>p \<in> set (take 72 v # pieces75 (drop 72 v)). no_break p"
  proof -
    have "no_break v" using assms(2,3) by (auto dest!: map_of_SomeD)
    moreover have "set p \<subseteq> set v" if "p \<in> set (take 72 v # pieces75 (drop 72 v))" for p
    proof -
      have "concat (take 72 v # pieces75 (drop 72 v)) = v" by (simp add: concat_pieces75)
      then have "set v = (\<Union>p \<in> set (take 72 v # pieces75 (drop 72 v)). set p)" by (metis set_concat)
      with that show ?thesis by blast
    qed
    ultimately show ?thesis unfolding no_break_def by blast
  qed
  ultimately have "in_lines ((name @ '':'' @ concat (map (\<lambda>t. tag_text t @ '';'') ts) @ crlf @ SP # ''b='') @ folded_value v)"
    unfolding folded_value_def by (intro in_lines_join) simp_all
  from in_lines_field [OF this] show ?thesis
    by (simp add: ts(1) tag_text_def flip: concat_join)
qed

text \<open>White space around a tag list does not change how it parses.\<close>

lemma trim_tags:
  assumes "\<forall>t \<in> set (ts @ [(a, k, w)]). tag_ok t" "w = [] \<or> plain (last w)"
  obtains ts' where
    "trim_space (join '';'' (map tag_text (ts @ [(a, k, w)])) @ crlf) = join '';'' (map tag_text ts')"
    "map snd ts' = map snd (ts @ [(a, k, w)])" "\<forall>t \<in> set ts'. tag_ok t"
proof -
  obtain a0 k0 w0 r where r: "ts @ [(a, k, w)] = (a0, k0, w0) # r"
    by (cases ts) (auto intro: prod_cases3)
  let ?ts = "([], k0, w0) # r"
  have ok: "\<forall>t \<in> set ?ts. tag_ok t" using assms(1) unfolding r by (auto simp: tag_ok_def)
  have k0: "k0 \<noteq> []" "plain (hd k0)" "blank a0"
    using assms(1) unfolding r by (auto simp: tag_ok_def tag_name_def)
  have "tag_text (a0, k0, w0) = a0 @ tag_text ([], k0, w0)" by (simp add: tag_text_def)
  then have j: "join '';'' (map tag_text (ts @ [(a, k, w)])) = a0 @ join '';'' (map tag_text ?ts)"
    unfolding r by (simp add: join_Cons_append)
  have "snd (last ?ts) = (k, w)" using r by (cases ts) (auto simp: last_append)
  then obtain a' where "last ?ts = (a', k, w)" by (cases "last ?ts") auto
  then have "last (map tag_text ?ts) = a' @ k @ CHR ''='' # w"
    by (simp add: last_map tag_text_def del: last.simps list.map)
  then have "last (join '';'' (map tag_text ?ts)) = last (a' @ k @ CHR ''='' # w)"
    using last_join [of "map tag_text ?ts" "'';''"] by (simp del: last.simps list.map)
  moreover have "plain CHR ''=''" by (simp add: plain_def ascii_space_def)
  ultimately have "plain (last (join '';'' (map tag_text ?ts)))" using assms(2) by auto
  moreover have "hd (join '';'' (map tag_text ?ts)) = hd k0"
    using k0(1) by (cases r) (simp_all add: tag_text_def)
  ultimately have "trim_space (a0 @ join '';'' (map tag_text ?ts) @ crlf) = join '';'' (map tag_text ?ts)"
    using k0 by (intro trim_space_core) simp_all
  then have "trim_space (join '';'' (map tag_text (ts @ [(a, k, w)])) @ crlf)
      = join '';'' (map tag_text ?ts)" by (simp only: j append_assoc)
  moreover have "map snd ?ts = map snd (ts @ [(a, k, w)])" unfolding r by simp
  ultimately show ?thesis using that ok by blast
qed

lemma tag_entry_snd: "map tag_entry ts = map (\<lambda>(k, w). (k, trim_space w)) (map snd ts)"
  by (simp add: tag_entry_def case_prod_beta)

lemma sortParams_keys:
  "dict_ok ps \<Longrightarrow> distinct (fst (sortParams ps)) \<and>
     set (fst (sortParams ps)) = {k. k \<noteq> ''b'' \<and> map_of ps k \<noteq> None}"
  by (auto simp: sortParams_def set_dict_keys)

lemma formatHeaderParams_parses:
  assumes "dict_ok ps" "\<forall>(k, v) \<in> set ps. tag_name k \<and> tag_value v"
    and "map_of ps ''b'' = Some v" "\<forall>c \<in> set v. plain c" "CHR '':'' \<notin> set name"
  shows "\<exists>ps'. parseHeaderField (formatHeaderParams name ps) = (trim_space name, ps') \<and>
    (\<exists>ps''. parseHeaderParams ps' = Inr ps'' \<and> dict_ok ps'' \<and>
       map_option stripWhitespace (map_of ps'' ''b'') = Some v \<and>
       (\<forall>k. k \<noteq> ''b'' \<longrightarrow> map_of ps'' k = map_of ps k))"
proof -
  let ?b = "(crlf @ [SP], ''b'', folded_value v)" and ?keys = "fst (sortParams ps)"
  obtain ts where ts: "formatHeaderParams name ps
      = name @ CHR '':'' # join '';'' (map tag_text (ts @ [?b])) @ crlf"
    "map snd ts = map (\<lambda>k. (k, dict_get ps k)) ?keys" "\<forall>t \<in> set ts. fst t \<in> {[SP], crlf @ [SP]}"
    by (rule formatHeaderParams_text [OF assms(3)])
  have entry: "tag_name k \<and> tag_value (dict_get ps k)" if "k \<in> set ?keys" for k
  proof -
    from that sortParams_keys [OF assms(1)] obtain w where "map_of ps k = Some w" by auto
    then show ?thesis using assms(2) by (auto simp: dict_get_def dest: map_of_SomeD)
  qed
  have ok: "tag_ok t" if "t \<in> set ts" for t
  proof -
    obtain a k w where t: "t = (a, k, w)" by (metis prod_cases3)
    have "(k, w) \<in> set (map snd ts)" using that t by force
    then have "k \<in> set ?keys" "w = dict_get ps k" unfolding ts(2) by auto
    then show ?thesis using ts(3) that entry by (auto simp: t tag_ok_def tag_value_def)
  qed
  have "tag_ok ?b" using folded_value_plain(2) [OF assms(4)] assms(2,3)
    by (auto simp: tag_ok_def tag_name_def tag_value_def plain_def ascii_space_def dest!: map_of_SomeD)
  with ok have all: "\<forall>t \<in> set (ts @ [?b]). tag_ok t" by auto
  note folded = folded_value_plain(3) [OF assms(4)]
  then have "folded_value v = [] \<or> plain (last (folded_value v))" by blast
  then obtain ts' where ts': "trim_space (join '';'' (map tag_text (ts @ [?b])) @ crlf)
      = join '';'' (map tag_text ts')" "map snd ts' = map snd (ts @ [?b])" "\<forall>t \<in> set ts'. tag_ok t"
    by (rule trim_tags [OF all])
  have names: "map (fst \<circ> snd) ts' = ?keys @ [''b'']"
    using arg_cong [OF ts'(2), of "map fst"] arg_cong [OF ts(2), of "map fst"] by (simp add: comp_def)
  have dist: "distinct (map (fst \<circ> snd) ts')"
    unfolding names using sortParams_keys [OF assms(1)] by auto
  have "ts' \<noteq> []" using names by auto
  then have "split_on CHR '';'' (join '';'' (map tag_text ts')) = map tag_text ts'"
    using ts'(3) tag_ok_no_semicolon by (intro split_on_join) auto
  then have parse: "parseHeaderParams (join '';'' (map tag_text ts')) = Inr (fold put_tag ts' [])"
    using parse_tags [OF ts'(3) dist, of "[]"] by (simp add: parseHeaderParams_def)
  have "map tag_entry ts' = map (\<lambda>k. (k, trim_space (dict_get ps k))) ?keys @ [(''b'', trim_space (folded_value v))]"
    unfolding tag_entry_snd ts'(2) by (simp add: ts(2))
  then have "map_of (fold put_tag ts' []) k =
      (if k = ''b'' then Some (folded_value v) else map_of ps k)" for k
    using map_of_put_tags [OF dist, of "[]"] sortParams_keys [OF assms(1)] entry folded
      trim_space_id [of "folded_value v"]
    by (auto simp: map_add_def map_of_map_restrict restrict_map_def dict_get_def tag_value_def
      trim_space_id split: option.splits)
  moreover have "parseHeaderField (formatHeaderParams name ps)
      = (trim_space name, join '';'' (map tag_text ts'))"
    using go_cut_char [OF assms(5)] by (simp add: ts(1) parseHeaderField_def flip: ts'(1))
  ultimately show ?thesis using parse stripWhitespace_folded [OF assms(4)]
    by (auto simp: dict_ok_put_tags)
qed

text \<open>
  C34: A tag list that formatHeaderParams writes parses back to the same tags: parseHeaderField
  and parseHeaderParams find the name of the field and exactly the tags of the map, and the
  value of the folded b tag without its white space is the value that was written. The lines are
  broken and the signature value is folded only where the parser ignores it.
\<close>

theorem signature_tags_roundtrip:
  assumes "dict_ok ps" "\<forall>(k, v) \<in> set ps. tag_name k \<and> tag_value v"
    and "map_of ps ''b'' = Some v" "\<forall>c \<in> set v. plain c" "CHR '':'' \<notin> set name"
  shows "\<exists>ps'. parseHeaderField (formatHeaderParams name ps) = (trim_space name, ps') \<and>
    (\<exists>ps''. parseHeaderParams ps' = Inr ps'' \<and> dict_ok ps'' \<and>
       map_option stripWhitespace (map_of ps'' ''b'') = Some v \<and>
       (\<forall>k. k \<noteq> ''b'' \<longrightarrow> map_of ps'' k = map_of ps k))"
  by (rule formatHeaderParams_parses [OF assms])

definition w_tags :: dict where
  "w_tags = [(''v'', ''1''), (''b'', ''c2ln''), (''a'', ''rsa-sha256'')]"

lemma signature_tags_roundtrip_witness:
  "\<exists>ps'. parseHeaderField (formatHeaderParams headerFieldName w_tags) = (trim_space headerFieldName, ps') \<and>
    (\<exists>ps''. parseHeaderParams ps' = Inr ps'' \<and> dict_ok ps'' \<and>
       map_option stripWhitespace (map_of ps'' ''b'') = Some ''c2ln'' \<and>
       (\<forall>k. k \<noteq> ''b'' \<longrightarrow> map_of ps'' k = map_of w_tags k))"
proof -
  have "dict_ok w_tags" "\<forall>(k, v) \<in> set w_tags. tag_name k \<and> tag_value v"
    "map_of w_tags ''b'' = Some ''c2ln''" "\<forall>c \<in> set ''c2ln''. plain c"
    "CHR '':'' \<notin> set headerFieldName" by code_simp+
  from signature_tags_roundtrip [OF this] show ?thesis .
qed

end
