(* ===== verification/Go_Dns.thy ===== *)
theory Go_Dns imports Main begin

text \<open>
  The DNS as the DKIM and DMARC code sees it: a function from names to the TXT records found, or
  an error. It is a parameter wherever it is used (LookupTXT of the options, or net.LookupTXT).
\<close>

text \<open>
  The errors of a TXT lookup that the code tells apart: a net.Error that is temporary, a DNSError
  that says the name was not found, and any other, each with its text.
\<close>

datatype dns_error = DnsTemporary string | DnsNotFound string | DnsOther string

fun dns_Error :: "dns_error \<Rightarrow> string" where
  "dns_Error (DnsTemporary s) = s"
| "dns_Error (DnsNotFound s) = s"
| "dns_Error (DnsOther s) = s"

type_synonym txtLookupFunc = "string \<Rightarrow> dns_error + string list"

end
