(* ===== verification/Dkim_Query.thy ===== *)
theory Dkim_Query imports Dkim_Header Go_Base64 Go_Dns begin

text \<open>
  middleware/authres/dkim/query.go: the key record of a signer, found in the DNS. The DNS and the
  cryptography are parameters: a function from names to TXT records or an error, and the record
  crypto with SHA-256, the two parsers of RSA keys, the size of a key and the two verifications.
\<close>

section \<open>Errors (verify.go)\<close>

text \<open>permFailError, tempFailError and failError, and errors of any other type.\<close>

datatype dkim_error = permFail string | tempFail string | failError string | otherError string

fun dkim_Error :: "dkim_error \<Rightarrow> string" where
  "dkim_Error (permFail s) = ''dkim: '' @ s"
| "dkim_Error (tempFail s) = ''dkim: '' @ s"
| "dkim_Error (failError s) = ''dkim: '' @ s"
| "dkim_Error (otherError s) = s"

fun IsPermFail :: "dkim_error \<Rightarrow> bool" where
  "IsPermFail (permFail s) = True"
| "IsPermFail e = False"

fun IsTempFail :: "dkim_error \<Rightarrow> bool" where
  "IsTempFail (tempFail s) = True"
| "IsTempFail e = False"

fun isFail :: "dkim_error \<Rightarrow> bool" where
  "isFail (failError s) = True"
| "isFail e = False"

section \<open>The cryptography\<close>

datatype 'k pkix_key = RSA_PublicKey 'k | OtherPublicKey

record 'k crypto =
  sha256 :: "string \<Rightarrow> string"
  ParsePKIXPublicKey :: "string \<Rightarrow> string + 'k pkix_key"
  ParsePKCS1PublicKey :: "string \<Rightarrow> string + 'k"
  rsa_Size :: "'k \<Rightarrow> nat"
  rsa_VerifyPKCS1v15 :: "'k \<Rightarrow> string \<Rightarrow> string \<Rightarrow> string option"
  ed25519_Verify :: "string \<Rightarrow> string \<Rightarrow> string \<Rightarrow> bool"

text \<open>A verification returns None, or the text of its error.\<close>

datatype 'k verifier = rsaVerifier 'k | ed25519Verifier string

fun verifier_Verify :: "'k crypto \<Rightarrow> 'k verifier \<Rightarrow> string \<Rightarrow> string \<Rightarrow> string option" where
  "verifier_Verify cr (rsaVerifier k) hashed sig = rsa_VerifyPKCS1v15 cr k hashed sig"
| "verifier_Verify cr (ed25519Verifier k) hashed sig =
     (if ed25519_Verify cr k hashed sig then None else Some ''dkim: invalid Ed25519 signature'')"

section \<open>Key records\<close>

text \<open>A list that is nil in Go is None.\<close>

record 'k queryResult =
  qr_Verifier :: "'k verifier"
  qr_KeyAlgo :: string
  qr_HashAlgos :: "string list option"
  qr_Notes :: string
  qr_Services :: "string list option"
  qr_Flags :: "string list option"

definition parseTagList :: "string \<Rightarrow> string list" where
  "parseTagList s = map stripWhitespace (split_on CHR '':'' s)"

definition ed25519_PublicKeySize :: nat where
  "ed25519_PublicKeySize = 32"

text \<open>The verifier of a key record, from its k tag and the decoded p tag.\<close>

definition parseVerifier :: "'k crypto \<Rightarrow> string \<Rightarrow> string \<Rightarrow> dkim_error + 'k verifier \<times> string" where
  "parseVerifier cr k b =
     (if k = ''rsa'' \<or> k = [] then
        (let key = (case ParsePKIXPublicKey cr b of
             Inr (RSA_PublicKey pub) \<Rightarrow> Inr pub
           | Inr OtherPublicKey \<Rightarrow> Inl ''key syntax error: not an RSA public key''
           | Inl _ \<Rightarrow> (case ParsePKCS1PublicKey cr b of
                 Inl err \<Rightarrow> Inl (''key syntax error: '' @ err)
               | Inr pub \<Rightarrow> Inr pub))
         in case key of
             Inl err \<Rightarrow> Inl (permFail err)
           | Inr pub \<Rightarrow>
               if rsa_Size cr pub * 8 < 1024
               then Inl (permFail (''key is too short: want 1024 bits, has '' @
                 show_nat (rsa_Size cr pub * 8) @ '' bits''))
               else Inr (rsaVerifier pub, ''rsa''))
      else if k = ''ed25519'' then
        (if length b \<noteq> ed25519_PublicKeySize
         then Inl (permFail (''invalid Ed25519 public key size: '' @ show_nat (length b) @ '' bytes''))
         else Inr (ed25519Verifier b, ''ed25519''))
      else Inl (permFail ''unsupported key algorithm''))"

text \<open>The service types, unless one of them is the wildcard.\<close>

definition parseServices :: "dict \<Rightarrow> string list option" where
  "parseServices params =
     (case map_of params ''s'' of
        None \<Rightarrow> None
      | Some servicesStr \<Rightarrow>
          (let services = parseTagList servicesStr
           in if ''*'' \<in> set services then None else Some services))"

definition remove_spaces :: "string \<Rightarrow> string" where
  "remove_spaces p = filter (\<lambda>c. c \<noteq> SP) p"

definition parsePublicKey :: "'k crypto \<Rightarrow> string \<Rightarrow> dkim_error + 'k queryResult" where
  "parsePublicKey cr s =
     (case parseHeaderParams s of
        Inl err \<Rightarrow> Inl (permFail (''key record error: '' @ err))
      | Inr params \<Rightarrow>
          if map_of params ''v'' \<notin> {None, Some ''DKIM1''}
          then Inl (permFail ''incompatible public key version'')
          else (case map_of params ''p'' of
              None \<Rightarrow> Inl (permFail ''key syntax error: missing public key data'')
            | Some p \<Rightarrow>
                if p = [] then Inl (permFail ''key revoked'')
                else (case b64_decode (remove_spaces p) of
                    Inl err \<Rightarrow> Inl (permFail (''key syntax error: '' @ err))
                  | Inr b \<Rightarrow>
                      (case parseVerifier cr (dict_get params ''k'') b of
                         Inl err \<Rightarrow> Inl err
                       | Inr (v, algo) \<Rightarrow>
                           Inr \<lparr>qr_Verifier = v, qr_KeyAlgo = algo,
                                qr_HashAlgos = map_option parseTagList (map_of params ''h''),
                                qr_Notes = dict_get params ''n'',
                                qr_Services = parseServices params,
                                qr_Flags = map_option parseTagList (map_of params ''t'')\<rparr>))))"

definition queryDNSTXT ::
  "'k crypto \<Rightarrow> txtLookupFunc \<Rightarrow> string \<Rightarrow> string \<Rightarrow> dkim_error + 'k queryResult" where
  "queryDNSTXT cr txtLookup domain selector =
     (case txtLookup (selector @ ''._domainkey.'' @ domain) of
        Inl (DnsTemporary err) \<Rightarrow> Inl (tempFail (''key unavailable: '' @ err))
      | Inl err \<Rightarrow> Inl (permFail (''no key for signature: '' @ dns_Error err))
      | Inr [] \<Rightarrow> Inl (permFail ''no valid key found'')
      | Inr [txt] \<Rightarrow> parsePublicKey cr txt
      | Inr (_ # _ # _) \<Rightarrow> Inl (permFail ''multiple TXT records found for key''))"

definition QueryMethodDNSTXT :: string where
  "QueryMethodDNSTXT = ''dns/txt''"

definition queryMethods ::
  "'k crypto \<Rightarrow> txtLookupFunc \<Rightarrow> string \<Rightarrow> (string \<Rightarrow> string \<Rightarrow> dkim_error + 'k queryResult) option" where
  "queryMethods cr txtLookup m = (if m = QueryMethodDNSTXT then Some (queryDNSTXT cr txtLookup) else None)"

section \<open>What an accepted key record guarantees\<close>

lemma parseVerifier_strong:
  "parseVerifier cr k b = Inr (v, algo) \<Longrightarrow>
     (case v of rsaVerifier pub \<Rightarrow> algo = ''rsa'' \<and> 128 \<le> rsa_Size cr pub
      | ed25519Verifier key \<Rightarrow> algo = ''ed25519'' \<and> key = b \<and> length key = 32)"
  by (auto simp: parseVerifier_def Let_def ed25519_PublicKeySize_def
    split: if_splits sum.splits pkix_key.splits)

lemma queryDNSTXT_Inr:
  "queryDNSTXT cr lk d s = Inr res \<Longrightarrow>
     \<exists>txt. lk (s @ ''._domainkey.'' @ d) = Inr [txt] \<and> parsePublicKey cr txt = Inr res"
  by (auto simp: queryDNSTXT_def split: sum.splits dns_error.splits list.splits)

lemma parsePublicKey_Inr:
  assumes "parsePublicKey cr txt = Inr res"
  obtains params p b where "parseHeaderParams txt = Inr params"
    "map_of params ''v'' \<in> {None, Some ''DKIM1''}" "map_of params ''p'' = Some p" "p \<noteq> []"
    "b64_decode (remove_spaces p) = Inr b"
    "parseVerifier cr (dict_get params ''k'') b = Inr (qr_Verifier res, qr_KeyAlgo res)"
    "qr_HashAlgos res = map_option parseTagList (map_of params ''h'')"
    "qr_Services res = parseServices params"
  using assms by (auto simp: parsePublicKey_def split: sum.splits option.splits if_splits prod.splits)

end
