(* ===== verification/Dkim_Verify.thy ===== *)
theory Dkim_Verify imports Dkim_Query begin

text \<open>
  middleware/authres/dkim/verify.go: the verification of the DKIM signatures of a message. verify
  is the chain of checks of one signature, in the order of the code, with the Verification it has
  filled in when it stops; VerifyWithOptions runs it for every DKIM-Signature field. The body
  reaches the canonicalizer in one write; Dkim_Canonical shows that the cuts do not matter. The
  time is a parameter, seconds and nanoseconds since year 1 as time.Time has them.
\<close>

section \<open>Time\<close>

record go_time =
  t_sec :: int
  t_nsec :: int

definition unixToInternal :: int where
  "unixToInternal = 62135596800"

text \<open>time.Unix of a number of seconds, which wraps at 64 bits, and time.After.\<close>

definition time_Unix :: "int \<Rightarrow> go_time" where
  "time_Unix sec = \<lparr>t_sec = signed_take_bit 63 (sec + unixToInternal), t_nsec = 0\<rparr>"

definition time_After :: "go_time \<Rightarrow> go_time \<Rightarrow> bool" where
  "time_After t u \<longleftrightarrow> t_sec u < t_sec t \<or> (t_sec t = t_sec u \<and> t_nsec u < t_nsec t)"

text \<open>Times are ordered as the instants they stand for; After is the strict order.\<close>

instantiation go_time_ext :: (linorder) linorder
begin

definition less_go_time_ext :: "'a go_time_scheme \<Rightarrow> 'a go_time_scheme \<Rightarrow> bool" where
  "less_go_time_ext t u \<longleftrightarrow> t_sec t < t_sec u \<or> t_sec t = t_sec u \<and>
     (t_nsec t < t_nsec u \<or> t_nsec t = t_nsec u \<and> go_time.more t < go_time.more u)"

definition less_eq_go_time_ext :: "'a go_time_scheme \<Rightarrow> 'a go_time_scheme \<Rightarrow> bool" where
  "less_eq_go_time_ext t u \<longleftrightarrow> t < u \<or> t = u"

instance
  by standard (auto simp: less_go_time_ext_def less_eq_go_time_ext_def intro: go_time.equality)

end

lemma time_After_less: "time_After t u \<longleftrightarrow> u < t"
  by (auto simp: time_After_def less_go_time_ext_def)

section \<open>Canonicalizers\<close>

record canonicalizer =
  CanonicalizeHeader :: "string \<Rightarrow> string"
  CanonicalizeBody :: "string \<Rightarrow> string"

text \<open>What a canonicalizer of bodies has passed on when the body was written and it is closed.\<close>

definition simple_canonical :: "string \<Rightarrow> string" where
  "simple_canonical b = (case simple_Write b simple_CanonicalizeBody of (out, c) \<Rightarrow> out @ simple_Close c)"

definition relaxed_canonical :: "string \<Rightarrow> string" where
  "relaxed_canonical b = (case relaxed_Write b relaxed_CanonicalizeBody of (out, c) \<Rightarrow> out @ relaxed_Close c)"

definition canonicalizers :: "string \<Rightarrow> canonicalizer option" where
  "canonicalizers can =
     (if can = ''simple'' then Some \<lparr>CanonicalizeHeader = simple_CanonicalizeHeader, CanonicalizeBody = simple_canonical\<rparr>
      else if can = ''relaxed'' then Some \<lparr>CanonicalizeHeader = relaxed_CanonicalizeHeader, CanonicalizeBody = relaxed_canonical\<rparr>
      else None)"

section \<open>Verifications\<close>

record Verification =
  vf_Domain :: string
  vf_Selector :: string
  vf_Signature :: string
  vf_Identifier :: string
  vf_HeaderKeys :: "string list"
  vf_Time :: "go_time option"
  vf_Expiration :: "go_time option"
  vf_Err :: "dkim_error option"

definition new_Verification :: Verification where
  "new_Verification = \<lparr>vf_Domain = [], vf_Selector = [], vf_Signature = [], vf_Identifier = [],
     vf_HeaderKeys = [], vf_Time = None, vf_Expiration = None, vf_Err = None\<rparr>"

definition requiredTags :: "string list" where
  "requiredTags = [''v'', ''a'', ''b'', ''bh'', ''d'', ''h'', ''s'']"

text \<open>A check passes on the Verification, or stops with an error.\<close>

type_synonym checked = "Verification \<times> dkim_error option"

definition and_then :: "checked \<Rightarrow> (Verification \<Rightarrow> checked) \<Rightarrow> checked" where
  "and_then r f = (case r of (v, None) \<Rightarrow> f v | (v, Some e) \<Rightarrow> (v, Some e))"

definition check :: "bool \<Rightarrow> dkim_error \<Rightarrow> Verification \<Rightarrow> checked" where
  "check ok e v = (v, if ok then None else Some e)"

definition parseTime :: "string \<Rightarrow> string + go_time" where
  "parseTime s =
     (case parse_int64 (stripWhitespace s) of
        None \<Rightarrow> Inl (strconv_error ''ParseInt'' (stripWhitespace s))
      | Some sec \<Rightarrow> Inr (time_Unix sec))"

text \<open>Domain, selector and the short signature, set before the required tags are looked for.\<close>

definition set_names :: "dict \<Rightarrow> Verification \<Rightarrow> Verification" where
  "set_names params v = v\<lparr>vf_Domain := stripWhitespace (dict_get params ''d''),
     vf_Selector := stripWhitespace (dict_get params ''s''),
     vf_Signature := take 8 (stripWhitespace (dict_get params ''b''))\<rparr>"

definition check_identity :: "dict \<Rightarrow> Verification \<Rightarrow> checked" where
  "check_identity params v =
     (case map_of params ''i'' of
        Some i \<Rightarrow>
          (let ident = stripWhitespace i
           in check (has_suffix ident (CHR ''@'' # vf_Domain v) \<or> has_suffix ident (CHR ''.'' # vf_Domain v))
                (permFail ''domain mismatch'') (v\<lparr>vf_Identifier := ident\<rparr>))
      | None \<Rightarrow> (v\<lparr>vf_Identifier := CHR ''@'' # vf_Domain v\<rparr>, None))"

definition check_from :: "dict \<Rightarrow> Verification \<Rightarrow> checked" where
  "check_from params v =
     (let headerKeys = parseTagList (dict_get params ''h'')
      in if \<exists>k \<in> set headerKeys. equal_fold k ''from'' then (v\<lparr>vf_HeaderKeys := headerKeys\<rparr>, None)
         else (v, Some (permFail ''From field not signed'')))"

definition check_created :: "dict \<Rightarrow> Verification \<Rightarrow> checked" where
  "check_created params v =
     (case map_of params ''t'' of
        None \<Rightarrow> (v, None)
      | Some timeStr \<Rightarrow>
          (case parseTime timeStr of
             Inl err \<Rightarrow> (v, Some (permFail (''malformed time: '' @ err)))
           | Inr t \<Rightarrow> (v\<lparr>vf_Time := Some t\<rparr>, None)))"

definition check_expiration :: "go_time \<Rightarrow> dict \<Rightarrow> Verification \<Rightarrow> checked" where
  "check_expiration now params v =
     (case map_of params ''x'' of
        None \<Rightarrow> (v, None)
      | Some expiresStr \<Rightarrow>
          (case parseTime expiresStr of
             Inl err \<Rightarrow> (v, Some (permFail (''malformed expiration time: '' @ err)))
           | Inr t \<Rightarrow> check (\<not> time_After now t) (permFail ''signature has expired'')
               (v\<lparr>vf_Expiration := Some t\<rparr>)))"

text \<open>All that is checked in the tags themselves.\<close>

definition check_tags :: "go_time \<Rightarrow> dict \<Rightarrow> Verification \<Rightarrow> checked" where
  "check_tags now params v0 =
     and_then (check (dict_get params ''v'' = ''1'') (permFail ''incompatible signature version'') v0) (\<lambda>v1.
     and_then (check (list_all (\<lambda>tag. map_of params tag \<noteq> None) requiredTags)
       (permFail ''signature missing required tag'') (set_names params v1)) (\<lambda>v2.
     and_then (check_identity params v2) (\<lambda>v3.
     and_then (check_from params v3) (\<lambda>v4.
     and_then (check_created params v4) (check_expiration now params)))))"

section \<open>The key and the algorithms\<close>

fun run_query ::
  "'k crypto \<Rightarrow> txtLookupFunc \<Rightarrow> string \<Rightarrow> string \<Rightarrow> string list \<Rightarrow> dkim_error + 'k queryResult" where
  "run_query cr lk domain selector [] = Inl (permFail ''unsupported public key query method'')"
| "run_query cr lk domain selector (m # ms) =
     (case queryMethods cr lk m of
        Some query \<Rightarrow> query domain selector
      | None \<Rightarrow> run_query cr lk domain selector ms)"

definition query_key :: "'k crypto \<Rightarrow> txtLookupFunc \<Rightarrow> dict \<Rightarrow> string \<Rightarrow> dkim_error + 'k queryResult" where
  "query_key cr lk params domain =
     run_query cr lk domain (stripWhitespace (dict_get params ''s''))
       (case map_of params ''q'' of None \<Rightarrow> [QueryMethodDNSTXT] | Some methodsStr \<Rightarrow> parseTagList methodsStr)"

definition check_algorithms :: "dict \<Rightarrow> 'k queryResult \<Rightarrow> dkim_error option" where
  "check_algorithms params res =
     (case go_cut (stripWhitespace (dict_get params ''a'')) ''-'' of (keyAlgo, hashAlgo, ok) \<Rightarrow>
        if \<not> ok then Some (permFail ''malformed algorithm name'')
        else if (case qr_HashAlgos res of None \<Rightarrow> False | Some algos \<Rightarrow> hashAlgo \<notin> set algos)
        then Some (permFail ''inappropriate hash algorithm'')
        else if hashAlgo = ''sha1'' then Some (permFail (''hash algorithm too weak: '' @ hashAlgo))
        else if hashAlgo \<noteq> ''sha256'' then Some (permFail ''unsupported hash algorithm'')
        else if qr_KeyAlgo res \<noteq> keyAlgo then Some (permFail ''inappropriate key algorithm'')
        else if (case qr_Services res of None \<Rightarrow> False | Some services \<Rightarrow> ''email'' \<notin> set services)
        then Some (permFail ''inappropriate service'')
        else None)"

text \<open>strings.SplitN with a limit of two is a cut at the first slash.\<close>

definition parseCanonicalization :: "string \<Rightarrow> string \<times> string" where
  "parseCanonicalization s =
     (case go_cut (stripWhitespace s) ''/'' of (h, b, two) \<Rightarrow>
        (if h \<noteq> [] then h else ''simple'', if two then b else ''simple''))"

definition check_canonicalization :: "dict \<Rightarrow> dkim_error + canonicalizer \<times> canonicalizer" where
  "check_canonicalization params =
     (case parseCanonicalization (dict_get params ''c'') of (headerCan, bodyCan) \<Rightarrow>
        case canonicalizers headerCan of
          None \<Rightarrow> Inl (permFail ''unsupported header canonicalization algorithm'')
        | Some hc \<Rightarrow>
            (case canonicalizers bodyCan of
               None \<Rightarrow> Inl (permFail ''unsupported body canonicalization algorithm'')
             | Some bc \<Rightarrow> Inr (hc, bc)))"

section \<open>The hashes\<close>

definition decodeBase64String :: "string \<Rightarrow> string + string" where
  "decodeBase64String s = b64_decode (stripWhitespace s)"

text \<open>What the loop over the header keys writes to the hash.\<close>

fun hashed_fields :: "(string \<Rightarrow> string) \<Rightarrow> string list \<Rightarrow> headerPicker \<Rightarrow> string" where
  "hashed_fields can [] picker = []"
| "hashed_fields can (key # keys) picker =
     (case Pick key picker of (kv, picker') \<Rightarrow>
        (if kv = [] then [] else can kv) @ hashed_fields can keys picker')"

definition re_space :: "char \<Rightarrow> bool" where
  "re_space c \<longleftrightarrow> c \<in> {SP, TAB, LF, CR, CHR 0x0C}"

text \<open>The value of every tag whose name ends in b is emptied: (b\s*=)[^;]+ becomes its group.\<close>

function removeSignature :: "string \<Rightarrow> string" where
  "removeSignature [] = []"
| "removeSignature (c # s) =
     (let sp = takeWhile re_space s; r = dropWhile re_space s
      in if c = CHR ''b'' \<and> r \<noteq> [] \<and> hd r = CHR ''='' \<and> takeWhile (\<lambda>x. x \<noteq> CHR '';'') (tl r) \<noteq> []
         then c # sp @ ''='' @ removeSignature (dropWhile (\<lambda>x. x \<noteq> CHR '';'') (tl r))
         else c # removeSignature s)"
  by pat_completeness auto
termination
proof (relation "measure length", goal_cases)
  case (2 c s sp r)
  have "length (dropWhile (\<lambda>x. x \<noteq> CHR '';'') (tl r)) \<le> length (tl r)" by (rule length_dropWhile_le)
  also have "\<dots> \<le> length r" by simp
  also have "\<dots> \<le> length s" using length_dropWhile_le [of re_space s] 2 by simp
  finally show ?case by simp
qed simp_all

declare removeSignature.simps(2) [simp del]

definition trim_right_crlf :: "string \<Rightarrow> string" where
  "trim_right_crlf s = rev (dropWhile (\<lambda>c. c = CR \<or> c = LF) (rev s))"

text \<open>The text that is signed: the fields that were picked and the field of the signature.\<close>

definition signed_text :: "(string \<Rightarrow> string) \<Rightarrow> string list \<Rightarrow> header \<Rightarrow> string \<Rightarrow> string" where
  "signed_text can keys h sigField =
     hashed_fields can keys (newHeaderPicker h) @ trim_right_crlf (can sigField)"

definition check_hashes ::
  "'k crypto \<Rightarrow> header \<Rightarrow> ioerr \<Rightarrow> string \<Rightarrow> string \<Rightarrow> dict \<Rightarrow> string list \<Rightarrow>
   canonicalizer \<Rightarrow> canonicalizer \<Rightarrow> 'k queryResult \<Rightarrow> dkim_error option" where
  "check_hashes cr h e body sigField params headerKeys hc bc res =
     (case decodeBase64String (dict_get params ''bh'') of
        Inl err \<Rightarrow> Some (permFail (''malformed body hash: '' @ err))
      | Inr bodyHashed \<Rightarrow>
          (case decodeBase64String (dict_get params ''b'') of
             Inl err \<Rightarrow> Some (permFail (''malformed signature: '' @ err))
           | Inr sig \<Rightarrow>
               if e \<noteq> EOF then Some (otherError (ioerr_Error e))
               else if sha256 cr (CanonicalizeBody bc body) \<noteq> bodyHashed
               then Some (failError ''body hash did not verify'')
               else (case verifier_Verify cr (qr_Verifier res)
                   (sha256 cr (signed_text (CanonicalizeHeader hc) headerKeys h (removeSignature sigField))) sig of
                   Some err \<Rightarrow> Some (failError (''signature did not verify: '' @ err))
                 | None \<Rightarrow> None)))"

section \<open>One signature and all of them\<close>

text \<open>What is checked once the tags are in order; the Verification does not change any more.\<close>

definition check_signature ::
  "'k crypto \<Rightarrow> txtLookupFunc \<Rightarrow> header \<Rightarrow> ioerr \<Rightarrow> string \<Rightarrow> string \<Rightarrow> dict \<Rightarrow> Verification \<Rightarrow> dkim_error option" where
  "check_signature cr lk h e body sigField params v =
     (case query_key cr lk params (vf_Domain v) of
        Inl err \<Rightarrow> Some err
      | Inr res \<Rightarrow>
          (case check_algorithms params res of
             Some err \<Rightarrow> Some err
           | None \<Rightarrow>
               (case check_canonicalization params of
                  Inl err \<Rightarrow> Some err
                | Inr (hc, bc) \<Rightarrow>
                    if map_of params ''l'' \<noteq> None
                    then Some (failError ''message contains an insecure body length tag'')
                    else check_hashes cr h e body sigField params (vf_HeaderKeys v) hc bc res)))"

definition verify ::
  "'k crypto \<Rightarrow> txtLookupFunc \<Rightarrow> go_time \<Rightarrow> header \<Rightarrow> ioerr \<Rightarrow> string \<Rightarrow> string \<Rightarrow> string \<Rightarrow> checked" where
  "verify cr lk now h e body sigField sigValue =
     (case parseHeaderParams sigValue of
        Inl err \<Rightarrow> (new_Verification, Some (permFail (''malformed signature tags: '' @ err)))
      | Inr params \<Rightarrow>
          and_then (check_tags now params new_Verification)
            (\<lambda>v. (v, check_signature cr lk h e body sigField params v)))"

text \<open>The fields that hold a signature: their position and their value.\<close>

definition signatures :: "header \<Rightarrow> (nat \<times> string) list" where
  "signatures h =
     concat (map (\<lambda>(i, kv). case parseHeaderField kv of (k, v) \<Rightarrow>
       if equal_fold k headerFieldName then [(i, v)] else []) (enumerate 0 h))"

definition expected_failure :: "dkim_error \<Rightarrow> bool" where
  "expected_failure err \<longleftrightarrow> IsTempFail err \<or> IsPermFail err \<or> isFail err"

definition with_Err :: "checked \<Rightarrow> Verification" where
  "with_Err r = (fst r)\<lparr>vf_Err := snd r\<rparr>"

text \<open>
  The goroutines of parallelVerify read the same body, each through a pipe of its own that ends
  with EOF, and their results are collected in the order of the signatures.
\<close>

definition parallelVerify ::
  "'k crypto \<Rightarrow> txtLookupFunc \<Rightarrow> go_time \<Rightarrow> header \<Rightarrow> ioerr \<Rightarrow> string \<Rightarrow> (nat \<times> string) list \<Rightarrow>
   dkim_error + Verification list" where
  "parallelVerify cr lk now h e body sigs =
     (if e \<noteq> EOF then Inl (otherError (ioerr_Error e))
      else
        let verifications = map (\<lambda>(i, v). with_Err (verify cr lk now h EOF body (h ! i) v)) sigs
        in case filter (\<lambda>err. \<not> expected_failure err) (concat (map (\<lambda>v. case vf_Err v of None \<Rightarrow> [] | Some err \<Rightarrow> [err]) verifications)) of
             err # _ \<Rightarrow> Inl err
           | [] \<Rightarrow> Inr verifications)"

datatype verify_result = Verified "Verification list" | TooManySignatures "Verification list" | VerifyError string

definition VerifyWithOptions ::
  "'k crypto \<Rightarrow> txtLookupFunc \<Rightarrow> go_time \<Rightarrow> int \<Rightarrow> ioerr \<Rightarrow> string \<Rightarrow> verify_result" where
  "VerifyWithOptions cr lk now maxVerifications e msg =
     (case readHeader e msg of
        (Inl err, _) \<Rightarrow> VerifyError err
      | (Inr h, body) \<Rightarrow>
          (let sigs0 = signatures h;
               tooMany = (0 < maxVerifications \<and> maxVerifications < int (length sigs0));
               sigs = (if tooMany then take (nat maxVerifications) sigs0 else sigs0);
               verifs = (case sigs of
                   [(i, v)] \<Rightarrow>
                     (let r = verify cr lk now h e body (h ! i) v
                      in case snd r of
                           Some err \<Rightarrow> if expected_failure err then Inr [with_Err r] else Inl err
                         | None \<Rightarrow> Inr [with_Err r])
                 | _ \<Rightarrow> parallelVerify cr lk now h e body sigs)
           in case verifs of
                Inl err \<Rightarrow> VerifyError (dkim_Error err)
              | Inr vs \<Rightarrow> if tooMany then TooManySignatures vs else Verified vs))"

definition dkim_Verify :: "'k crypto \<Rightarrow> txtLookupFunc \<Rightarrow> go_time \<Rightarrow> ioerr \<Rightarrow> string \<Rightarrow> verify_result" where
  "dkim_Verify cr lk now e msg = VerifyWithOptions cr lk now 0 e msg"

end
