(* ===== verification/Dkim_Sign.thy ===== *)
theory Dkim_Sign imports Dkim_Verify begin

text \<open>
  middleware/authres/dkim/sign.go: making a DKIM signature. The Signer reads the message through
  a pipe in a goroutine that needs all of it; here it is the bytes written so far, and the
  goroutine is the function sign_params that Close runs on them. The key is a parameter: its
  public half and the function that signs a hash.
\<close>

section \<open>Options\<close>

datatype 'k public_key = PublicRSA 'k | PublicEd25519 string | PublicOther string

datatype hash = NoHash | SHA256 | SHA1 | OtherHash

text \<open>Sign takes the hash and whether the hash function is named; PublicOther holds the type's name.\<close>

record 'k crypto_Signer =
  Signer_Public :: "'k public_key"
  Signer_Sign :: "string \<Rightarrow> hash \<Rightarrow> string + string"

record 'k SignOptions =
  so_Domain :: string
  so_Selector :: string
  so_Identifier :: string
  so_Signer :: "'k crypto_Signer option"
  so_Hash :: hash
  so_HeaderCanonicalization :: string
  so_BodyCanonicalization :: string
  so_HeaderKeys :: "string list option"
  so_Expiration :: go_time
  so_QueryMethods :: "string list option"

definition time_IsZero :: "go_time \<Rightarrow> bool" where
  "time_IsZero t \<longleftrightarrow> t_sec t = 0 \<and> t_nsec t = 0"

definition formatTime :: "go_time \<Rightarrow> string" where
  "formatTime t = show_int (signed_take_bit 63 (t_sec t - unixToInternal))"

definition formatTagList :: "string list \<Rightarrow> string" where
  "formatTagList l = join '':'' l"

definition formatSignature :: "dict \<Rightarrow> string" where
  "formatSignature params = formatHeaderParams headerFieldName params"

section \<open>The signer\<close>

text \<open>What NewSigner finds out of valid options.\<close>

record 'k sign_config =
  sc_signer :: "'k crypto_Signer"
  sc_headerCan :: string
  sc_hc :: canonicalizer
  sc_bodyCan :: string
  sc_bc :: canonicalizer
  sc_keyAlgo :: string

definition default_can :: "string \<Rightarrow> string" where
  "default_can can = (if can = [] then ''simple'' else can)"

definition key_algorithm :: "'k public_key \<Rightarrow> string + string" where
  "key_algorithm p =
     (case p of
        PublicRSA _ \<Rightarrow> Inr ''rsa''
      | PublicEd25519 _ \<Rightarrow> Inr ''ed25519''
      | PublicOther t \<Rightarrow> Inl (''dkim: unsupported key algorithm '' @ t))"

definition signs_from :: "'k SignOptions \<Rightarrow> bool" where
  "signs_from opts =
     (case so_HeaderKeys opts of None \<Rightarrow> True | Some keys \<Rightarrow> \<exists>k \<in> set keys. equal_fold k ''From'')"

definition check_options :: "'k SignOptions \<Rightarrow> string + 'k sign_config" where
  "check_options opts =
         (if so_Domain opts = [] then Inl ''dkim: no domain specified''
          else if so_Selector opts = [] then Inl ''dkim: no selector specified''
          else (case so_Signer opts of
              None \<Rightarrow> Inl ''dkim: no signer specified''
            | Some signer \<Rightarrow>
                (let headerCan = default_can (so_HeaderCanonicalization opts);
                     bodyCan = default_can (so_BodyCanonicalization opts)
                 in case canonicalizers headerCan of
                      None \<Rightarrow> Inl (''dkim: unknown header canonicalization '' @ go_quote headerCan)
                    | Some hc \<Rightarrow>
                        (case canonicalizers bodyCan of
                           None \<Rightarrow> Inl (''dkim: unknown body canonicalization '' @ go_quote bodyCan)
                         | Some bc \<Rightarrow>
                             (case key_algorithm (Signer_Public signer) of
                                Inl err \<Rightarrow> Inl err
                              | Inr keyAlgo \<Rightarrow>
                                  if so_Hash opts = SHA1 then Inl ''dkim: hash algorithm too weak: sha1''
                                  else if so_Hash opts = OtherHash then Inl ''dkim: unsupported hash algorithm''
                                  else if \<not> signs_from opts then Inl ''dkim: the From header field must be signed''
                                  else Inr \<lparr>sc_signer = signer, sc_headerCan = headerCan, sc_hc = hc,
                                    sc_bodyCan = bodyCan, sc_bc = bc, sc_keyAlgo = keyAlgo\<rparr>)))))"

definition sign_keys :: "'k SignOptions \<Rightarrow> header \<Rightarrow> string list" where
  "sign_keys opts h =
     (case so_HeaderKeys opts of Some keys \<Rightarrow> keys | None \<Rightarrow> map (\<lambda>kv. fst (parseHeaderField kv)) h)"

text \<open>The tags of the signature but b, in the order they are set.\<close>

definition base_params ::
  "'k crypto \<Rightarrow> go_time \<Rightarrow> 'k SignOptions \<Rightarrow> 'k sign_config \<Rightarrow> header \<Rightarrow> string \<Rightarrow> dict" where
  "base_params cr now opts cfg h body =
     [(''v'', ''1''),
      (''a'', sc_keyAlgo cfg @ ''-sha256''),
      (''bh'', b64_encode (sha256 cr (CanonicalizeBody (sc_bc cfg) body))),
      (''c'', sc_headerCan cfg @ ''/'' @ sc_bodyCan cfg),
      (''d'', so_Domain opts),
      (''s'', so_Selector opts),
      (''t'', formatTime now),
      (''h'', formatTagList (sign_keys opts h))]
     @ (if so_Identifier opts \<noteq> [] then [(''i'', so_Identifier opts)] else [])
     @ (case so_QueryMethods opts of None \<Rightarrow> [] | Some methods \<Rightarrow> [(''q'', formatTagList methods)])
     @ (if time_IsZero (so_Expiration opts) then [] else [(''x'', formatTime (so_Expiration opts))])"

text \<open>The goroutine: the tags of the signature of what was written.\<close>

definition sign_params ::
  "'k crypto \<Rightarrow> go_time \<Rightarrow> 'k SignOptions \<Rightarrow> 'k sign_config \<Rightarrow> string \<Rightarrow> string + dict" where
  "sign_params cr now opts cfg msg =
     (case readHeader EOF msg of
        (Inl err, _) \<Rightarrow> Inl err
      | (Inr h, body) \<Rightarrow>
          (let params = base_params cr now opts cfg h body;
               sigField = formatSignature (dict_put ''b'' [] params);
               hashed = sha256 cr (signed_text (CanonicalizeHeader (sc_hc cfg)) (sign_keys opts h) h sigField)
           in case Signer_Sign (sc_signer cfg) hashed (if sc_keyAlgo cfg = ''ed25519'' then NoHash else SHA256) of
                Inl err \<Rightarrow> Inl err
              | Inr sig \<Rightarrow> Inr (dict_put ''b'' (b64_encode sig) params)))"

record 'k Signer =
  sg_opts :: "'k SignOptions"
  sg_cfg :: "'k sign_config"
  sg_written :: string
  sg_closed :: bool
  sg_sigParams :: "dict option"

definition NewSigner :: "'k SignOptions option \<Rightarrow> string + 'k Signer" where
  "NewSigner options =
     (case options of
        None \<Rightarrow> Inl ''dkim: no options specified''
      | Some opts \<Rightarrow>
          (case check_options opts of
             Inl err \<Rightarrow> Inl err
           | Inr cfg \<Rightarrow> Inr \<lparr>sg_opts = opts, sg_cfg = cfg, sg_written = [],
                              sg_closed = False, sg_sigParams = None\<rparr>))"

text \<open>
  The goroutine cannot end before it has seen the end of the message, so a Write before Close
  always succeeds, and fails afterwards with io.ErrClosedPipe. A second Close finds the channel
  closed and returns no error.
\<close>

definition Signer_Write :: "string \<Rightarrow> 'k Signer \<Rightarrow> (string + nat) \<times> 'k Signer" where
  "Signer_Write b s =
     (if sg_closed s then (Inl ''io: read/write on closed pipe'', s)
      else (Inr (length b), s\<lparr>sg_written := sg_written s @ b\<rparr>))"

definition Signer_Close :: "'k crypto \<Rightarrow> go_time \<Rightarrow> 'k Signer \<Rightarrow> string option \<times> 'k Signer" where
  "Signer_Close cr now s =
     (if sg_closed s then (None, s)
      else case sign_params cr now (sg_opts s) (sg_cfg s) (sg_written s) of
          Inl err \<Rightarrow> (Some err, s\<lparr>sg_closed := True\<rparr>)
        | Inr params \<Rightarrow> (None, s\<lparr>sg_closed := True, sg_sigParams := Some params\<rparr>))"

text \<open>None is the panic of a Signature before a successful Close.\<close>

definition Signature :: "'k Signer \<Rightarrow> string option" where
  "Signature s = map_option formatSignature (sg_sigParams s)"

text \<open>
  Sign on a message in memory that ends with the error e. The result is what is written to w; io.Copy
  to the buffer and the signer cannot fail otherwise.
\<close>

datatype sign_result = Signed string | SignError string | SignPanic

definition dkim_Sign :: "'k crypto \<Rightarrow> go_time \<Rightarrow> ioerr \<Rightarrow> string \<Rightarrow> 'k SignOptions option \<Rightarrow> sign_result" where
  "dkim_Sign cr now e msg options =
     (case NewSigner options of
        Inl err \<Rightarrow> SignError err
      | Inr s0 \<Rightarrow>
          if e \<noteq> EOF then SignError (ioerr_Error e)
          else
            (case Signer_Close cr now (snd (Signer_Write msg s0)) of
               (Some err, s) \<Rightarrow> SignError err
             | (None, s) \<Rightarrow>
                 (case Signature s of None \<Rightarrow> SignPanic | Some sig \<Rightarrow> Signed (sig @ msg))))"

end
