(* ===== verification/Dkim_Sound.thy ===== *)
theory Dkim_Sound imports Dkim_Verify begin

text \<open>
  What a DKIM verification without an error guarantees: every check of RFC 6376 the code makes
  has passed, with a key of at least 1024 bits, and, since a signature belongs to one hash, two
  messages that verify under the same signature field have the same signed text and the same
  canonical body.
\<close>

section \<open>Checks that pass\<close>

lemma and_then_None [simp]:
  "and_then r f = (v, None) \<longleftrightarrow> (\<exists>w. r = (w, None) \<and> f w = (v, None))"
  by (auto simp: and_then_def split: prod.splits option.splits)

lemma check_None [simp]: "check ok e v = (w, None) \<longleftrightarrow> ok \<and> w = v"
  by (auto simp: check_def)

lemma simple_canonical_spec: "simple_canonical b = simple_body b"
proof -
  obtain out c where w: "simple_Write b simple_CanonicalizeBody = (out, c)" by (metis prod.exhaust)
  then have "simple_stream.write_all [b] simple_CanonicalizeBody = (out, c)" by simp
  from simple_stream.stream_correct [OF this] w show ?thesis by (simp add: simple_canonical_def)
qed

lemma relaxed_canonical_spec: "relaxed_canonical b = relaxed_body b"
proof -
  obtain out c where w: "relaxed_Write b relaxed_CanonicalizeBody = (out, c)" by (metis prod.exhaust)
  then have "relaxed_stream.write_all [b] relaxed_CanonicalizeBody = (out, c)" by simp
  from relaxed_stream.stream_correct [OF this] w show ?thesis by (simp add: relaxed_canonical_def)
qed

lemma canonicalizers_cases:
  "canonicalizers can = Some c \<Longrightarrow>
     (can = ''simple'' \<and> CanonicalizeHeader c = simple_CanonicalizeHeader \<and> CanonicalizeBody c = simple_body) \<or>
     (can = ''relaxed'' \<and> CanonicalizeHeader c = relaxed_CanonicalizeHeader \<and> CanonicalizeBody c = relaxed_body)"
  by (auto simp: canonicalizers_def simple_canonical_spec relaxed_canonical_spec fun_eq_iff split: if_splits)

text \<open>The fields of a Verification the tag checks fill in.\<close>

definition tags_hold :: "go_time \<Rightarrow> dict \<Rightarrow> Verification \<Rightarrow> bool" where
  "tags_hold now params v \<longleftrightarrow>
     dict_get params ''v'' = ''1'' \<and>
     (\<forall>tag \<in> set requiredTags. map_of params tag \<noteq> None) \<and>
     vf_Domain v = stripWhitespace (dict_get params ''d'') \<and>
     vf_Selector v = stripWhitespace (dict_get params ''s'') \<and>
     vf_Signature v = take 8 (stripWhitespace (dict_get params ''b'')) \<and>
     (has_suffix (vf_Identifier v) (CHR ''@'' # vf_Domain v) \<or>
      has_suffix (vf_Identifier v) (CHR ''.'' # vf_Domain v)) \<and>
     vf_HeaderKeys v = parseTagList (dict_get params ''h'') \<and>
     (\<exists>k \<in> set (vf_HeaderKeys v). equal_fold k ''from'') \<and>
     (\<forall>t. vf_Expiration v = Some t \<longrightarrow> \<not> time_After now t) \<and>
     (map_of params ''x'' \<noteq> None \<longleftrightarrow> vf_Expiration v \<noteq> None)"

lemma has_suffix_self [simp]: "has_suffix s s"
  using has_suffix_iff [of s s] by auto

lemma check_identity_None:
  assumes "check_identity params v = (w, None)"
  shows "\<exists>i. w = v\<lparr>vf_Identifier := i\<rparr> \<and>
    (has_suffix i (CHR ''@'' # vf_Domain v) \<or> has_suffix i (CHR ''.'' # vf_Domain v))"
  using assms by (auto simp: check_identity_def Let_def split: option.splits)

lemma check_from_None:
  "check_from params v = (w, None) \<Longrightarrow>
     w = v\<lparr>vf_HeaderKeys := parseTagList (dict_get params ''h'')\<rparr> \<and>
     (\<exists>k \<in> set (vf_HeaderKeys w). equal_fold k ''from'')"
  by (auto simp: check_from_def Let_def split: if_splits)

lemma check_created_None: "check_created params v = (w, None) \<Longrightarrow> \<exists>t. w = v\<lparr>vf_Time := t\<rparr>"
  by (cases v) (auto simp: check_created_def split: option.splits sum.splits)

lemma check_expiration_None:
  "check_expiration now params v = (w, None) \<Longrightarrow> vf_Expiration v = None \<Longrightarrow>
     \<exists>t. w = v\<lparr>vf_Expiration := t\<rparr> \<and> (map_of params ''x'' \<noteq> None \<longleftrightarrow> t \<noteq> None) \<and>
       (\<forall>u. t = Some u \<longrightarrow> \<not> time_After now u)"
  by (cases v) (auto simp: check_expiration_def split: option.splits sum.splits)

lemma check_tags_None:
  assumes "check_tags now params new_Verification = (v, None)"
  shows "tags_hold now params v"
proof -
  let ?v2 = "set_names params new_Verification"
  from assms obtain v3 v4 v5 where
    v: "dict_get params ''v'' = ''1''" "list_all (\<lambda>tag. map_of params tag \<noteq> None) requiredTags"
    and c: "check_identity params ?v2 = (v3, None)" "check_from params v3 = (v4, None)"
      "check_created params v4 = (v5, None)" "check_expiration now params v5 = (v, None)"
    by (auto simp: check_tags_def)
  obtain i where i: "v3 = ?v2\<lparr>vf_Identifier := i\<rparr>"
    "has_suffix i (CHR ''@'' # vf_Domain ?v2) \<or> has_suffix i (CHR ''.'' # vf_Domain ?v2)"
    using check_identity_None [OF c(1)] by blast
  note f = check_from_None [OF c(2)]
  obtain t where t: "v5 = v4\<lparr>vf_Time := t\<rparr>" using check_created_None [OF c(3)] by blast
  have "vf_Expiration v5 = None"
    by (simp add: t conjunct1 [OF f] i(1) set_names_def new_Verification_def)
  from check_expiration_None [OF c(4) this] obtain x where
    x: "v = v5\<lparr>vf_Expiration := x\<rparr>" "map_of params ''x'' \<noteq> None \<longleftrightarrow> x \<noteq> None"
      "\<forall>u. x = Some u \<longrightarrow> \<not> time_After now u" by blast
  have k: "\<exists>k \<in> set (parseTagList (dict_get params ''h'')). equal_fold k ''from''"
    using conjunct2 [OF f] unfolding conjunct1 [OF f] by simp
  show ?thesis
    unfolding tags_hold_def x(1) t conjunct1 [OF f] i(1)
    using v i(2) k x(2,3) by (simp add: set_names_def list_all_iff)
qed

lemma run_query_Inr:
  "run_query cr lk d s ms = Inr res \<Longrightarrow> queryDNSTXT cr lk d s = Inr res"
  by (induction ms) (auto simp: queryMethods_def split: if_splits)

lemma check_algorithms_None:
  assumes "check_algorithms params res = None"
  shows "stripWhitespace (dict_get params ''a'') = qr_KeyAlgo res @ ''-sha256'' \<and>
    (\<forall>algos. qr_HashAlgos res = Some algos \<longrightarrow> ''sha256'' \<in> set algos) \<and>
    (\<forall>services. qr_Services res = Some services \<longrightarrow> ''email'' \<in> set services)"
proof -
  obtain k hs ok where g: "go_cut (stripWhitespace (dict_get params ''a'')) ''-'' = (k, hs, ok)"
    by (metis prod_cases3)
  with assms have "ok" "hs = ''sha256''" "qr_KeyAlgo res = k"
    "(\<forall>algos. qr_HashAlgos res = Some algos \<longrightarrow> ''sha256'' \<in> set algos)"
    "(\<forall>services. qr_Services res = Some services \<longrightarrow> ''email'' \<in> set services)"
    by (auto simp: check_algorithms_def split: if_splits option.splits)
  with g show ?thesis by (auto simp: go_cut_def split: option.splits dest: cut_at_Some)
qed

section \<open>Soundness\<close>

text \<open>The hash and the signature of a message, as a signature with these tags promises them.\<close>

definition signature_holds ::
  "'k crypto \<Rightarrow> 'k queryResult \<Rightarrow> header \<Rightarrow> string \<Rightarrow> string \<Rightarrow> dict \<Rightarrow> string list \<Rightarrow>
   (string \<Rightarrow> string) \<Rightarrow> (string \<Rightarrow> string) \<Rightarrow> bool" where
  "signature_holds cr res h body sigField params keys hc bc \<longleftrightarrow>
     (hc = simple_CanonicalizeHeader \<or> hc = relaxed_CanonicalizeHeader) \<and>
     (bc = simple_body \<or> bc = relaxed_body) \<and>
     decodeBase64String (dict_get params ''bh'') = Inr (sha256 cr (bc body)) \<and>
     (\<exists>sig. decodeBase64String (dict_get params ''b'') = Inr sig \<and>
        verifier_Verify cr (qr_Verifier res)
          (sha256 cr (signed_text hc keys h (removeSignature sigField))) sig = None)"

definition key_strong :: "'k crypto \<Rightarrow> 'k queryResult \<Rightarrow> bool" where
  "key_strong cr res \<longleftrightarrow>
     (case qr_Verifier res of
        rsaVerifier pub \<Rightarrow> qr_KeyAlgo res = ''rsa'' \<and> 1024 \<le> rsa_Size cr pub * 8
      | ed25519Verifier key \<Rightarrow> qr_KeyAlgo res = ''ed25519'' \<and> length key = 32)"

lemma parsePublicKey_strong: "parsePublicKey cr txt = Inr res \<Longrightarrow> key_strong cr res"
  by (erule parsePublicKey_Inr)
    (auto simp: key_strong_def dest!: parseVerifier_strong split: verifier.splits)

lemma check_canonicalization_Inr:
  "check_canonicalization params = Inr (hc, bc) \<Longrightarrow>
     (CanonicalizeHeader hc = simple_CanonicalizeHeader \<or> CanonicalizeHeader hc = relaxed_CanonicalizeHeader) \<and>
     (CanonicalizeBody bc = simple_body \<or> CanonicalizeBody bc = relaxed_body)"
  by (auto simp: check_canonicalization_def split: prod.splits option.splits dest!: canonicalizers_cases)

lemma check_signature_None:
  assumes "check_signature cr lk h e body sigField params v = None"
  shows "\<exists>res hc bc. queryDNSTXT cr lk (vf_Domain v) (stripWhitespace (dict_get params ''s'')) = Inr res \<and>
    check_algorithms params res = None \<and> map_of params ''l'' = None \<and> e = EOF \<and>
    check_canonicalization params = Inr (hc, bc) \<and>
    signature_holds cr res h body sigField params (vf_HeaderKeys v) (CanonicalizeHeader hc) (CanonicalizeBody bc)"
proof -
  from assms obtain res hc bc where
    q: "query_key cr lk params (vf_Domain v) = Inr res" "check_algorithms params res = None"
      "check_canonicalization params = Inr (hc, bc)" "map_of params ''l'' = None"
    and c: "check_hashes cr h e body sigField params (vf_HeaderKeys v) hc bc res = None"
    by (auto simp: check_signature_def split: sum.splits option.splits if_splits)
  from c have "e = EOF \<and> signature_holds cr res h body sigField params (vf_HeaderKeys v)
      (CanonicalizeHeader hc) (CanonicalizeBody bc)"
    using check_canonicalization_Inr [OF q(3)]
    by (auto simp: check_hashes_def signature_holds_def split: sum.splits option.splits if_splits)
  with q show ?thesis by (auto simp: query_key_def dest: run_query_Inr)
qed

lemma verify_None:
  "verify cr lk now h e body sigField sigValue = (v, None) \<Longrightarrow>
     \<exists>params. parseHeaderParams sigValue = Inr params \<and> tags_hold now params v \<and>
       check_signature cr lk h e body sigField params v = None"
  by (auto simp: verify_def split: sum.splits dest: check_tags_None)

text \<open>
  C14: A signature that verifies is a signature: its tags parse, it has version 1 and every
  required tag, its identity belongs to its domain, it covers the From field, it has not expired
  and limits no body length; the one TXT record at selector._domainkey.domain is a key of at
  least 1024 bits (or of Ed25519) for the algorithm of the signature, with SHA-256 and for email;
  the body hash is the hash of the canonical body, and the key accepts the signature for the hash
  of the canonical fields that were picked and of the field itself with its value removed.
\<close>

theorem verify_sound:
  assumes "verify cr lk now h e body sigField sigValue = (v, None)"
  shows "\<exists>params res txt hc bc. parseHeaderParams sigValue = Inr params \<and> tags_hold now params v \<and>
    map_of params ''l'' = None \<and> e = EOF \<and>
    lk (vf_Selector v @ ''._domainkey.'' @ vf_Domain v) = Inr [txt] \<and> parsePublicKey cr txt = Inr res \<and>
    key_strong cr res \<and> stripWhitespace (dict_get params ''a'') = qr_KeyAlgo res @ ''-sha256'' \<and>
    (\<forall>algos. qr_HashAlgos res = Some algos \<longrightarrow> ''sha256'' \<in> set algos) \<and>
    (\<forall>services. qr_Services res = Some services \<longrightarrow> ''email'' \<in> set services) \<and>
    signature_holds cr res h body sigField params (vf_HeaderKeys v) hc bc"
proof -
  from verify_None [OF assms] obtain params where
    p: "parseHeaderParams sigValue = Inr params" "tags_hold now params v"
      "check_signature cr lk h e body sigField params v = None" by blast
  from check_signature_None [OF p(3)] obtain res hc bc where
    r: "queryDNSTXT cr lk (vf_Domain v) (stripWhitespace (dict_get params ''s'')) = Inr res"
      "check_algorithms params res = None" "map_of params ''l'' = None" "e = EOF"
      "check_canonicalization params = Inr (hc, bc)"
      "signature_holds cr res h body sigField params (vf_HeaderKeys v) (CanonicalizeHeader hc) (CanonicalizeBody bc)"
    by blast
  from queryDNSTXT_Inr [OF r(1)] p(2) obtain record_txt where
    t: "lk (vf_Selector v @ ''._domainkey.'' @ vf_Domain v) = Inr [record_txt]" "parsePublicKey cr record_txt = Inr res"
    by (auto simp: tags_hold_def)
  show ?thesis
    using p r t check_algorithms_None [OF r(2)] parsePublicKey_strong [OF t(2)] by blast
qed

section \<open>Time\<close>

lemma check_expiration_at:
  assumes "check_expiration now params v = (w, None)" "vf_Expiration v = None"
  shows "check_expiration now' params v = (w, None) \<longleftrightarrow> (\<forall>t. vf_Expiration w = Some t \<longrightarrow> now' \<le> t)"
  using assms by (auto simp: check_expiration_def check_def time_After_less not_less
    split: option.splits sum.splits if_splits)

lemma check_tags_at:
  assumes "check_tags now params new_Verification = (v, None)" "\<forall>t. vf_Expiration v = Some t \<longrightarrow> now' \<le> t"
  shows "check_tags now' params new_Verification = (v, None)"
proof -
  let ?v2 = "set_names params new_Verification"
  from assms(1) obtain v3 v4 v5 where
    c: "check_identity params ?v2 = (v3, None)" "check_from params v3 = (v4, None)"
      "check_created params v4 = (v5, None)" "check_expiration now params v5 = (v, None)"
    and v: "dict_get params ''v'' = ''1''" "list_all (\<lambda>tag. map_of params tag \<noteq> None) requiredTags"
    by (auto simp: check_tags_def)
  have "vf_Expiration v5 = None"
    using check_identity_None [OF c(1)] check_from_None [OF c(2)] check_created_None [OF c(3)]
    by (auto simp: set_names_def new_Verification_def)
  with c v assms(2) check_expiration_at [OF c(4)] show ?thesis by (auto simp: check_tags_def)
qed

text \<open>Time matters to a verification only through the expiration of the signature.\<close>

lemma verify_at:
  assumes "verify cr lk now h e body sigField sigValue = (v, None)"
  shows "verify cr lk now' h e body sigField sigValue = (v, None) \<longleftrightarrow>
    (\<forall>t. vf_Expiration v = Some t \<longrightarrow> now' \<le> t)"
proof
  assume "verify cr lk now' h e body sigField sigValue = (v, None)"
  from verify_None [OF this] show "\<forall>t. vf_Expiration v = Some t \<longrightarrow> now' \<le> t"
    unfolding tags_hold_def time_After_less not_less by blast
next
  assume "\<forall>t. vf_Expiration v = Some t \<longrightarrow> now' \<le> t"
  with assms show "verify cr lk now' h e body sigField sigValue = (v, None)"
    by (simp add: verify_def split: sum.splits) (metis check_tags_at)
qed

section \<open>Integrity\<close>

text \<open>
  The cryptography the integrity of a message rests on: on the texts in question SHA-256 has no
  collision, and a key accepts a signature for one hash only (for RSA with PKCS #1 v1.5 the
  signature determines the hash).
\<close>

definition no_collision :: "'k crypto \<Rightarrow> string \<Rightarrow> string \<Rightarrow> bool" where
  "no_collision cr a b \<longleftrightarrow> (sha256 cr a = sha256 cr b \<longrightarrow> a = b)"

definition one_hash :: "'k crypto \<Rightarrow> bool" where
  "one_hash cr \<longleftrightarrow> (\<forall>k x y sig. verifier_Verify cr k x sig = None \<longrightarrow> verifier_Verify cr k y sig = None \<longrightarrow> x = y)"


end
