(* ===== verification/Dkim_Roundtrip.thy ===== *)
theory Dkim_Roundtrip imports Dkim_Tags Dkim_Sign Dkim_Sound begin

text \<open>
  Signing and verifying belong together: what Sign puts before a message verifies. The lemmas
  follow the signature through the text: the field is read back as one field, its tags parse to
  the tags that were set, removing the signature value gives the text that was hashed, and the
  new field does not disturb the fields that are picked.
\<close>

section \<open>Removing the signature value\<close>

lemma re_space_chars [simp]: "\<not> re_space CHR ''=''" "\<not> re_space CHR '';''"
  by (simp_all add: re_space_def)

text \<open>No tag named b begins in this text, whatever follows it.\<close>

fun b_free :: "string \<Rightarrow> bool" where
  "b_free [] \<longleftrightarrow> True"
| "b_free (c # s) \<longleftrightarrow>
     (c = CHR ''b'' \<longrightarrow>
        (let r = dropWhile re_space s
         in r \<noteq> [] \<and> (hd r = CHR ''='' \<longrightarrow> tl r \<noteq> [] \<and> hd (tl r) = CHR '';''))) \<and> b_free s"

lemma dropWhile_append_ne: "dropWhile P s \<noteq> [] \<Longrightarrow> dropWhile P (s @ t) = dropWhile P s @ t"
  by (induction s) auto

lemma b_free_append: "b_free s \<Longrightarrow> b_free t \<Longrightarrow> b_free (s @ t)"
  by (induction s) (auto simp: Let_def dropWhile_append_ne)

lemma b_free_concat: "(\<forall>s \<in> set ss. b_free s) \<Longrightarrow> b_free (concat ss)"
  by (induction ss) (auto simp: b_free_append)

lemma removeSignature_b_free: "b_free s \<Longrightarrow> removeSignature (s @ t) = s @ removeSignature t"
proof (induction s)
  case (Cons c s)
  then show ?case
    by (cases "c = CHR ''b''")
      (auto simp: removeSignature.simps(2) Let_def dropWhile_append_ne hd_append neq_Nil_conv)
qed simp

lemma removeSignature_b:
  assumes "w \<noteq> []" "CHR '';'' \<notin> set w"
  shows "removeSignature (''b='' @ w) = ''b=''"
proof -
  have t: "takeWhile (\<lambda>x. x \<noteq> CHR '';'') w = w" "dropWhile (\<lambda>x. x \<noteq> CHR '';'') w = []"
    using assms(2) by (auto simp: takeWhile_eq_all_conv)
  show ?thesis using assms(1) by (simp add: removeSignature.simps(2) Let_def t)
qed

text \<open>Which texts are free of it.\<close>

lemma b_free_no_b: "CHR ''b'' \<notin> set s \<Longrightarrow> b_free s"
  by (induction s) auto

lemma b_free_value: "CHR ''='' \<notin> set v \<Longrightarrow> b_free (v @ '';'')"
proof (induction v)
  case (Cons c v)
  have "dropWhile re_space (v @ '';'') \<noteq> []" by simp
  moreover have "hd (dropWhile re_space (v @ '';'')) \<in> set (v @ '';'')"
    using calculation by (metis hd_in_set set_dropWhileD)
  ultimately show ?case using Cons by (auto simp: Let_def)
qed simp

lemma b64_char_facts:
  "n < 64 \<Longrightarrow> \<not> re_space (b64_char n) \<and> b64_char n \<noteq> CHR ''='' \<and> (b64_char n = CHR ''b'' \<longleftrightarrow> n = 27)"
proof -
  have "\<forall>n \<in> set [0..<64]. \<not> re_space (b64_char n) \<and> b64_char n \<noteq> CHR ''='' \<and>
      (b64_char n = CHR ''b'' \<longleftrightarrow> n = 27)" by code_simp
  then show "n < 64 \<Longrightarrow> ?thesis" by simp
qed

lemma b64_encode_head:
  "\<exists>c t. b64_encode s @ '';'' = c # t \<and> \<not> re_space c \<and> c \<noteq> CHR ''=''"
  by (cases s rule: b64_encode.cases) (simp_all add: b64_char_facts)

lemma b_free_b64: "b_free (b64_encode s @ '';'')"
proof (induction s rule: b64_encode.induct)
  case (1 a b c s)
  obtain x t where "b64_encode s @ '';'' = x # t" "\<not> re_space x" "x \<noteq> CHR ''=''"
    using b64_encode_head by blast
  with 1 show ?case by (simp add: Let_def b64_char_facts)
next
  case (2 a b)
  have "byte b mod 16 * 4 \<noteq> 27" by presburger
  then show ?case by (simp add: Let_def b64_char_facts)
next
  case (3 a)
  have "byte a mod 4 * 16 \<noteq> 27" by presburger
  then show ?case by (simp add: Let_def b64_char_facts)
qed simp

text \<open>A tag whose name does not end in b, with a value that is free of the pattern.\<close>

lemma b_free_name:
  "(\<forall>c \<in> set k. \<not> re_space c \<and> c \<noteq> CHR ''='') \<Longrightarrow> k \<noteq> [] \<Longrightarrow> last k \<noteq> CHR ''b'' \<Longrightarrow>
     b_free t \<Longrightarrow> b_free (k @ CHR ''='' # t)"
proof (induction k)
  case (Cons c k)
  then show ?case by (cases k) (auto simp: Let_def)
qed simp

lemma re_space_plain: "plain c \<Longrightarrow> \<not> re_space c"
  by (auto simp: re_space_def plain_def ascii_space_def)

definition value_ok :: "string \<Rightarrow> bool" where
  "value_ok w \<longleftrightarrow> (\<forall>c \<in> set w. plain c \<and> c \<noteq> CHR '';'') \<and> b_free (w @ '';'')"

definition entry_ok :: "string \<times> string \<Rightarrow> bool" where
  "entry_ok t \<longleftrightarrow> tag_name (fst t) \<and> last (fst t) \<noteq> CHR ''b'' \<and> value_ok (snd t)"

lemma b_free_tag:
  assumes "entry_ok (k, w)" "a \<in> {[SP], crlf @ [SP]}"
  shows "b_free (tag_text (a, k, w) @ '';'')"
proof -
  have "b_free (k @ CHR ''='' # w @ '';'')"
    using assms(1) by (intro b_free_name) (auto simp: entry_ok_def value_ok_def tag_name_def re_space_plain)
  moreover have "b_free a" using assms(2) by (intro b_free_no_b) auto
  ultimately show ?thesis by (simp add: tag_text_def b_free_append)
qed

section \<open>The signature field with and without its value\<close>

text \<open>What is written before the b tag; it does not depend on the value.\<close>

definition sig_prefix :: "dict \<Rightarrow> string" where
  "sig_prefix base =
     (case formatHeaderParams_loop base (fst (sortParams base)) (headerFieldName @ '':'') [] of
        (s, line) \<Rightarrow> s @ line @ crlf @ [SP])"

lemma dict_put_new: "map_of d k = None \<Longrightarrow> dict_put k v d = d @ [(k, v)]"
  unfolding dict_put_def by (induction d) (auto split: if_splits)

lemma formatHeaderParams_loop_cong:
  "(\<forall>k \<in> set ks. dict_get d k = dict_get d' k) \<Longrightarrow>
     formatHeaderParams_loop d ks s l = formatHeaderParams_loop d' ks s l"
  by (induction ks arbitrary: s l) (simp_all add: Let_def split: prod.splits)

lemma formatSignature_split:
  assumes "map_of base ''b'' = None"
  shows "formatSignature (dict_put ''b'' v base) = sig_prefix base @ ''b='' @ folded_value v @ crlf"
proof -
  have keys: "fst (sortParams (dict_put ''b'' v base)) = fst (sortParams base)"
    by (simp add: sortParams_def dict_put_new [OF assms] dict_keys_def)
  have "formatHeaderParams_loop (dict_put ''b'' v base) (fst (sortParams base)) s l
      = formatHeaderParams_loop base (fst (sortParams base)) s l" for s l
    by (intro formatHeaderParams_loop_cong) (auto simp: sortParams_def)
  moreover have "snd (sortParams (dict_put ''b'' v base)) = (v, True)" by (simp add: sortParams_def)
  ultimately show ?thesis using keys
    by (cases "sortParams (dict_put ''b'' v base)")
      (auto simp: formatSignature_def formatHeaderParams_def sig_prefix_def
        foldHeaderField_b [simplified] split: prod.splits)
qed

lemma b_free_sig_prefix:
  assumes "dict_ok base" "\<forall>t \<in> set base. entry_ok t" "map_of base ''b'' = None"
  shows "b_free (sig_prefix base)"
proof -
  obtain s l where f: "formatHeaderParams_loop base (fst (sortParams base)) (headerFieldName @ '':'') [] = (s, l)"
    by (metis prod.exhaust)
  from formatHeaderParams_loop_text [OF f] obtain ts where
    ts: "s @ l = (headerFieldName @ '':'') @ concat (map (\<lambda>t. tag_text t @ '';'') ts)"
      "map snd ts = map (\<lambda>k. (k, dict_get base k)) (fst (sortParams base))"
      "\<forall>t \<in> set ts. fst t \<in> {[SP], crlf @ [SP]}" by auto
  have "b_free (tag_text t @ '';'')" if "t \<in> set ts" for t
  proof -
    from that have "snd t \<in> set (map snd ts)" by simp
    then obtain k where k: "snd t = (k, dict_get base k)" "k \<in> set (fst (sortParams base))"
      unfolding ts(2) by auto
    then have "(k, dict_get base k) \<in> set base"
      by (auto simp: sortParams_def set_dict_keys dict_get_def dest: map_of_SomeD)
    with assms(2) have "entry_ok (k, dict_get base k)" by blast
    from b_free_tag [OF this, of "fst t"] that ts(3) k(1) show ?thesis by (metis prod.collapse)
  qed
  then have "b_free (concat (map (\<lambda>t. tag_text t @ '';'') ts))" by (intro b_free_concat) auto
  moreover have "b_free (headerFieldName @ '':'')" by code_simp
  ultimately have "b_free (s @ l)" unfolding ts(1) by (rule b_free_append [rotated])
  moreover have "b_free (crlf @ [SP])" by (intro b_free_no_b) simp
  ultimately have "b_free ((s @ l) @ crlf @ [SP])" by (rule b_free_append)
  then show ?thesis by (simp add: sig_prefix_def f)
qed

text \<open>Verify hashes the text that Sign hashed.\<close>

lemma trim_right_crlf_append [simp]: "trim_right_crlf (s @ crlf) = trim_right_crlf s"
  by (simp add: trim_right_crlf_def)

lemma fields_by_seps: "(\<forall>c \<in> set t. f c) \<Longrightarrow> fields_by f acc (s @ t) = fields_by f acc s"
proof (induction s arbitrary: acc)
  case Nil
  have "fields_by f [] t = []" using Nil by (induction t) auto
  with Nil show ?case by (cases t) auto
qed auto

lemma relaxed_header_crlf:
  assumes "CHR '':'' \<in> set s"
  shows "relaxed_CanonicalizeHeader (s @ crlf) = relaxed_CanonicalizeHeader s"
proof -
  obtain k v where s: "s = k @ CHR '':'' # v" "CHR '':'' \<notin> set k"
    using assms by (meson split_list_first)
  then have "go_cut s '':'' = (k, v, True)" "go_cut (s @ crlf) '':'' = (k, v @ crlf, True)"
    using go_cut_char [of "CHR '':''" k "v @ crlf"] by (simp_all add: go_cut_char)
  moreover have "fields_by header_space [] (v @ crlf) = fields_by header_space [] v"
    by (intro fields_by_seps) (simp add: header_space_def)
  ultimately show ?thesis by (simp add: relaxed_CanonicalizeHeader_def)
qed

lemma signed_field_same:
  assumes "dict_ok base" "\<forall>t \<in> set base. entry_ok t" "map_of base ''b'' = None"
    and "\<forall>c \<in> set sig. plain c \<and> c \<noteq> CHR '';''"
    and "can = simple_CanonicalizeHeader \<or> can = relaxed_CanonicalizeHeader"
  shows "trim_right_crlf (can (removeSignature (formatSignature (dict_put ''b'' sig base)))) =
    trim_right_crlf (can (formatSignature (dict_put ''b'' [] base)))"
proof -
  have nosemi: "CHR '';'' \<notin> set (folded_value sig @ crlf)"
    using assms(4) folded_value_plain(2) [of sig] by auto
  have "removeSignature (formatSignature (dict_put ''b'' sig base)) = sig_prefix base @ ''b=''"
    unfolding formatSignature_split [OF assms(3)] removeSignature_b_free [OF b_free_sig_prefix [OF assms(1-3)]]
    using removeSignature_b [OF _ nosemi] by simp
  moreover have "formatSignature (dict_put ''b'' [] base) = (sig_prefix base @ ''b='') @ crlf"
    by (simp add: formatSignature_split [OF assms(3)] folded_value_def)
  moreover have "CHR '':'' \<in> set (sig_prefix base @ ''b='')"
  proof -
    obtain s l where f: "formatHeaderParams_loop base (fst (sortParams base)) (headerFieldName @ '':'') [] = (s, l)"
      by (metis prod.exhaust)
    from formatHeaderParams_loop_text [OF f] obtain ts where
      "s @ l = headerFieldName @ CHR '':'' # concat (map (\<lambda>t. tag_text t @ '';'') ts)" by auto
    then have "CHR '':'' \<in> set (s @ l)" by (metis in_set_conv_decomp)
    with f show ?thesis by (simp add: sig_prefix_def)
  qed
  ultimately show ?thesis using assms(5) relaxed_header_crlf
    by (auto simp: simple_CanonicalizeHeader_def simp del: append_assoc)
qed

section \<open>Picking with the new field on top\<close>

lemma pick_scan_append:
  "\<not> equal_fold (fst (parseHeaderField f)) key \<Longrightarrow> pick_scan key at (kvs @ [f]) = pick_scan key at kvs"
  by (induction key at kvs rule: pick_scan.induct) simp_all

lemma hashed_fields_on_top:
  "(\<forall>k \<in> set keys. \<not> equal_fold (fst (parseHeaderField f)) (to_lower k)) \<Longrightarrow>
     hashed_fields can keys \<lparr>hp_h = f # h, hp_picked = m\<rparr> = hashed_fields can keys \<lparr>hp_h = h, hp_picked = m\<rparr>"
proof (induction keys arbitrary: m)
  case (Cons k keys)
  then show ?case
    by (simp add: Pick_def Let_def picked_at_def pick_scan_append split: option.splits)
qed simp

lemma hashed_fields_new:
  assumes "\<forall>k \<in> set keys. \<not> equal_fold (fst (parseHeaderField f)) (to_lower k)"
  shows "hashed_fields can keys (newHeaderPicker (f # h)) = hashed_fields can keys (newHeaderPicker h)"
  using hashed_fields_on_top [OF assms] by (simp add: newHeaderPicker_def)

section \<open>The tags Sign sets\<close>

definition safe_text :: "string \<Rightarrow> bool" where
  "safe_text s \<longleftrightarrow> (\<forall>c \<in> set s. plain c \<and> c \<noteq> CHR '';'' \<and> c \<noteq> CHR ''='')"

definition safe_item :: "string \<Rightarrow> bool" where
  "safe_item s \<longleftrightarrow> safe_text s \<and> CHR '':'' \<notin> set s"

text \<open>
  Options a signature can be made with for a message with this header: no white space, semicolon
  or equals sign in the texts, an identity of the domain, the From field among the signed ones and
  no DKIM-Signature field, the DNS among the query methods, and an expiration that is a time.
\<close>

definition options_ok :: "'k SignOptions \<Rightarrow> header \<Rightarrow> bool" where
  "options_ok opts h \<longleftrightarrow>
     safe_text (so_Domain opts) \<and> safe_text (so_Selector opts) \<and> safe_text (so_Identifier opts) \<and>
     (so_Identifier opts = [] \<or> has_suffix (so_Identifier opts) (CHR ''@'' # so_Domain opts) \<or>
      has_suffix (so_Identifier opts) (CHR ''.'' # so_Domain opts)) \<and>
     (\<forall>k \<in> set (sign_keys opts h). safe_item k \<and> \<not> equal_fold headerFieldName (to_lower k)) \<and>
     (\<exists>k \<in> set (sign_keys opts h). equal_fold k ''from'') \<and>
     (\<forall>kv \<in> set h. \<not> equal_fold (fst (parseHeaderField kv)) headerFieldName) \<and>
     (case so_QueryMethods opts of None \<Rightarrow> True
      | Some ms \<Rightarrow> (\<forall>m \<in> set ms. safe_item m) \<and> QueryMethodDNSTXT \<in> set ms) \<and>
     - (2 ^ 63) \<le> t_sec (so_Expiration opts) \<and> t_sec (so_Expiration opts) < 2 ^ 63"

lemma safe_value: "safe_text s \<Longrightarrow> value_ok s"
  by (auto simp: safe_text_def value_ok_def intro: b_free_value)

lemma safe_join: "(\<forall>s \<in> set ss. safe_item s) \<Longrightarrow> safe_text (formatTagList ss)"
proof -
  assume a: "\<forall>s \<in> set ss. safe_item s"
  have "plain CHR '':''" by (simp add: plain_def ascii_space_def)
  with a set_join [of "'':''" ss] show ?thesis
    by (fastforce simp: safe_text_def safe_item_def formatTagList_def)
qed

lemma digit_plain: "is_digit c \<Longrightarrow> plain c \<and> c \<noteq> CHR '';'' \<and> c \<noteq> CHR ''=''"
  by (auto simp: is_digit_def plain_def ascii_space_def)

lemma safe_time: "safe_text (formatTime t)"
proof -
  have "safe_text (show_nat n)" for n
    using show_nat_digits digit_plain by (auto simp: safe_text_def)
  moreover have "plain CHR ''-''" by (simp add: plain_def ascii_space_def)
  ultimately show ?thesis by (auto simp: formatTime_def show_int_def safe_text_def)
qed

lemma value_b64: "value_ok (b64_encode s)"
  using b64_encode_bytes b64_byte_plain by (auto simp: value_ok_def intro: b_free_b64)

lemma check_options_Inr:
  assumes "check_options opts = Inr cfg"
  shows "so_Signer opts = Some (sc_signer cfg) \<and>
    canonicalizers (sc_headerCan cfg) = Some (sc_hc cfg) \<and> canonicalizers (sc_bodyCan cfg) = Some (sc_bc cfg) \<and>
    key_algorithm (Signer_Public (sc_signer cfg)) = Inr (sc_keyAlgo cfg)"
  using assms by (auto simp: check_options_def Let_def split: if_splits option.splits sum.splits)

lemma key_algorithm_cases: "key_algorithm p = Inr a \<Longrightarrow> a = ''rsa'' \<or> a = ''ed25519''"
  by (auto simp: key_algorithm_def split: public_key.splits)

lemma canonicalizers_names: "canonicalizers can = Some c \<Longrightarrow> can = ''simple'' \<or> can = ''relaxed''"
  by (auto simp: canonicalizers_def split: if_splits)

definition tag_keys :: "string list" where
  "tag_keys = [''v'', ''a'', ''bh'', ''c'', ''d'', ''s'', ''t'', ''h'', ''i'', ''q'', ''x'']"

lemma tag_keys_ok: "\<forall>k \<in> set tag_keys. tag_name k \<and> last k \<noteq> CHR ''b''"
  by code_simp

lemma base_params_ok:
  assumes "options_ok opts h" "check_options opts = Inr cfg"
  shows "dict_ok (base_params cr now opts cfg h body)"
    and "\<forall>t \<in> set (base_params cr now opts cfg h body). entry_ok t"
    and "map_of (base_params cr now opts cfg h body) ''b'' = None"
proof -
  let ?base = "base_params cr now opts cfg h body"
  note o = assms(1) [unfolded options_ok_def]
  note c = check_options_Inr [OF assms(2)]
  have a: "value_ok (sc_keyAlgo cfg @ ''-sha256'')"
    using key_algorithm_cases [of "Signer_Public (sc_signer cfg)" "sc_keyAlgo cfg"] c
    by (intro safe_value) (auto simp: safe_text_def plain_def ascii_space_def)
  have cc: "value_ok (sc_headerCan cfg @ ''/'' @ sc_bodyCan cfg)"
    using canonicalizers_names c
    by (intro safe_value) (fastforce simp: safe_text_def plain_def ascii_space_def)
  have v: "value_ok ''1''" by code_simp
  have q: "case so_QueryMethods opts of None \<Rightarrow> True | Some ms \<Rightarrow> value_ok (formatTagList ms)"
    using o by (auto split: option.splits intro: safe_value safe_join)
  have t: "value_ok (formatTime t)" for t by (intro safe_value safe_time)
  have d: "value_ok (so_Domain opts)" "value_ok (so_Selector opts)" "value_ok (so_Identifier opts)"
    using o by (simp_all add: safe_value)
  have hk: "value_ok (formatTagList (sign_keys opts h))"
    using o by (intro safe_value safe_join) blast
  have "list_all (\<lambda>t. fst t \<in> set tag_keys \<and> value_ok (snd t)) ?base"
    using a cc v q t d hk value_b64 by (simp add: base_params_def tag_keys_def split: option.splits)
  then show "\<forall>t \<in> set ?base. entry_ok t" using tag_keys_ok by (auto simp: entry_ok_def list_all_iff)
  show "dict_ok ?base" "map_of ?base ''b'' = None"
    by (auto simp: base_params_def dict_ok_def split: option.splits)
qed

section \<open>The tags Verify finds\<close>

lemma strip_plain: "(\<forall>c \<in> set s. plain c) \<Longrightarrow> stripWhitespace s = s"
  by (subst stripWhitespace_ascii) (auto simp: is_ascii_def plain_def intro!: filter_all)

lemma strip_safe [simp]: "safe_text s \<Longrightarrow> stripWhitespace s = s"
  by (simp add: strip_plain safe_text_def)

lemma parseTagList_format: "ss \<noteq> [] \<Longrightarrow> (\<forall>s \<in> set ss. safe_item s) \<Longrightarrow> parseTagList (formatTagList ss) = ss"
  by (auto simp: parseTagList_def formatTagList_def split_on_join safe_item_def intro!: map_idI)

lemma signed_take_bit_again:
  "signed_take_bit n (signed_take_bit n a + b) = signed_take_bit n (a + b)" for a b :: int
  using signed_take_bit_add [of n "signed_take_bit n a" b] signed_take_bit_add [of n a b]
  by (simp add: signed_take_bit_signed_take_bit)

lemma parseTime_format: "parseTime (formatTime t) = Inr \<lparr>t_sec = signed_take_bit 63 (t_sec t), t_nsec = 0\<rparr>"
proof -
  let ?u = "signed_take_bit 63 (t_sec t - unixToInternal)"
  have "parse_int64 (show_int ?u) = Some ?u"
    by (intro parse_show_int signed_take_bit_int_greater_eq_minus_exp signed_take_bit_int_less_exp)
  moreover have "stripWhitespace (formatTime t) = formatTime t" by (simp add: safe_time)
  ultimately show ?thesis
    by (simp add: parseTime_def formatTime_def time_Unix_def signed_take_bit_again)
qed

text \<open>P holds the tags of the signature: those that were set, and the value of b up to white space.\<close>

definition tags_of :: "dict \<Rightarrow> string \<Rightarrow> dict \<Rightarrow> bool" where
  "tags_of base sig P \<longleftrightarrow>
     (\<forall>k. k \<noteq> ''b'' \<longrightarrow> map_of P k = map_of base k) \<and> map_of P ''b'' \<noteq> None \<and>
     stripWhitespace (dict_get P ''b'') = sig"

lemma tags_plain:
  assumes "\<forall>t \<in> set base. entry_ok t" "map_of base ''b'' = None"
    and "\<forall>c \<in> set sig. plain c \<and> c \<noteq> CHR '';''" "(k, w) \<in> set (dict_put ''b'' sig base)"
  shows "tag_name k \<and> (\<forall>c \<in> set w. plain c \<and> c \<noteq> CHR '';'')"
proof (cases "(k, w) \<in> set base")
  case True
  with assms(1) have "entry_ok (k, w)" by blast
  then show ?thesis unfolding entry_ok_def value_ok_def fst_conv snd_conv by blast
next
  case False
  then have "k = ''b''" "w = sig" using assms(4) by (auto simp: dict_put_new [OF assms(2)])
  moreover have "tag_name ''b''" by code_simp
  ultimately show ?thesis using assms(3) by blast
qed

lemma ballI2: "(\<And>x y. (x, y) \<in> S \<Longrightarrow> P x y) \<Longrightarrow> \<forall>(x, y) \<in> S. P x y"
  by auto

lemma plain_no_break: "\<forall>c \<in> set w. plain c \<Longrightarrow> no_break w"
proof -
  have "\<not> plain CR" "\<not> plain LF" by code_simp+
  then show "\<forall>c \<in> set w. plain c \<Longrightarrow> no_break w" unfolding no_break_def by blast
qed

lemma plain_tag_value: "\<forall>c \<in> set w. plain c \<and> c \<noteq> CHR '';'' \<Longrightarrow> tag_value w"
  unfolding tag_value_def by (metis hd_in_set last_in_set)

lemma signature_field_parses:
  assumes "dict_ok base" "\<forall>t \<in> set base. entry_ok t" "map_of base ''b'' = None"
    and "\<forall>c \<in> set sig. plain c \<and> c \<noteq> CHR '';''"
  shows "\<exists>val P. parseHeaderField (formatSignature (dict_put ''b'' sig base)) = (headerFieldName, val) \<and>
    parseHeaderParams val = Inr P \<and> tags_of base sig P"
proof -
  let ?ps = "dict_put ''b'' sig base"
  have "tag_name k \<and> tag_value w" if "(k, w) \<in> set ?ps" for k w
    using tags_plain [OF assms(2-4) that] by (simp add: plain_tag_value)
  then have "\<forall>(k, w) \<in> set ?ps. tag_name k \<and> tag_value w" by (rule ballI2)
  moreover have "CHR '':'' \<notin> set headerFieldName" "trim_space headerFieldName = headerFieldName" by code_simp+
  ultimately show ?thesis
    using formatHeaderParams_parses [of ?ps sig headerFieldName] assms(1,4)
    by (force simp: formatSignature_def tags_of_def dict_get_def)
qed

lemma signature_field_reads:
  assumes "dict_ok base" "\<forall>t \<in> set base. entry_ok t" "map_of base ''b'' = None"
    and "\<forall>c \<in> set sig. plain c \<and> c \<noteq> CHR '';''"
  shows "\<exists>ls. field_ok ls \<and> list_all no_break ls \<and> formatSignature (dict_put ''b'' sig base) = field_text ls"
proof -
  have "no_break k \<and> no_break w" if "(k, w) \<in> set (dict_put ''b'' sig base)" for k w
    using tags_plain [OF assms(2-4) that] by (simp add: plain_no_break tag_name_def)
  then have "\<forall>(k, w) \<in> set (dict_put ''b'' sig base). no_break k \<and> no_break w" by (rule ballI2)
  moreover have "headerFieldName \<noteq> []" "hd headerFieldName \<notin> {SP, TAB}" "no_break headerFieldName" by code_simp+
  ultimately show ?thesis using assms(1) unfolding formatSignature_def
    by (intro formatHeaderParams_field [of _ sig]) simp_all
qed

section \<open>Reading the signed message\<close>

lemma readHeader_loop_prefix:
  "h \<noteq> [] \<Longrightarrow> readHeader_loop e h s = (Inr h', rest) \<Longrightarrow> readHeader_loop e (a @ h) s = (Inr (a @ h'), rest)"
proof (induction e h s rule: readHeader_loop.induct)
  case (1 e h s)
  obtain l s' where l: "line_of s = (l, s')" by (metis prod.exhaust)
  have ne: "s \<noteq> []" using "1.prems"(2) by (auto simp: readHeader_loop.simps)
  show ?case
  proof (cases "l = []")
    case True
    with "1.prems"(2) l ne show ?thesis by (simp add: readHeader_loop.simps [of e _ s])
  next
    case False
    note ih = "1.IH" [OF ne l [symmetric] refl False]
    show ?thesis
    proof (cases "hd l = SP \<or> hd l = TAB")
      case True
      then show ?thesis using ih(1) "1.prems" l ne False
        by (simp add: readHeader_loop.simps [of e _ s] butlast_append)
    next
      case nb: False
      then show ?thesis using ih(2) "1.prems" l ne False
        by (simp add: readHeader_loop.simps [of e _ s])
    qed
  qed
qed

lemma line_of_hd: "line_of s = (l, s') \<Longrightarrow> l \<noteq> [] \<Longrightarrow> hd l = hd s"
  by (auto simp: line_of_def chomp_cr_def hd_append butlast_append split: option.splits if_splits
    dest!: cut_at_Some)
    (metis append_butlast_last_id hd_append2)

lemma readHeader_new_field:
  assumes "readHeader e msg = (Inr h, body)" "hd msg \<notin> {SP, TAB}" "field_ok ls"
  shows "readHeader e (field_text ls @ msg) = (Inr (field_text ls # h), body)"
proof -
  obtain l s' where l: "line_of msg = (l, s')" by (metis prod.exhaust)
  have ne: "msg \<noteq> []" using assms(1) by (auto simp: readHeader_def readHeader_loop.simps)
  have "readHeader_loop e [field_text ls] msg = (Inr (field_text ls # h), body)"
  proof (cases "l = []")
    case True
    with assms(1) l ne show ?thesis by (simp add: readHeader_def readHeader_loop.simps [of e _ msg])
  next
    case False
    then have nb: "hd l \<noteq> SP" "hd l \<noteq> TAB" using line_of_hd [OF l] assms(2) by auto
    with assms(1) l ne False have "readHeader_loop e [l @ crlf] s' = (Inr h, body)"
      by (simp add: readHeader_def readHeader_loop.simps [of e _ msg])
    from readHeader_loop_prefix [OF _ this, of "[field_text ls]"] l ne False nb
    show ?thesis by (simp add: readHeader_loop.simps [of e _ msg])
  qed
  then show ?thesis using readHeader_loop_field [OF assms(3), of e "[]" msg] by (simp add: readHeader_def)
qed

lemma signatures_new:
  assumes "parseHeaderField f = (headerFieldName, val)"
    and "\<forall>kv \<in> set h. \<not> equal_fold (fst (parseHeaderField kv)) headerFieldName"
  shows "signatures (f # h) = [(0, val)]"
proof -
  have "concat (map (\<lambda>(i, kv). case parseHeaderField kv of (k, v) \<Rightarrow>
      if equal_fold k headerFieldName then [(i, v)] else []) (enumerate n h)) = []" for n
    using assms(2) by (induction h arbitrary: n) (auto split: prod.splits)
  then show ?thesis using assms(1) by (simp add: signatures_def equal_fold_def)
qed

section \<open>What Sign makes, Verify accepts\<close>

text \<open>
  The signer's key is published: the one TXT record of the selector is a key record for the
  algorithm of the signer, for SHA-256 and for email, and it accepts what the signer makes.
\<close>

definition published :: "'k crypto \<Rightarrow> txtLookupFunc \<Rightarrow> 'k SignOptions \<Rightarrow> 'k queryResult \<Rightarrow> bool" where
  "published cr lk opts res \<longleftrightarrow>
     (\<exists>record_txt. lk (so_Selector opts @ ''._domainkey.'' @ so_Domain opts) = Inr [record_txt] \<and>
        parsePublicKey cr record_txt = Inr res) \<and>
     (\<forall>algos. qr_HashAlgos res = Some algos \<longrightarrow> ''sha256'' \<in> set algos) \<and>
     (\<forall>services. qr_Services res = Some services \<longrightarrow> ''email'' \<in> set services) \<and>
     (\<forall>signer. so_Signer opts = Some signer \<longrightarrow>
        key_algorithm (Signer_Public signer) = Inr (qr_KeyAlgo res) \<and>
        (\<forall>hashed hf sig. Signer_Sign signer hashed hf = Inr sig \<longrightarrow>
           verifier_Verify cr (qr_Verifier res) hashed sig = None))"

definition not_expired :: "go_time \<Rightarrow> 'k SignOptions \<Rightarrow> bool" where
  "not_expired now opts \<longleftrightarrow> time_IsZero (so_Expiration opts) \<or>
     \<not> time_After now \<lparr>t_sec = t_sec (so_Expiration opts), t_nsec = 0\<rparr>"

lemma base_lookups:
  assumes "base = base_params cr now opts cfg h body"
  shows "map_of base ''v'' = Some ''1''" "map_of base ''a'' = Some (sc_keyAlgo cfg @ ''-sha256'')"
    "map_of base ''bh'' = Some (b64_encode (sha256 cr (CanonicalizeBody (sc_bc cfg) body)))"
    "map_of base ''c'' = Some (sc_headerCan cfg @ ''/'' @ sc_bodyCan cfg)"
    "map_of base ''d'' = Some (so_Domain opts)" "map_of base ''s'' = Some (so_Selector opts)"
    "map_of base ''t'' = Some (formatTime now)"
    "map_of base ''h'' = Some (formatTagList (sign_keys opts h))"
    "map_of base ''i'' = (if so_Identifier opts = [] then None else Some (so_Identifier opts))"
    "map_of base ''q'' = map_option formatTagList (so_QueryMethods opts)"
    "map_of base ''x'' = (if time_IsZero (so_Expiration opts) then None
       else Some (formatTime (so_Expiration opts)))"
    "map_of base ''l'' = None"
  by (simp_all add: assms base_params_def split: option.splits)

lemma check_tags_sign:
  assumes "options_ok opts h" "base = base_params cr now opts cfg h body" "tags_of base sig P"
    and "not_expired now' opts"
  shows "\<exists>v. check_tags now' P new_Verification = (v, None) \<and> vf_Domain v = so_Domain opts \<and>
    vf_Selector v = so_Selector opts \<and> vf_HeaderKeys v = sign_keys opts h"
proof -
  note o = assms(1) [unfolded options_ok_def]
  note b = base_lookups [OF assms(2)]
  have P: "map_of P k = map_of base k" if "k \<noteq> ''b''" for k
    using assms(3) that by (simp add: tags_of_def)
  have g: "dict_get P k = (case map_of base k of Some w \<Rightarrow> w | None \<Rightarrow> [])" if "k \<noteq> ''b''" for k
    using P [OF that] by (simp add: dict_get_def)
  have ex: "map_of P ''b'' \<noteq> None" using assms(3) by (simp add: tags_of_def)
  have keys: "parseTagList (formatTagList (sign_keys opts h)) = sign_keys opts h"
    using o by (intro parseTagList_format) auto
  define i where "i = (if so_Identifier opts = [] then CHR ''@'' # so_Domain opts else so_Identifier opts)"
  define x where "x = (if time_IsZero (so_Expiration opts) then None
      else Some \<lparr>t_sec = t_sec (so_Expiration opts), t_nsec = 0\<rparr>)"
  define v0 where "v0 = (set_names P new_Verification)\<lparr>vf_Identifier := i\<rparr>"
  define v1 where "v1 = v0\<lparr>vf_HeaderKeys := sign_keys opts h\<rparr>"
  define v2 where "v2 = v1\<lparr>vf_Time := Some \<lparr>t_sec = signed_take_bit 63 (t_sec now), t_nsec = 0\<rparr>\<rparr>"
  have d: "vf_Domain (set_names P new_Verification) = so_Domain opts"
    using o by (simp add: set_names_def g b)
  have "check_identity P (set_names P new_Verification) = (v0, None)"
    using o by (auto simp: check_identity_def P b check_def d v0_def i_def Let_def)
  moreover have "check_from P v0 = (v1, None)"
    using o by (auto simp: check_from_def g b keys Let_def v1_def)
  moreover have "check_created P v1 = (v2, None)"
    by (simp add: check_created_def P b parseTime_format v2_def)
  moreover have "check_expiration now' P v2 = (v2\<lparr>vf_Expiration := x\<rparr>, None)"
  proof (cases "time_IsZero (so_Expiration opts)")
    case True
    have "vf_Expiration v2 = None"
      by (simp add: v2_def v1_def v0_def set_names_def new_Verification_def)
    then have "v2\<lparr>vf_Expiration := None\<rparr> = v2" by (cases v2) simp
    with True show ?thesis by (simp add: check_expiration_def P b x_def)
  next
    case False
    have "signed_take_bit 63 (t_sec (so_Expiration opts)) = t_sec (so_Expiration opts)"
      using o by (intro signed_take_bit_int_eq_self) auto
    with False assms(4) show ?thesis
      by (simp add: check_expiration_def P b x_def parseTime_format check_def not_expired_def)
  qed
  moreover have "list_all (\<lambda>tag. map_of P tag \<noteq> None) requiredTags" "dict_get P ''v'' = ''1''"
    using ex by (simp_all add: requiredTags_def P g b)
  ultimately have "check_tags now' P new_Verification = (v2\<lparr>vf_Expiration := x\<rparr>, None)"
    by (simp add: check_tags_def check_def and_then_def)
  then show ?thesis
    using o d by (intro exI [of _ "v2\<lparr>vf_Expiration := x\<rparr>"])
      (simp add: v2_def v1_def v0_def set_names_def g b)
qed

lemma run_query_dns: "QueryMethodDNSTXT \<in> set ms \<Longrightarrow> run_query cr lk d s ms = queryDNSTXT cr lk d s"
  by (induction ms) (auto simp: queryMethods_def)

lemma check_algorithms_sign:
  assumes "published cr lk opts res" "so_Signer opts = Some signer"
    and "key_algorithm (Signer_Public signer) = Inr algo" "dict_get P ''a'' = algo @ ''-sha256''"
  shows "check_algorithms P res = None"
proof -
  have "qr_KeyAlgo res = algo" using assms(1-3) by (auto simp: published_def)
  moreover have "go_cut (stripWhitespace (algo @ ''-sha256'')) ''-'' = (algo, ''sha256'', True)"
    using key_algorithm_cases [OF assms(3)] by (elim disjE; hypsubst; code_simp)
  ultimately show ?thesis using assms(1,4)
    by (auto simp: check_algorithms_def published_def split: option.splits)
qed

lemma check_canonicalization_sign:
  assumes "canonicalizers h = Some hc" "canonicalizers b = Some bc" "dict_get P ''c'' = h @ ''/'' @ b"
  shows "check_canonicalization P = Inr (hc, bc)"
proof -
  have "parseCanonicalization (h @ ''/'' @ b) = (h, b)"
    using canonicalizers_names [OF assms(1)] canonicalizers_names [OF assms(2)]
    by (elim disjE; hypsubst; code_simp)
  with assms show ?thesis by (simp add: check_canonicalization_def)
qed

lemma check_signature_sign:
  assumes "options_ok opts h" "check_options opts = Inr cfg"
    and "base = base_params cr now opts cfg h body" "tags_of base (b64_encode sig) P"
    and "published cr lk opts res" "vf_Domain v = so_Domain opts" "vf_HeaderKeys v = sign_keys opts h"
    and "\<forall>k \<in> set (sign_keys opts h). \<not> equal_fold (fst (parseHeaderField f)) (to_lower k)"
    and "f = formatSignature (dict_put ''b'' (b64_encode sig) base)"
    and "Signer_Sign (sc_signer cfg) (sha256 cr (signed_text (CanonicalizeHeader (sc_hc cfg))
           (sign_keys opts h) h (formatSignature (dict_put ''b'' [] base)))) hf = Inr sig"
  shows "check_signature cr lk (f # h) EOF body f P v = None"
proof -
  note o = assms(1) [unfolded options_ok_def]
  note b = base_lookups [OF assms(3)]
  note c = check_options_Inr [OF assms(2)]
  note base_ok = base_params_ok [OF assms(1,2), of cr now body, folded assms(3)]
  have g: "dict_get P k = (case map_of base k of Some w \<Rightarrow> w | None \<Rightarrow> [])" "map_of P k = map_of base k"
    if "k \<noteq> ''b''" for k
    using assms(4) that by (simp_all add: tags_of_def dict_get_def)
  have "QueryMethodDNSTXT \<in> set (case map_of P ''q'' of None \<Rightarrow> [QueryMethodDNSTXT]
      | Some methodsStr \<Rightarrow> parseTagList methodsStr)"
  proof (cases "so_QueryMethods opts")
    case (Some ms)
    with o have ms: "\<forall>m \<in> set ms. safe_item m" "QueryMethodDNSTXT \<in> set ms" by auto
    then have "parseTagList (formatTagList ms) = ms" by (intro parseTagList_format) auto
    with Some ms show ?thesis by (simp add: g b)
  qed (simp add: g b)
  from run_query_dns [OF this] have
    "query_key cr lk P (vf_Domain v) = queryDNSTXT cr lk (so_Domain opts) (so_Selector opts)"
    using o by (simp add: query_key_def assms(6) g b)
  also have "\<dots> = Inr res" using assms(5) by (auto simp: queryDNSTXT_def published_def)
  finally have key: "query_key cr lk P (vf_Domain v) = Inr res" .
  have bs: "\<forall>c \<in> set (b64_encode x). plain c \<and> c \<noteq> CHR '';''" for x
    using b64_encode_bytes b64_byte_plain by blast
  have bh: "decodeBase64String (dict_get P ''bh'') = Inr (sha256 cr (CanonicalizeBody (sc_bc cfg) body))"
    using bs by (simp add: decodeBase64String_def g b strip_plain)
  have bb: "decodeBase64String (dict_get P ''b'') = Inr sig"
    using assms(4) by (simp add: decodeBase64String_def tags_of_def)
  have can: "CanonicalizeHeader (sc_hc cfg) = simple_CanonicalizeHeader \<or>
      CanonicalizeHeader (sc_hc cfg) = relaxed_CanonicalizeHeader"
    using c canonicalizers_cases by blast
  have "signed_text (CanonicalizeHeader (sc_hc cfg)) (sign_keys opts h) (f # h) (removeSignature f)
      = signed_text (CanonicalizeHeader (sc_hc cfg)) (sign_keys opts h) h (formatSignature (dict_put ''b'' [] base))"
    using signed_field_same [OF base_ok bs can] hashed_fields_new [OF assms(8)]
    by (simp add: signed_text_def assms(9))
  then have "verifier_Verify cr (qr_Verifier res) (sha256 cr (signed_text (CanonicalizeHeader (sc_hc cfg))
      (sign_keys opts h) (f # h) (removeSignature f))) sig = None"
    using assms(5,10) c by (auto simp: published_def)
  then have "check_hashes cr (f # h) EOF body f P (vf_HeaderKeys v) (sc_hc cfg) (sc_bc cfg) res = None"
    by (simp add: check_hashes_def bh bb assms(7))
  moreover have "check_algorithms P res = None"
    using c by (intro check_algorithms_sign [OF assms(5)]) (auto simp: g b)
  moreover have "check_canonicalization P = Inr (sc_hc cfg, sc_bc cfg)"
    using c by (intro check_canonicalization_sign) (auto simp: g b)
  ultimately show ?thesis using key by (simp add: check_signature_def g b)
qed

lemma signature_lines:
  assumes "check_options opts = Inr cfg" "sign_params cr now opts cfg msg = Inr ps"
    and "readHeader EOF msg = (Inr h, body)" "options_ok opts h"
  shows "\<exists>ls. field_ok ls \<and> list_all no_break ls \<and> formatSignature ps = field_text ls"
proof -
  note base_ok = base_params_ok [OF assms(4,1)]
  from assms(2,3) obtain sig where ps: "ps = dict_put ''b'' (b64_encode sig) (base_params cr now opts cfg h body)"
    by (auto simp: sign_params_def Let_def split: sum.splits)
  have "\<forall>c \<in> set (b64_encode sig). plain c \<and> c \<noteq> CHR '';''"
    using b64_encode_bytes b64_byte_plain by blast
  from signature_field_reads [OF base_ok this] show ?thesis unfolding ps .
qed

lemma signed_verifies:
  assumes "check_options opts = Inr cfg" "sign_params cr now opts cfg msg = Inr ps"
    and "readHeader EOF msg = (Inr h, body)" "hd msg \<notin> {SP, TAB}"
    and "options_ok opts h" "published cr lk opts res" "not_expired now' opts"
  shows "\<exists>val v. parseHeaderField (formatSignature ps) = (headerFieldName, val) \<and>
    readHeader EOF (formatSignature ps @ msg) = (Inr (formatSignature ps # h), body) \<and>
    verify cr lk now' (formatSignature ps # h) EOF body (formatSignature ps) val = (v, None) \<and>
    vf_Domain v = so_Domain opts \<and> vf_Selector v = so_Selector opts \<and> vf_HeaderKeys v = sign_keys opts h"
proof -
  note c = assms(1)
  define base where "base = base_params cr now opts cfg h body"
  from assms(2,3) obtain sig hf where ps: "ps = dict_put ''b'' (b64_encode sig) base"
    and sig: "Signer_Sign (sc_signer cfg) (sha256 cr (signed_text (CanonicalizeHeader (sc_hc cfg))
      (sign_keys opts h) h (formatSignature (dict_put ''b'' [] base)))) hf = Inr sig"
    by (auto simp: sign_params_def Let_def base_def split: sum.splits)
  note base_ok = base_params_ok [OF assms(5) c, of cr now body, folded base_def]
  have bs: "\<forall>c \<in> set (b64_encode sig). plain c \<and> c \<noteq> CHR '';''"
    using b64_encode_bytes b64_byte_plain by blast
  let ?f = "formatSignature ps"
  obtain val P where f: "parseHeaderField ?f = (headerFieldName, val)" "parseHeaderParams val = Inr P"
    and tags: "tags_of base (b64_encode sig) P"
    using signature_field_parses [OF base_ok bs] unfolding ps by blast
  obtain ls where "field_ok ls" "?f = field_text ls"
    using signature_lines [OF c assms(2,3,5)] by blast
  then have read: "readHeader EOF (?f @ msg) = (Inr (?f # h), body)"
    using readHeader_new_field [OF assms(3,4)] by simp
  obtain v where v: "check_tags now' P new_Verification = (v, None)" "vf_Domain v = so_Domain opts"
    "vf_Selector v = so_Selector opts" "vf_HeaderKeys v = sign_keys opts h"
    using check_tags_sign [OF assms(5) base_def tags assms(7)] by blast
  have "\<forall>k \<in> set (sign_keys opts h). \<not> equal_fold (fst (parseHeaderField ?f)) (to_lower k)"
    using assms(5) f(1) by (simp add: options_ok_def)
  from check_signature_sign [OF assms(5) c base_def tags assms(6) v(2,4) this _ sig]
  have "check_signature cr lk (?f # h) EOF body ?f P v = None" by (simp add: ps)
  then have "verify cr lk now' (?f # h) EOF body ?f val = (v, None)"
    by (simp add: verify_def f(2) v(1))
  with f(1) read v(2-4) show ?thesis by blast
qed

lemma signed_message_verifies:
  assumes "dkim_Sign cr now EOF msg (Some opts) = Signed signed"
    and "readHeader EOF msg = (Inr h, body)" "hd msg \<notin> {SP, TAB}"
    and "options_ok opts h" "published cr lk opts res" "not_expired now' opts"
  shows "\<exists>v. dkim_Verify cr lk now' EOF signed = Verified [v] \<and> vf_Err v = None \<and>
    vf_Domain v = so_Domain opts \<and> vf_Selector v = so_Selector opts \<and> vf_HeaderKeys v = sign_keys opts h"
proof -
  from assms(1) obtain cfg ps where "check_options opts = Inr cfg"
      "sign_params cr now opts cfg msg = Inr ps" and signed: "signed = formatSignature ps @ msg"
    by (auto simp: dkim_Sign_def NewSigner_def Signer_Write_def Signer_Close_def Signature_def
      split: sum.splits)
  from signed_verifies [OF this(1,2) assms(2-6)] obtain val v where
    f: "parseHeaderField (formatSignature ps) = (headerFieldName, val)"
    "readHeader EOF signed = (Inr (formatSignature ps # h), body)"
    "verify cr lk now' (formatSignature ps # h) EOF body (formatSignature ps) val = (v, None)"
    and v: "vf_Domain v = so_Domain opts" "vf_Selector v = so_Selector opts" "vf_HeaderKeys v = sign_keys opts h"
    unfolding signed by blast
  have "signatures (formatSignature ps # h) = [(0, val)]"
    using assms(4) by (intro signatures_new [OF f(1)]) (simp add: options_ok_def)
  then have "dkim_Verify cr lk now' EOF signed = Verified [v\<lparr>vf_Err := None\<rparr>]"
    by (simp add: dkim_Verify_def VerifyWithOptions_def f(2,3) with_Err_def)
  then show ?thesis using v by (intro exI [of _ "v\<lparr>vf_Err := None\<rparr>"]) simp
qed


section \<open>A signed message\<close>

text \<open>
  A message, a toy key and its key record: the hash is the identity, and a key accepts a signature
  that is equal to the hash. The second message differs in the empty lines at its end.
\<close>

definition w_crypto :: "unit crypto" where
  "w_crypto = \<lparr>sha256 = (\<lambda>s. s), ParsePKIXPublicKey = (\<lambda>_. Inr (RSA_PublicKey ())),
     ParsePKCS1PublicKey = (\<lambda>_. Inr ()), rsa_Size = (\<lambda>_. 128),
     rsa_VerifyPKCS1v15 = (\<lambda>_ h sig. if h = sig then None else Some ''bad signature''),
     ed25519_Verify = (\<lambda>_ h sig. h = sig)\<rparr>"

definition w_lookup :: txtLookupFunc where
  "w_lookup d = (if d = ''s._domainkey.d'' then Inr [''p=AAAA''] else Inl (DnsNotFound ''no such host''))"

definition w_time :: go_time where
  "w_time = \<lparr>t_sec = 63000000000, t_nsec = 0\<rparr>"

definition w_later :: go_time where
  "w_later = \<lparr>t_sec = 63000086400, t_nsec = 0\<rparr>"

definition w_opts :: "unit SignOptions" where
  "w_opts = \<lparr>so_Domain = ''d'', so_Selector = ''s'', so_Identifier = [],
     so_Signer = Some \<lparr>Signer_Public = PublicRSA (), Signer_Sign = (\<lambda>h _. Inr h)\<rparr>,
     so_Hash = NoHash, so_HeaderCanonicalization = ''relaxed'', so_BodyCanonicalization = [],
     so_HeaderKeys = Some [''From'', ''To''], so_Expiration = \<lparr>t_sec = 63000100000, t_nsec = 5\<rparr>,
     so_QueryMethods = None\<rparr>"

definition w_header :: header where
  "w_header = [''From: a'' @ crlf]"

definition w_message :: string where
  "w_message = ''From: a'' @ crlf @ crlf @ ''hi''"

definition w_longer :: string where
  "w_longer = w_message @ crlf @ crlf"

definition w_result :: "unit queryResult" where
  "w_result = \<lparr>qr_Verifier = rsaVerifier (), qr_KeyAlgo = ''rsa'', qr_HashAlgos = None,
     qr_Notes = [], qr_Services = None, qr_Flags = None\<rparr>"

definition w_cfg :: "unit sign_config" where
  "w_cfg = (case check_options w_opts of Inr cfg \<Rightarrow> cfg | Inl _ \<Rightarrow>
     \<lparr>sc_signer = \<lparr>Signer_Public = PublicRSA (), Signer_Sign = (\<lambda>h _. Inr h)\<rparr>, sc_headerCan = [],
      sc_hc = \<lparr>CanonicalizeHeader = id, CanonicalizeBody = id\<rparr>, sc_bodyCan = [],
      sc_bc = \<lparr>CanonicalizeHeader = id, CanonicalizeBody = id\<rparr>, sc_keyAlgo = []\<rparr>)"

definition w_params :: dict where
  "w_params = (case sign_params w_crypto w_time w_opts w_cfg w_message of Inr ps \<Rightarrow> ps | Inl _ \<Rightarrow> [])"

lemma w_cfg: "check_options w_opts = Inr w_cfg" "sc_bc w_cfg = \<lparr>CanonicalizeHeader = simple_CanonicalizeHeader, CanonicalizeBody = simple_canonical\<rparr>"
  "Signer_Sign (sc_signer w_cfg) = (\<lambda>h _. Inr h)"
  by (simp_all add: w_cfg_def check_options_def w_opts_def default_can_def canonicalizers_def
    key_algorithm_def signs_from_def equal_fold_def Let_def)

lemma w_reads:
  "readHeader EOF w_message = (Inr w_header, ''hi'')"
  "readHeader EOF w_longer = (Inr w_header, ''hi'' @ crlf @ crlf)"
  "hd w_message \<notin> {SP, TAB}" "hd w_longer \<notin> {SP, TAB}"
  by code_simp+

lemma w_params:
  "sign_params w_crypto w_time w_opts w_cfg w_message = Inr w_params"
  "sign_params w_crypto w_time w_opts w_cfg w_longer = Inr w_params"
proof -
  have c: "simple_canonical (''hi'' @ crlf @ crlf) = simple_canonical ''hi''" by code_simp
  show p: "sign_params w_crypto w_time w_opts w_cfg w_message = Inr w_params"
    by (simp add: w_params_def sign_params_def w_reads Let_def w_cfg)
  have "sign_params w_crypto w_time w_opts w_cfg w_longer = sign_params w_crypto w_time w_opts w_cfg w_message"
    using c by (simp add: sign_params_def w_reads Let_def base_params_def w_cfg)
  with p show "sign_params w_crypto w_time w_opts w_cfg w_longer = Inr w_params" by simp
qed

lemma w_published: "published w_crypto w_lookup w_opts w_result"
proof -
  have "parsePublicKey w_crypto ''p=AAAA'' = Inr w_result" by code_simp
  then show ?thesis
    by (auto simp: published_def w_opts_def w_lookup_def w_result_def key_algorithm_def w_crypto_def)
qed

lemma w_conditions: "options_ok w_opts w_header" "not_expired w_later w_opts"
  by code_simp+


lemma w_verifies:
  "\<exists>val v. parseHeaderField (formatSignature w_params) = (headerFieldName, val) \<and>
     verify w_crypto w_lookup w_later (formatSignature w_params # w_header) EOF body (formatSignature w_params) val = (v, None) \<and>
     vf_HeaderKeys v = [''From'', ''To'']" if "body \<in> {''hi'', ''hi'' @ crlf @ crlf}"
proof (cases "body = ''hi''")
  case True
  from signed_verifies [OF w_cfg(1) w_params(1) w_reads(1,3) w_conditions(1) w_published w_conditions(2)] True
  show ?thesis by (auto simp: w_opts_def sign_keys_def)
next
  case False
  with that have "body = ''hi'' @ crlf @ crlf" by simp
  with signed_verifies [OF w_cfg(1) w_params(2) w_reads(2,4) w_conditions(1) w_published w_conditions(2)]
  show ?thesis by (auto simp: w_opts_def sign_keys_def)
qed

lemma verify_sound_witness:
  "\<exists>val v params res txt hc bc. parseHeaderParams val = Inr params \<and> tags_hold w_later params v \<and>
    w_lookup (vf_Selector v @ ''._domainkey.'' @ vf_Domain v) = Inr [txt] \<and> parsePublicKey w_crypto txt = Inr res \<and>
    key_strong w_crypto res \<and> signature_holds w_crypto res (formatSignature w_params # w_header) ''hi''
      (formatSignature w_params) params (vf_HeaderKeys v) hc bc"
proof -
  obtain val v where "verify w_crypto w_lookup w_later (formatSignature w_params # w_header) EOF ''hi''
      (formatSignature w_params) val = (v, None)" using w_verifies [of "''hi''"] by auto
  from verify_sound [OF this] show ?thesis by blast
qed


end
