(* ===== verification/Dmarc.thy ===== *)
theory Dmarc imports Go_Dict Go_Dns "HOL-Library.Word" begin

unbundle bit_operations_syntax

text \<open>
  middleware/authres/dmarc: DMARC records (dmarc.go) and their lookup and parser (lookup.go). The
  DNS is a parameter: a function from names to TXT records or an error. Integers are Go's 64-bit
  int; the report interval is nanoseconds, with the wrap-around of the multiplication.
\<close>

section \<open>Records (dmarc.go)\<close>

definition AlignmentStrict :: string where
  "AlignmentStrict = ''s''"

definition AlignmentRelaxed :: string where
  "AlignmentRelaxed = ''r''"

text \<open>FailureOptions is an int, a set of flags.\<close>

type_synonym FailureOptions = "64 word"

definition FailureAll :: FailureOptions where
  "FailureAll = 1"

definition FailureAny :: FailureOptions where
  "FailureAny = 2"

definition FailureDKIM :: FailureOptions where
  "FailureDKIM = 4"

definition FailureSPF :: FailureOptions where
  "FailureSPF = 8"

definition PolicyNone :: string where
  "PolicyNone = ''none''"

definition PolicyQuarantine :: string where
  "PolicyQuarantine = ''quarantine''"

definition PolicyReject :: string where
  "PolicyReject = ''reject''"

definition ReportFormatAFRF :: string where
  "ReportFormatAFRF = ''afrf''"

record dmarc_record =
  DKIMAlignment :: string
  SPFAlignment :: string
  FailureOpts :: FailureOptions
  Policy :: string
  Percent :: "int option"
  ReportFormat :: "string list"
  ReportInterval :: int
  ReportURIAggregate :: "string list"
  ReportURIFailure :: "string list"
  SubdomainPolicy :: string

definition new_Record :: dmarc_record where
  "new_Record = \<lparr>DKIMAlignment = [], SPFAlignment = [], FailureOpts = 0, Policy = [], Percent = None,
     ReportFormat = [], ReportInterval = 0, ReportURIAggregate = [], ReportURIFailure = [],
     SubdomainPolicy = []\<rparr>"

section \<open>Parsing (lookup.go)\<close>

text \<open>Unlike the tag lists of DKIM, a repeated tag overwrites the earlier one.\<close>

fun parseParams_loop :: "dict \<Rightarrow> string list \<Rightarrow> string + dict" where
  "parseParams_loop params [] = Inr params"
| "parseParams_loop params (s # ss) =
     (case go_cut s ''='' of (k, v, two) \<Rightarrow>
        if \<not> two
        then (if trim_space s = [] then parseParams_loop params ss else Inl ''dmarc: malformed params'')
        else parseParams_loop (dict_put (trim_space k) (trim_space v) params) ss)"

definition parseParams :: "string \<Rightarrow> string + dict" where
  "parseParams s = parseParams_loop [] (split_on CHR '';'' s)"

definition parsePolicy :: "string \<Rightarrow> string \<Rightarrow> string + string" where
  "parsePolicy s param =
     (if s \<in> {''none'', ''quarantine'', ''reject''} then Inr s
      else Inl (''dmarc: invalid policy for parameter '' @ [CHR 0x27] @ param @ [CHR 0x27]))"

definition parseAlignmentMode :: "string \<Rightarrow> string \<Rightarrow> string + string" where
  "parseAlignmentMode s param =
     (if s \<in> {''r'', ''s''} then Inr s
      else Inl (''dmarc: invalid alignment mode for parameter '' @ [CHR 0x27] @ param @ [CHR 0x27]))"

definition failure_option :: "string \<Rightarrow> FailureOptions option" where
  "failure_option o' =
     (if o' = ''0'' then Some FailureAll else if o' = ''1'' then Some FailureAny
      else if o' = ''d'' then Some FailureDKIM else if o' = ''s'' then Some FailureSPF else None)"

fun parseFailureOptions_loop :: "FailureOptions \<Rightarrow> string list \<Rightarrow> string + FailureOptions" where
  "parseFailureOptions_loop opts [] = Inr opts"
| "parseFailureOptions_loop opts (x # l) =
     (case failure_option (trim_space x) of
        Some f \<Rightarrow> parseFailureOptions_loop (opts OR f) l
      | None \<Rightarrow> Inl (''dmarc: invalid failure option in parameter '' @ [CHR 0x27] @ ''fo'' @ [CHR 0x27]))"

definition parseFailureOptions :: "string \<Rightarrow> string + FailureOptions" where
  "parseFailureOptions s = parseFailureOptions_loop 0 (split_on CHR '':'' s)"

definition parseURIList :: "string \<Rightarrow> string list" where
  "parseURIList s = map trim_space (split_on CHR '','' s)"

definition invalid_param :: "string \<Rightarrow> string" where
  "invalid_param p = ''dmarc: invalid parameter '' @ [CHR 0x27] @ p @ [CHR 0x27]"

definition parsePercent :: "string \<Rightarrow> string + int" where
  "parsePercent pct =
     (case parse_int64 pct of
        None \<Rightarrow> Inl (invalid_param ''pct'' @ '': '' @ strconv_error ''Atoi'' pct)
      | Some i \<Rightarrow>
          if i < 0 \<or> 100 < i then Inl (invalid_param ''pct'' @ '': value '' @ show_int i @ '' out of bounds'')
          else Inr i)"

definition parseReportFormat :: "string \<Rightarrow> string + string list" where
  "parseReportFormat rf =
     (let l = split_on CHR '':'' rf
      in if list_all (\<lambda>f. f = ReportFormatAFRF) l then Inr l else Inl (invalid_param ''rf''))"

text \<open>time.Duration(i) * time.Second on int64.\<close>

definition parseReportInterval :: "string \<Rightarrow> string + int" where
  "parseReportInterval ri =
     (case parse_int64 ri of
        None \<Rightarrow> Inl (invalid_param ''ri'' @ '': '' @ strconv_error ''Atoi'' ri)
      | Some i \<Rightarrow>
          if i \<le> 0 then Inl (invalid_param ''ri'' @ '': negative or zero duration'')
          else Inr (sint (word_of_int i * 1000000000 :: 64 word)))"

text \<open>
  A tag that may be missing: the record is left alone, or set from the parsed value, or the
  parser's error ends the whole.
\<close>

definition optional ::
  "dict \<Rightarrow> string \<Rightarrow> (string \<Rightarrow> string + 'v) \<Rightarrow> ('v \<Rightarrow> dmarc_record \<Rightarrow> dmarc_record) \<Rightarrow>
   string + dmarc_record \<Rightarrow> string + dmarc_record" where
  "optional params tag parse upd r =
     (case r of
        Inl err \<Rightarrow> Inl err
      | Inr rec \<Rightarrow>
          (case map_of params tag of
             None \<Rightarrow> Inr rec
           | Some s \<Rightarrow> (case parse s of Inl err \<Rightarrow> Inl err | Inr v \<Rightarrow> Inr (upd v rec))))"

text \<open>The tags of the checks, then those of the reports and the subdomains.\<close>

definition parseModes :: "dict \<Rightarrow> string + dmarc_record \<Rightarrow> string + dmarc_record" where
  "parseModes params r =
     (let adkim = optional params ''adkim'' (\<lambda>s. parseAlignmentMode s ''adkim'') (\<lambda>v r. r\<lparr>DKIMAlignment := v\<rparr>);
          aspf = optional params ''aspf'' (\<lambda>s. parseAlignmentMode s ''aspf'') (\<lambda>v r. r\<lparr>SPFAlignment := v\<rparr>);
          fo = optional params ''fo'' parseFailureOptions (\<lambda>v r. r\<lparr>FailureOpts := v\<rparr>)
      in fo (aspf (adkim r)))"

definition parseReporting :: "dict \<Rightarrow> string + dmarc_record \<Rightarrow> string + dmarc_record" where
  "parseReporting params r =
     (let pct = optional params ''pct'' parsePercent (\<lambda>v r. r\<lparr>Percent := Some v\<rparr>);
          rf = optional params ''rf'' parseReportFormat (\<lambda>v r. r\<lparr>ReportFormat := v\<rparr>);
          ri = optional params ''ri'' parseReportInterval (\<lambda>v r. r\<lparr>ReportInterval := v\<rparr>);
          rua = optional params ''rua'' (\<lambda>s. Inr (parseURIList s)) (\<lambda>v r. r\<lparr>ReportURIAggregate := v\<rparr>);
          ruf = optional params ''ruf'' (\<lambda>s. Inr (parseURIList s)) (\<lambda>v r. r\<lparr>ReportURIFailure := v\<rparr>);
          sp = optional params ''sp'' (\<lambda>s. parsePolicy s ''sp'') (\<lambda>v r. r\<lparr>SubdomainPolicy := v\<rparr>)
      in sp (ruf (rua (ri (rf (pct r))))))"

definition parseFields :: "dict \<Rightarrow> dmarc_record \<Rightarrow> string + dmarc_record" where
  "parseFields params rec0 = parseReporting params (parseModes params (Inr rec0))"

definition dmarc_Parse :: "string \<Rightarrow> string + dmarc_record" where
  "dmarc_Parse s =
     (case parseParams s of
        Inl err \<Rightarrow> Inl err
      | Inr params \<Rightarrow>
          if dict_get params ''v'' \<noteq> ''DMARC1'' then Inl ''dmarc: unsupported DMARC version''
          else (case map_of params ''p'' of
              None \<Rightarrow> Inl (''dmarc: record is missing a '' @ [CHR 0x27] @ ''p'' @ [CHR 0x27] @ '' parameter'')
            | Some p \<Rightarrow>
                (case parsePolicy p ''p'' of
                   Inl err \<Rightarrow> Inl err
                 | Inr policy \<Rightarrow>
                     parseFields params (new_Record\<lparr>Policy := policy, DKIMAlignment := AlignmentRelaxed,
                       SPFAlignment := AlignmentRelaxed\<rparr>))))"

section \<open>Lookup\<close>

text \<open>The errors of the lookup of a policy: tempFailError, ErrNoPolicy and any other.\<close>

datatype lookup_error = lookupTempFail string | ErrNoPolicy | lookupOther string

fun lookup_Error :: "lookup_error \<Rightarrow> string" where
  "lookup_Error (lookupTempFail s) = ''dmarc: '' @ s"
| "lookup_Error ErrNoPolicy = ''dmarc: no policy found for domain''"
| "lookup_Error (lookupOther s) = s"

fun dmarc_IsTempFail :: "lookup_error \<Rightarrow> bool" where
  "dmarc_IsTempFail (lookupTempFail s) = True"
| "dmarc_IsTempFail e = False"

definition LookupWithOptions :: "txtLookupFunc \<Rightarrow> string \<Rightarrow> lookup_error + dmarc_record" where
  "LookupWithOptions lookupTXT domain =
     (case lookupTXT (''_dmarc.'' @ domain) of
        Inl (DnsTemporary err) \<Rightarrow> Inl (lookupTempFail (''TXT record unavailable: '' @ err))
      | Inl (DnsNotFound err) \<Rightarrow> Inl ErrNoPolicy
      | Inl (DnsOther err) \<Rightarrow> Inl (lookupOther (''dmarc: failed to lookup TXT record: '' @ err))
      | Inr txts \<Rightarrow>
          if txts = [] then Inl ErrNoPolicy
          else map_sum lookupOther id (dmarc_Parse (concat txts)))"

definition dmarc_Lookup :: "txtLookupFunc \<Rightarrow> string \<Rightarrow> lookup_error + dmarc_record" where
  "dmarc_Lookup netLookupTXT domain = LookupWithOptions netLookupTXT domain"

section \<open>What a parsed record is\<close>

definition valid_policy :: "string \<Rightarrow> bool" where
  "valid_policy p \<longleftrightarrow> p \<in> {PolicyNone, PolicyQuarantine, PolicyReject}"

definition valid_alignment :: "string \<Rightarrow> bool" where
  "valid_alignment a \<longleftrightarrow> a \<in> {AlignmentStrict, AlignmentRelaxed}"

definition record_ok :: "dmarc_record \<Rightarrow> bool" where
  "record_ok r \<longleftrightarrow> valid_policy (Policy r) \<and> valid_alignment (DKIMAlignment r) \<and>
     valid_alignment (SPFAlignment r) \<and> (\<forall>n. bit (FailureOpts r) n \<longrightarrow> n < 4) \<and>
     (\<forall>p. Percent r = Some p \<longrightarrow> 0 \<le> p \<and> p \<le> 100) \<and>
     (\<forall>f \<in> set (ReportFormat r). f = ReportFormatAFRF) \<and>
     (SubdomainPolicy r = [] \<or> valid_policy (SubdomainPolicy r))"

lemma optional_keeps:
  assumes "optional params tag parse upd r = Inr rec'" "\<And>rec. r = Inr rec \<Longrightarrow> Q rec"
    and "\<And>rec s v. map_of params tag = Some s \<Longrightarrow> parse s = Inr v \<Longrightarrow> Q rec \<Longrightarrow> Q (upd v rec)"
  shows "Q rec'"
  using assms by (auto simp: optional_def split: sum.splits option.splits)

lemma parsePolicy_Inr: "parsePolicy s p = Inr v \<Longrightarrow> valid_policy v"
  by (auto simp: parsePolicy_def valid_policy_def PolicyNone_def PolicyQuarantine_def PolicyReject_def
    split: if_splits)

lemma parseAlignmentMode_Inr: "parseAlignmentMode s p = Inr v \<Longrightarrow> valid_alignment v"
  by (auto simp: parseAlignmentMode_def valid_alignment_def AlignmentStrict_def AlignmentRelaxed_def
    split: if_splits)

text \<open>The flag of each failure option, by its number.\<close>

definition option_names :: "string list" where
  "option_names = [''0'', ''1'', ''d'', ''s'']"

lemma failure_option_bit:
  "failure_option x = Some f \<Longrightarrow> bit f n \<longleftrightarrow> n < 4 \<and> option_names ! n = x"
proof -
  have "bit (1 :: 64 word) n \<longleftrightarrow> n = 0" "bit (2 :: 64 word) n \<longleftrightarrow> n = 1"
    "bit (4 :: 64 word) n \<longleftrightarrow> n = 2" "bit (8 :: 64 word) n \<longleftrightarrow> n = 3"
    using bit_exp_iff [where 'a = "64 word", of 0 n] bit_exp_iff [where 'a = "64 word", of 1 n]
      bit_exp_iff [where 'a = "64 word", of 2 n] bit_exp_iff [where 'a = "64 word", of 3 n] by auto
  moreover assume "failure_option x = Some f"
  ultimately show ?thesis
    by (auto simp: failure_option_def FailureAll_def FailureAny_def FailureDKIM_def FailureSPF_def
      option_names_def less_Suc_eq numeral_eq_Suc split: if_splits)
qed

lemma parseFailureOptions_bits:
  "parseFailureOptions_loop opts l = Inr r \<Longrightarrow>
     bit r n \<longleftrightarrow> bit opts n \<or> (n < 4 \<and> option_names ! n \<in> trim_space ` set l)"
  by (induction opts l rule: parseFailureOptions_loop.induct)
    (auto simp: bit_or_iff failure_option_bit split: option.splits)

lemma parseFields_keeps:
  assumes "parseFields params rec0 = Inr r" "record_ok rec0"
  shows "record_ok r"
proof -
  have q: "Q r'" if "optional params tag parse upd r0 = Inr r'" "\<And>rec. r0 = Inr rec \<Longrightarrow> Q rec"
    "\<And>rec s v. parse s = Inr v \<Longrightarrow> Q rec \<Longrightarrow> Q (upd v rec)" for Q tag r0 r' and parse :: "string \<Rightarrow> string + 'b" and upd
    using that by (rule optional_keeps)
  show ?thesis using assms(1) unfolding parseFields_def parseReporting_def parseModes_def Let_def
  proof (elim q)
    show "record_ok rec" if "Inr rec0 = Inr rec" for rec using that assms(2) by simp
  qed (auto simp: record_ok_def parsePolicy_Inr parseAlignmentMode_Inr parsePercent_def
      parseReportFormat_def parseFailureOptions_def parseFailureOptions_bits list_all_iff Let_def
      split: option.splits if_splits)
qed

text \<open>The fields the later tags do not touch, and what the first three tags put there.\<close>

definition core :: "dmarc_record \<Rightarrow> string \<times> string \<times> string \<times> FailureOptions" where
  "core r = (Policy r, DKIMAlignment r, SPFAlignment r, FailureOpts r)"

lemma optional_Inr:
  "optional params tag parse upd r = Inr rec' \<Longrightarrow>
     \<exists>rec. r = Inr rec \<and>
       (case map_of params tag of None \<Rightarrow> rec' = rec | Some s \<Rightarrow> \<exists>v. parse s = Inr v \<and> rec' = upd v rec)"
  by (auto simp: optional_def split: sum.splits option.splits)

lemma optional_core:
  assumes "optional params tag parse upd r = Inr rec'" "\<And>v rec. core (upd v rec) = core rec"
  shows "\<exists>rec. r = Inr rec \<and> core rec' = core rec"
  using optional_Inr [OF assms(1)] assms(2) by (auto split: option.splits)

lemma parseReporting_core:
  "parseReporting params r0 = Inr r \<Longrightarrow> \<exists>r3. r0 = Inr r3 \<and> core r = core r3"
  unfolding parseReporting_def Let_def by (auto dest!: optional_core simp: core_def)

lemma parseFields_core:
  assumes "parseFields params rec0 = Inr r"
  shows "\<exists>a b f. core r = (Policy rec0, a, b, f) \<and>
    (case map_of params ''adkim'' of None \<Rightarrow> a = DKIMAlignment rec0 | Some s \<Rightarrow> a = s) \<and>
    (case map_of params ''aspf'' of None \<Rightarrow> b = SPFAlignment rec0 | Some s \<Rightarrow> b = s) \<and>
    (case map_of params ''fo'' of None \<Rightarrow> f = FailureOpts rec0 | Some s \<Rightarrow> parseFailureOptions s = Inr f)"
proof -
  let ?adkim = "optional params ''adkim'' (\<lambda>s. parseAlignmentMode s ''adkim'') (\<lambda>v r. r\<lparr>DKIMAlignment := v\<rparr>) (Inr rec0)"
  let ?aspf = "optional params ''aspf'' (\<lambda>s. parseAlignmentMode s ''aspf'') (\<lambda>v r. r\<lparr>SPFAlignment := v\<rparr>)"
  let ?fo = "optional params ''fo'' parseFailureOptions (\<lambda>v r. r\<lparr>FailureOpts := v\<rparr>)"
  have "\<exists>r3. ?fo (?aspf ?adkim) = Inr r3 \<and> core r = core r3"
    using parseReporting_core assms unfolding parseFields_def parseModes_def Let_def by blast
  then obtain r3 where r3: "?fo (?aspf ?adkim) = Inr r3" "core r = core r3" by blast
  from optional_Inr [OF r3(1)] obtain r2 where r2: "?aspf ?adkim = Inr r2"
    "case map_of params ''fo'' of None \<Rightarrow> r3 = r2
     | Some s \<Rightarrow> \<exists>v. parseFailureOptions s = Inr v \<and> r3 = r2\<lparr>FailureOpts := v\<rparr>" by blast
  from optional_Inr [OF r2(1)] obtain r1 where r1: "?adkim = Inr r1"
    "case map_of params ''aspf'' of None \<Rightarrow> r2 = r1
     | Some s \<Rightarrow> \<exists>v. parseAlignmentMode s ''aspf'' = Inr v \<and> r2 = r1\<lparr>SPFAlignment := v\<rparr>" by blast
  from optional_Inr [OF r1(1)] have r0:
    "case map_of params ''adkim'' of None \<Rightarrow> r1 = rec0
     | Some s \<Rightarrow> \<exists>v. parseAlignmentMode s ''adkim'' = Inr v \<and> r1 = rec0\<lparr>DKIMAlignment := v\<rparr>" by simp
  have p: "parseAlignmentMode s x = Inr v \<Longrightarrow> v = s" for s x v
    by (auto simp: parseAlignmentMode_def split: if_splits)
  have "Policy r1 = Policy rec0 \<and> SPFAlignment r1 = SPFAlignment rec0 \<and> FailureOpts r1 = FailureOpts rec0 \<and>
      (case map_of params ''adkim'' of None \<Rightarrow> DKIMAlignment r1 = DKIMAlignment rec0 | Some s \<Rightarrow> DKIMAlignment r1 = s)"
    using r0 by (auto split: option.splits dest: p)
  moreover have "Policy r2 = Policy r1 \<and> DKIMAlignment r2 = DKIMAlignment r1 \<and> FailureOpts r2 = FailureOpts r1 \<and>
      (case map_of params ''aspf'' of None \<Rightarrow> SPFAlignment r2 = SPFAlignment r1 | Some s \<Rightarrow> SPFAlignment r2 = s)"
    using r1(2) by (auto split: option.splits dest: p)
  moreover have "Policy r3 = Policy r2 \<and> DKIMAlignment r3 = DKIMAlignment r2 \<and> SPFAlignment r3 = SPFAlignment r2 \<and>
      (case map_of params ''fo'' of None \<Rightarrow> FailureOpts r3 = FailureOpts r2
       | Some s \<Rightarrow> parseFailureOptions s = Inr (FailureOpts r3))"
    using r2(2) by (auto split: option.splits)
  ultimately show ?thesis unfolding r3(2) by (simp add: core_def cong: option.case_cong)
qed

text \<open>What the parser starts from, and that every record it returns is well-formed.\<close>

definition first_Record :: "string \<Rightarrow> dmarc_record" where
  "first_Record policy = new_Record\<lparr>Policy := policy, DKIMAlignment := AlignmentRelaxed, SPFAlignment := AlignmentRelaxed\<rparr>"

lemma dmarc_Parse_Inr:
  "dmarc_Parse s = Inr r \<Longrightarrow> \<exists>params policy. parseParams s = Inr params \<and> dict_get params ''v'' = ''DMARC1'' \<and>
     map_of params ''p'' = Some policy \<and> parseFields params (first_Record policy) = Inr r \<and> valid_policy policy"
  by (auto simp: dmarc_Parse_def parsePolicy_def first_Record_def valid_policy_def PolicyNone_def
    PolicyQuarantine_def PolicyReject_def split: sum.splits if_splits option.splits)

lemma dmarc_Parse_ok: "dmarc_Parse s = Inr r \<Longrightarrow> record_ok r"
proof -
  assume "dmarc_Parse s = Inr r"
  from dmarc_Parse_Inr [OF this] obtain params policy where
    "parseFields params (first_Record policy) = Inr r" "valid_policy policy" by blast
  moreover from this(2) have "record_ok (first_Record policy)"
    by (simp add: record_ok_def first_Record_def new_Record_def valid_alignment_def)
  ultimately show ?thesis using parseFields_keeps by blast
qed

text \<open>
  C38: A DMARC record that parses is well-formed: its policy is none, quarantine or reject, its
  alignment modes are strict or relaxed (relaxed if the tag is missing), its percentage lies between
  0 and 100, no failure flag but the four is set and a flag is set exactly if the fo tag lists its
  option, all report formats are afrf, and the policy for subdomains is missing or valid.
\<close>

theorem dmarc_Parse_valid:
  assumes "dmarc_Parse s = Inr r"
  shows "record_ok r \<and>
    (\<exists>params. parseParams s = Inr params \<and> dict_get params ''v'' = ''DMARC1'' \<and>
       map_of params ''p'' = Some (Policy r) \<and>
       DKIMAlignment r = (case map_of params ''adkim'' of None \<Rightarrow> AlignmentRelaxed | Some a \<Rightarrow> a) \<and>
       SPFAlignment r = (case map_of params ''aspf'' of None \<Rightarrow> AlignmentRelaxed | Some a \<Rightarrow> a) \<and>
       (\<forall>n < 4. bit (FailureOpts r) n \<longleftrightarrow>
          (\<exists>fo. map_of params ''fo'' = Some fo \<and> option_names ! n \<in> trim_space ` set (split_on CHR '':'' fo))))"
proof -
  from dmarc_Parse_Inr [OF assms] obtain params policy where
    p: "parseParams s = Inr params" "dict_get params ''v'' = ''DMARC1''" "map_of params ''p'' = Some policy"
    and f: "parseFields params (first_Record policy) = Inr r" by blast
  have "Policy r = policy \<and>
       DKIMAlignment r = (case map_of params ''adkim'' of None \<Rightarrow> AlignmentRelaxed | Some a \<Rightarrow> a) \<and>
       SPFAlignment r = (case map_of params ''aspf'' of None \<Rightarrow> AlignmentRelaxed | Some a \<Rightarrow> a)"
    using parseFields_core [OF f] by (auto simp: core_def first_Record_def split: option.splits)
  moreover have "case map_of params ''fo'' of None \<Rightarrow> FailureOpts r = 0
      | Some fo \<Rightarrow> parseFailureOptions fo = Inr (FailureOpts r)"
    using parseFields_core [OF f] by (auto simp: core_def first_Record_def new_Record_def split: option.splits)
  ultimately show ?thesis using p dmarc_Parse_ok [OF assms]
    by (auto simp: parseFailureOptions_def parseFailureOptions_bits split: option.splits)
qed

lemma dmarc_Parse_valid_witness:
  "\<exists>r. dmarc_Parse ''v=DMARC1; p=reject; aspf=s; fo=1:d; pct=50'' = Inr r \<and> record_ok r \<and>
     Policy r = ''reject'' \<and> bit (FailureOpts r) 2"
proof -
  let ?s = "''v=DMARC1; p=reject; aspf=s; fo=1:d; pct=50''"
  have "case dmarc_Parse ?s of Inl _ \<Rightarrow> False | Inr r \<Rightarrow> Policy r = ''reject'' \<and> bit (FailureOpts r) 2"
    by code_simp
  then obtain r where r: "dmarc_Parse ?s = Inr r" "Policy r = ''reject''" "bit (FailureOpts r) 2"
    by (auto split: sum.splits)
  from dmarc_Parse_valid [OF r(1)] r show ?thesis by blast
qed

end
