(* ===== verification/Authres.thy ===== *)
theory Authres imports Go_Dict begin

text \<open>
  middleware/authres/parse.go and format.go: the Authentication-Results header field. Every result
  of Go is a record, Result is their sum. Two things of Go are arguments: rng, the order in which a
  range over a map visits its entries (only SenderIDResult.parse depends on it), and uni, whether
  the code points of a string outside ASCII are all letters or digits (the Unicode tables).
\<close>

section \<open>Results\<close>

definition ResultNone :: string where "ResultNone = ''none''"
definition ResultPass :: string where "ResultPass = ''pass''"
definition ResultFail :: string where "ResultFail = ''fail''"
definition ResultPolicy :: string where "ResultPolicy = ''policy''"
definition ResultNeutral :: string where "ResultNeutral = ''neutral''"
definition ResultTempError :: string where "ResultTempError = ''temperror''"
definition ResultPermError :: string where "ResultPermError = ''permerror''"
definition ResultHardFail :: string where "ResultHardFail = ''hardfail''"
definition ResultSoftFail :: string where "ResultSoftFail = ''softfail''"

record AuthResult =
  au_Value :: string
  au_Reason :: string
  au_Auth :: string

record DKIMResult =
  dk_Value :: string
  dk_Reason :: string
  dk_Domain :: string
  dk_Identifier :: string
  dk_Selector :: string
  dk_Signature :: string

record DomainKeysResult =
  dks_Value :: string
  dks_Reason :: string
  dks_Domain :: string
  dks_From :: string
  dks_Sender :: string

record IPRevResult =
  ip_Value :: string
  ip_Reason :: string
  ip_IP :: string

record SenderIDResult =
  si_Value :: string
  si_Reason :: string
  si_HeaderKey :: string
  si_HeaderValue :: string

record SPFResult =
  spf_Value :: string
  spf_Reason :: string
  spf_From :: string
  spf_Helo :: string

record DMARCResult =
  dm_Value :: string
  dm_Reason :: string
  dm_From :: string

record ARCResult =
  arc_Value :: string
  arc_RemoteIP :: string
  arc_OldestPass :: int

record GenericResult =
  ge_Method :: string
  ge_Value :: string
  ge_Params :: dict

datatype result =
    Auth AuthResult | DKIM DKIMResult | DomainKeys DomainKeysResult | IPRev IPRevResult
  | SenderID SenderIDResult | SPF SPFResult | DMARC DMARCResult | ARC ARCResult | Generic GenericResult

section \<open>Parsing (parse.go)\<close>

type_synonym map_range = "dict \<Rightarrow> (string \<times> string) list"

definition parse_Auth :: "string \<Rightarrow> dict \<Rightarrow> result" where
  "parse_Auth value params = Auth \<lparr>au_Value = value, au_Reason = dict_get params ''reason'',
     au_Auth = dict_get params ''smtp.auth''\<rparr>"

definition parse_DKIM :: "string \<Rightarrow> dict \<Rightarrow> result" where
  "parse_DKIM value params = DKIM \<lparr>dk_Value = value, dk_Reason = dict_get params ''reason'',
     dk_Domain = dict_get params ''header.d'', dk_Identifier = dict_get params ''header.i'',
     dk_Selector = dict_get params ''header.s'', dk_Signature = dict_get params ''header.b''\<rparr>"

definition parse_DomainKeys :: "string \<Rightarrow> dict \<Rightarrow> result" where
  "parse_DomainKeys value params = DomainKeys \<lparr>dks_Value = value, dks_Reason = dict_get params ''reason'',
     dks_Domain = dict_get params ''header.d'', dks_From = dict_get params ''header.from'',
     dks_Sender = dict_get params ''header.sender''\<rparr>"

definition parse_IPRev :: "string \<Rightarrow> dict \<Rightarrow> result" where
  "parse_IPRev value params = IPRev \<lparr>ip_Value = value, ip_Reason = dict_get params ''reason'',
     ip_IP = dict_get params ''policy.iprev''\<rparr>"

definition parse_SenderID :: "map_range \<Rightarrow> string \<Rightarrow> dict \<Rightarrow> result" where
  "parse_SenderID rng value params =
     (let found = filter (\<lambda>(k, v). has_prefix k ''header.'') (rng params);
          (hk, hv) = (case found of [] \<Rightarrow> ([], []) | (k, v) # _ \<Rightarrow> (drop (length ''header.'') k, v))
      in SenderID \<lparr>si_Value = value, si_Reason = dict_get params ''reason'',
           si_HeaderKey = hk, si_HeaderValue = hv\<rparr>)"

definition parse_SPF :: "string \<Rightarrow> dict \<Rightarrow> result" where
  "parse_SPF value params = SPF \<lparr>spf_Value = value, spf_Reason = dict_get params ''reason'',
     spf_From = dict_get params ''smtp.mailfrom'', spf_Helo = dict_get params ''smtp.helo''\<rparr>"

definition parse_DMARC :: "string \<Rightarrow> dict \<Rightarrow> result" where
  "parse_DMARC value params = DMARC \<lparr>dm_Value = value, dm_Reason = dict_get params ''reason'',
     dm_From = dict_get params ''header.from''\<rparr>"

text \<open>On an error the result is left as it was made, and returned with the error.\<close>

definition parse_ARC :: "string \<Rightarrow> dict \<Rightarrow> result \<times> string option" where
  "parse_ARC value params =
     (let empty = ARC \<lparr>arc_Value = [], arc_RemoteIP = [], arc_OldestPass = 0\<rparr>;
          ok = (\<lambda>n. (ARC \<lparr>arc_Value = value, arc_RemoteIP = dict_get params ''smtp.remote-ip'',
                      arc_OldestPass = n\<rparr>, None))
      in case map_of params ''header.oldest-pass'' of
           None \<Rightarrow> ok 0
         | Some s \<Rightarrow>
             (case parse_int64 s of
                None \<Rightarrow> (empty, Some (''invalid header.oldest-pass param: '' @ strconv_error ''Atoi'' s))
              | Some n \<Rightarrow>
                  if n \<le> 0 then (empty, Some ''invalid header.oldest-pass param: must be >= 1'') else ok n))"

text \<open>The table results, with GenericResult for the other methods.\<close>

definition parse_method :: "map_range \<Rightarrow> string \<Rightarrow> string \<Rightarrow> dict \<Rightarrow> result \<times> string option" where
  "parse_method rng method value params =
     (if method = ''arc'' then parse_ARC value params
      else if method = ''auth'' then (parse_Auth value params, None)
      else if method = ''dkim'' then (parse_DKIM value params, None)
      else if method = ''domainkeys'' then (parse_DomainKeys value params, None)
      else if method = ''iprev'' then (parse_IPRev value params, None)
      else if method = ''sender-id'' then (parse_SenderID rng value params, None)
      else if method = ''spf'' then (parse_SPF value params, None)
      else if method = ''dmarc'' then (parse_DMARC value params, None)
      else (Generic \<lparr>ge_Method = method, ge_Value = value, ge_Params = params\<rparr>, None))"

definition parseParam :: "string \<Rightarrow> string + string \<times> string" where
  "parseParam s =
     (case go_cut s ''='' of (k, v, ok) \<Rightarrow>
        if \<not> ok then Inl ''msgauth: malformed authentication method and value''
        else Inr (to_lower (trim_space k), trim_space v))"

text \<open>The parameters after the method; malformed ones are passed over.\<close>

fun collect_params :: "dict \<Rightarrow> string list \<Rightarrow> dict" where
  "collect_params params [] = params"
| "collect_params params (p # ps) =
     (case parseParam p of
        Inl _ \<Rightarrow> collect_params params ps
      | Inr (k, v) \<Rightarrow> collect_params (dict_put k v params) ps)"

definition parseResult :: "map_range \<Rightarrow> string \<Rightarrow> result option \<times> string option" where
  "parseResult rng s =
     (case go_fields s of
        [] \<Rightarrow> (None, None)
      | part # parts \<Rightarrow>
          if part = ''none'' then (None, None)
          else (case parseParam part of
              Inl err \<Rightarrow> (None, Some err)
            | Inr (method, v) \<Rightarrow>
                (case parse_method rng method (to_lower v) (collect_params [] parts) of
                   (r, err) \<Rightarrow> (Some r, err))))"

fun index_space :: "nat \<Rightarrow> string \<Rightarrow> nat option" where
  "index_space i [] = None"
| "index_space i (c # s) = (if 0 < space_width (c # s) then Some i else index_space (Suc i) s)"

text \<open>What Parse returns: the identifier, the results so far and the error.\<close>

type_synonym parsed = "string \<times> result list \<times> string option"

fun parse_parts :: "map_range \<Rightarrow> string \<Rightarrow> result list \<Rightarrow> string list \<Rightarrow> parsed" where
  "parse_parts rng ident results [] = (ident, results, None)"
| "parse_parts rng ident results (p # ps) =
     (let s = trim_space p in
      if s = [] then parse_parts rng ident results ps
      else case parseResult rng s of
          (_, Some err) \<Rightarrow> (ident, results, Some err)
        | (None, None) \<Rightarrow> parse_parts rng ident results ps
        | (Some r, None) \<Rightarrow> parse_parts rng ident (results @ [r]) ps)"

definition authres_Parse :: "map_range \<Rightarrow> string \<Rightarrow> parsed" where
  "authres_Parse rng v =
     (case split_on CHR '';'' v of
        [] \<Rightarrow> ([], [], None)
      | part # parts \<Rightarrow>
          (let ident = trim_space part
           in case index_space 0 ident of
                Some (Suc n) \<Rightarrow>
                  if trim_space (drop (Suc n) ident) \<noteq> ''1''
                  then ([], [], Some ''msgauth: unsupported version'')
                  else parse_parts rng (take (Suc n) ident) [] parts
              | _ \<Rightarrow> parse_parts rng ident [] parts))"

section \<open>Formatting (format.go)\<close>

definition resultMethod :: "result \<Rightarrow> string" where
  "resultMethod r =
     (case r of Auth _ \<Rightarrow> ''auth'' | DKIM _ \<Rightarrow> ''dkim'' | DomainKeys _ \<Rightarrow> ''domainkeys''
      | IPRev _ \<Rightarrow> ''iprev'' | SenderID _ \<Rightarrow> ''sender-id'' | SPF _ \<Rightarrow> ''spf'' | DMARC _ \<Rightarrow> ''dmarc''
      | Generic g \<Rightarrow> ge_Method g | ARC _ \<Rightarrow> [])"

definition format_Auth :: "AuthResult \<Rightarrow> string \<times> dict" where
  "format_Auth r = (au_Value r, [(''smtp.auth'', au_Auth r)])"

definition format_DKIM :: "DKIMResult \<Rightarrow> string \<times> dict" where
  "format_DKIM r = (dk_Value r,
     [(''reason'', dk_Reason r), (''header.d'', dk_Domain r), (''header.i'', dk_Identifier r),
      (''header.s'', dk_Selector r), (''header.b'', dk_Signature r)])"

definition format_DomainKeys :: "DomainKeysResult \<Rightarrow> string \<times> dict" where
  "format_DomainKeys r = (dks_Value r,
     [(''reason'', dks_Reason r), (''header.d'', dks_Domain r), (''header.from'', dks_From r),
      (''header.sender'', dks_Sender r)])"

definition format_IPRev :: "IPRevResult \<Rightarrow> string \<times> dict" where
  "format_IPRev r = (ip_Value r, [(''reason'', ip_Reason r), (''policy.iprev'', ip_IP r)])"

definition format_SenderID :: "SenderIDResult \<Rightarrow> string \<times> dict" where
  "format_SenderID r = (si_Value r,
     dict_put (''header.'' @ to_lower (si_HeaderKey r)) (si_HeaderValue r) [(''reason'', si_Reason r)])"

definition format_SPF :: "SPFResult \<Rightarrow> string \<times> dict" where
  "format_SPF r = (spf_Value r,
     [(''reason'', spf_Reason r), (''smtp.mailfrom'', spf_From r), (''smtp.helo'', spf_Helo r)])"

definition format_DMARC :: "DMARCResult \<Rightarrow> string \<times> dict" where
  "format_DMARC r = (dm_Value r, [(''reason'', dm_Reason r), (''header.from'', dm_From r)])"

definition format_ARC :: "ARCResult \<Rightarrow> string \<times> dict" where
  "format_ARC r = (arc_Value r,
     [(''smtp.remote-ip'', arc_RemoteIP r),
      (''header.oldest-pass'', if 0 < arc_OldestPass r then show_int (arc_OldestPass r) else [])])"

definition format_Generic :: "GenericResult \<Rightarrow> string \<times> dict" where
  "format_Generic r = (ge_Value r, ge_Params r)"

text \<open>The method format of the interface Result.\<close>

definition result_format :: "result \<Rightarrow> string \<times> dict" where
  "result_format r =
     (case r of
        Auth a \<Rightarrow> format_Auth a | DKIM d \<Rightarrow> format_DKIM d | DomainKeys d \<Rightarrow> format_DomainKeys d
      | IPRev i \<Rightarrow> format_IPRev i | SenderID s \<Rightarrow> format_SenderID s | SPF s \<Rightarrow> format_SPF s
      | DMARC d \<Rightarrow> format_DMARC d | ARC a \<Rightarrow> format_ARC a | Generic g \<Rightarrow> format_Generic g)"

lemmas result_format_defs = result_format_def format_Auth_def format_DKIM_def format_DomainKeys_def
  format_IPRev_def format_SenderID_def format_SPF_def format_DMARC_def format_ARC_def format_Generic_def

definition tspecials :: "char list" where
  "tspecials = ''()<>@,;:'' @ [BACKSLASH, QUOTE] @ ''/[]?=''"

definition formatValue :: "string \<Rightarrow> string" where
  "formatValue s =
     (if \<exists>ch \<in> set s. byte ch \<le> 32 \<or> ch \<in> set tspecials
      then QUOTE # concat (map (\<lambda>c. if c = QUOTE then [BACKSLASH, QUOTE] else [c]) s) @ [QUOTE]
      else s)"

definition addressOk :: "char list" where
  "addressOk = ''#$%&'' @ [CHR 0x27] @ ''*+,./-@[]'' @ [BACKSLASH] @ ''^_`{|}~''"

definition formatPvalue :: "(string \<Rightarrow> bool) \<Rightarrow> string \<Rightarrow> string" where
  "formatPvalue uni s =
     (if (\<forall>ch \<in> set s. byte ch < 128 \<longrightarrow> is_upper ch \<or> is_lower ch \<or> is_digit ch \<or> ch \<in> set addressOk)
        \<and> uni s
      then s else formatValue s)"

definition format_keys :: "dict \<Rightarrow> string list" where
  "format_keys params =
     (let keys = sort (filter (\<lambda>k. k \<noteq> ''reason'') (dict_keys params))
      in if dict_get params ''reason'' \<noteq> [] then ''reason'' # keys else keys)"

definition format_param :: "(string \<Rightarrow> bool) \<Rightarrow> dict \<Rightarrow> string \<Rightarrow> string" where
  "format_param uni params k =
     k @ ''='' @ (if k = ''reason'' then formatValue (dict_get params k) else formatPvalue uni (dict_get params k))"

text \<open>A space before every parameter but the first; empty ones are left out.\<close>

definition formatParams :: "(string \<Rightarrow> bool) \<Rightarrow> dict \<Rightarrow> string" where
  "formatParams uni params =
     join '' '' (map (format_param uni params) (filter (\<lambda>k. dict_get params k \<noteq> []) (format_keys params)))"

definition format_result :: "(string \<Rightarrow> bool) \<Rightarrow> result \<Rightarrow> string" where
  "format_result uni r =
     (case result_format r of (value, params) \<Rightarrow>
        '';'' @ crlf @ ''  '' @ resultMethod r @ ''='' @ value @ '' '' @ formatParams uni params)"

definition authres_Format :: "(string \<Rightarrow> bool) \<Rightarrow> string \<Rightarrow> result list \<Rightarrow> string" where
  "authres_Format uni identity results =
     (if results = [] then identity @ '';'' @ crlf @ ''  none''
      else identity @ concat (map (format_result uni) results))"

section \<open>Parsing what was formatted\<close>

text \<open>Texts that are written as they are: reasons, values of parameters, methods and result values.\<close>

definition reason_plain :: "string \<Rightarrow> bool" where
  "reason_plain s \<longleftrightarrow> (\<forall>c \<in> set s. 32 < byte c \<and> byte c < 128 \<and> c \<notin> set tspecials)"

definition pvalue_plain :: "string \<Rightarrow> bool" where
  "pvalue_plain s \<longleftrightarrow>
     (\<forall>c \<in> set s. byte c < 128 \<and> (is_upper c \<or> is_lower c \<or> is_digit c \<or> c \<in> set addressOk))"

definition word_ok :: "string \<Rightarrow> bool" where
  "word_ok s \<longleftrightarrow> (\<forall>c \<in> set s. plain c \<and> c \<noteq> CHR '';'')"

definition name_ok :: "string \<Rightarrow> bool" where
  "name_ok s \<longleftrightarrow> word_ok s \<and> CHR ''='' \<notin> set s \<and> to_lower s = s"

text \<open>The Unicode tables agree with the test on ASCII: there is no code point outside it.\<close>

definition unicode_ok :: "(string \<Rightarrow> bool) \<Rightarrow> bool" where
  "unicode_ok uni \<longleftrightarrow> (\<forall>s. is_ascii s \<longrightarrow> uni s)"

lemma reason_plain_word: "reason_plain s \<Longrightarrow> formatValue s = s \<and> word_ok s"
proof
  assume r: "reason_plain s"
  then show "formatValue s = s" by (auto simp: reason_plain_def formatValue_def)
  have "CHR '';'' \<in> set tspecials" by code_simp
  moreover have "plain c" if "32 < byte c" "byte c < 128" for c
    using that by (auto simp: plain_def ascii_space_def)
  ultimately show "word_ok s" using r unfolding reason_plain_def word_ok_def by metis
qed

lemma addressOk_plain: "\<forall>c \<in> set addressOk. plain c \<and> c \<noteq> CHR '';''"
  by code_simp

lemma alnum_plain: "is_upper c \<or> is_lower c \<or> is_digit c \<Longrightarrow> plain c \<and> c \<noteq> CHR '';''"
  by (auto simp: is_upper_def is_lower_def is_digit_def plain_def ascii_space_def)

lemma pvalue_plain_word:
  assumes "pvalue_plain s" "unicode_ok uni"
  shows "formatPvalue uni s = s \<and> word_ok s"
proof -
  have "is_ascii s" using assms(1) by (simp add: pvalue_plain_def is_ascii_def)
  with assms have "formatPvalue uni s = s"
    by (auto simp: formatPvalue_def pvalue_plain_def unicode_ok_def)
  moreover have "word_ok s"
    using assms(1) addressOk_plain alnum_plain unfolding pvalue_plain_def word_ok_def by blast
  ultimately show ?thesis by blast
qed

text \<open>One parameter, and all of them.\<close>

lemma word_ok_trim [simp]: "word_ok s \<Longrightarrow> trim_space s = s"
  by (simp add: word_ok_def trim_space_all_plain)

lemma parseParam_word:
  "name_ok k \<Longrightarrow> word_ok v \<Longrightarrow> parseParam (k @ CHR ''='' # v) = Inr (k, v)"
  by (simp add: parseParam_def name_ok_def go_cut_char)

lemma collect_params_words:
  "(\<forall>k \<in> set ks. name_ok k \<and> word_ok (f k)) \<Longrightarrow>
     map_of (collect_params d (map (\<lambda>k. k @ CHR ''='' # f k) ks)) k =
     (if k \<in> set ks then Some (f k) else map_of d k)"
  by (induction ks arbitrary: d) (auto simp: parseParam_word)

definition params_ok :: "dict \<Rightarrow> bool" where
  "params_ok params \<longleftrightarrow> dict_ok params \<and> (\<forall>(k, v) \<in> set params. name_ok k \<and>
     (if k = ''reason'' then reason_plain v else pvalue_plain v))"

definition shown_keys :: "dict \<Rightarrow> string list" where
  "shown_keys params = filter (\<lambda>k. dict_get params k \<noteq> []) (format_keys params)"

lemma set_shown_keys: "k \<in> set (shown_keys params) \<longleftrightarrow> dict_get params k \<noteq> []"
  by (auto simp: shown_keys_def format_keys_def set_dict_keys dict_get_def Let_def split: option.splits)

lemma shown_param:
  assumes "params_ok params" "unicode_ok uni" "k \<in> set (shown_keys params)"
  shows "format_param uni params k = k @ CHR ''='' # dict_get params k"
    and "name_ok k" "word_ok (dict_get params k)"
proof -
  obtain v where "map_of params k = Some v" "dict_get params k = v"
    using assms(3) by (auto simp: set_shown_keys dict_get_def split: option.splits)
  then have "(k, v) \<in> set params" "dict_get params k = v" by (auto dest: map_of_SomeD)
  with assms(1) have "name_ok k" "if k = ''reason'' then reason_plain (dict_get params k)
      else pvalue_plain (dict_get params k)" by (auto simp: params_ok_def)
  then show "format_param uni params k = k @ CHR ''='' # dict_get params k"
    "name_ok k" "word_ok (dict_get params k)"
    using reason_plain_word pvalue_plain_word [OF _ assms(2)] by (auto simp: format_param_def split: if_splits)
qed

lemma collect_shown:
  assumes "params_ok params" "unicode_ok uni"
  shows "dict_get (collect_params [] (map (format_param uni params) (shown_keys params))) = dict_get params"
proof
  fix k
  have m: "map (format_param uni params) (shown_keys params)
      = map (\<lambda>k. k @ CHR ''='' # dict_get params k) (shown_keys params)"
    using shown_param(1) [OF assms] by simp
  have "map_of (collect_params [] (map (format_param uni params) (shown_keys params))) k
      = (if k \<in> set (shown_keys params) then Some (dict_get params k) else None)"
    unfolding m using collect_params_words [of "shown_keys params" "dict_get params" "[]" k]
      shown_param(2,3) [OF assms] by simp
  then show "dict_get (collect_params [] (map (format_param uni params) (shown_keys params))) k = dict_get params k"
    by (auto simp: dict_get_def [of "collect_params _ _"] set_shown_keys)
qed

text \<open>The text of one result, without the semicolon before it, and its words.\<close>

definition result_words :: "(string \<Rightarrow> bool) \<Rightarrow> result \<Rightarrow> string list" where
  "result_words uni r =
     (resultMethod r @ CHR ''='' # fst (result_format r)) #
     map (format_param uni (snd (result_format r))) (shown_keys (snd (result_format r)))"

definition result_text :: "(string \<Rightarrow> bool) \<Rightarrow> result \<Rightarrow> string" where
  "result_text uni r =
     crlf @ ''  '' @ hd (result_words uni r) @ '' '' @ join '' '' (tl (result_words uni r))"

lemma format_result_text: "format_result uni r = CHR '';'' # result_text uni r"
  by (simp add: format_result_def result_text_def result_words_def formatParams_def shown_keys_def case_prod_beta)

text \<open>Results that Parse can give back: their texts need no quoting, and Format shows all of them.\<close>

definition round_ok :: "result \<Rightarrow> bool" where
  "round_ok r \<longleftrightarrow> word_ok (fst (result_format r)) \<and> to_lower (fst (result_format r)) = fst (result_format r) \<and>
     params_ok (snd (result_format r)) \<and>
     (case r of Auth a \<Rightarrow> au_Reason a = [] | SenderID _ \<Rightarrow> False | ARC _ \<Rightarrow> False | Generic _ \<Rightarrow> False
      | _ \<Rightarrow> True)"

lemma round_ok_method: "round_ok r \<Longrightarrow> name_ok (resultMethod r)"
  by (cases r) (simp_all add: round_ok_def resultMethod_def name_ok_def word_ok_def plain_def
    ascii_space_def lower_char_def is_upper_def)

lemma result_words_ok:
  assumes "round_ok r" "unicode_ok uni" "w \<in> set (result_words uni r)"
  shows "word_ok w \<and> w \<noteq> []"
proof -
  have p: "params_ok (snd (result_format r))" using assms(1) by (simp add: round_ok_def)
  have eq: "plain CHR ''=''" by (simp add: plain_def ascii_space_def)
  from assms(3) consider "w = resultMethod r @ CHR ''='' # fst (result_format r)"
    | k where "k \<in> set (shown_keys (snd (result_format r)))" "w = format_param uni (snd (result_format r)) k"
    by (auto simp: result_words_def)
  then show ?thesis
  proof cases
    case 1
    then show ?thesis using assms(1) round_ok_method [OF assms(1)] eq
      by (auto simp: round_ok_def name_ok_def word_ok_def)
  next
    case (2 k)
    then show ?thesis using shown_param [OF p assms(2) 2(1)] eq
      by (auto simp: name_ok_def word_ok_def)
  qed
qed

lemma go_fields_text:
  assumes "\<forall>w \<in> set (w0 # ws). word_ok w \<and> w \<noteq> []"
  shows "trim_space (crlf @ ''  '' @ w0 @ '' '' @ join '' '' ws) = join '' '' (w0 # ws)"
    and "go_fields (join '' '' (w0 # ws)) = w0 # ws" "join '' '' (w0 # ws) \<noteq> []"
proof -
  have "hd (join '' '' (w0 # ws)) = hd w0" using assms by (cases ws) simp_all
  moreover have "join '' '' (w0 # ws) \<noteq> [] \<and> last (join '' '' (w0 # ws)) = last (last (w0 # ws))"
    using assms by (intro last_join) auto
  moreover have "word_ok (last (w0 # ws)) \<and> last (w0 # ws) \<noteq> []"
    using assms last_in_set [of "w0 # ws"] by blast
  ultimately have p: "plain (hd (join '' '' (w0 # ws)))" "plain (last (join '' '' (w0 # ws)))"
    and ne: "join '' '' (w0 # ws) \<noteq> []"
    using assms hd_in_set [of w0] last_in_set [of "last (w0 # ws)"] by (auto simp: word_ok_def)
  then show "join '' '' (w0 # ws) \<noteq> []" by simp
  have "crlf @ ''  '' @ w0 @ '' '' @ join '' '' ws
      = (crlf @ ''  '') @ join '' '' (w0 # ws) @ (if ws = [] then '' '' else [])"
    by (cases ws) simp_all
  then show "trim_space (crlf @ ''  '' @ w0 @ '' '' @ join '' '' ws) = join '' '' (w0 # ws)"
    using p by (simp only:) (rule trim_space_core, simp_all)
  show "go_fields (join '' '' (w0 # ws)) = w0 # ws"
    using assms by (intro fields_join) (auto simp: word_ok_def)
qed

lemma parse_method_round:
  assumes "round_ok r" "dict_get d = dict_get (snd (result_format r))"
  shows "parse_method rng (resultMethod r) (fst (result_format r)) d = (r, None)"
  using assms by (cases r)
    (simp_all add: round_ok_def resultMethod_def result_format_defs parse_method_def parse_Auth_def
      parse_DKIM_def parse_DomainKeys_def parse_IPRev_def parse_SPF_def parse_DMARC_def dict_get_def [of "_ # _"])

lemma parseResult_round:
  assumes "round_ok r" "unicode_ok uni"
  shows "trim_space (result_text uni r) \<noteq> [] \<and>
    parseResult rng (trim_space (result_text uni r)) = (Some r, None)"
proof -
  let ?w0 = "resultMethod r @ CHR ''='' # fst (result_format r)"
    and ?ws = "map (format_param uni (snd (result_format r))) (shown_keys (snd (result_format r)))"
  have w: "\<forall>w \<in> set (?w0 # ?ws). word_ok w \<and> w \<noteq> []"
    using result_words_ok [OF assms] by (simp add: result_words_def)
  have t: "trim_space (result_text uni r) = join '' '' (?w0 # ?ws)"
    using go_fields_text(1) [OF w] by (simp add: result_text_def result_words_def)
  have p: "params_ok (snd (result_format r))" using assms(1) by (simp add: round_ok_def)
  have "?w0 \<noteq> ''none''"
  proof
    assume "?w0 = ''none''"
    then have "CHR ''='' \<in> set ''none''" by (metis in_set_conv_decomp)
    then show False by simp
  qed
  moreover have "parseParam ?w0 = Inr (resultMethod r, fst (result_format r))"
    using assms(1) round_ok_method [OF assms(1)] by (intro parseParam_word) (auto simp: round_ok_def)
  ultimately have "parseResult rng (join '' '' (?w0 # ?ws)) = (Some r, None)"
    using parse_method_round [OF assms(1) collect_shown [OF p assms(2)]] assms(1) go_fields_text(2) [OF w]
    by (simp add: parseResult_def round_ok_def)
  then show ?thesis using t go_fields_text(3) [OF w] by simp
qed

lemma parse_parts_round:
  "unicode_ok uni \<Longrightarrow> (\<forall>r \<in> set rs. round_ok r) \<Longrightarrow>
     parse_parts rng ident acc (map (result_text uni) rs) = (ident, acc @ rs, None)"
  by (induction rs arbitrary: acc) (simp_all add: parseResult_round)

lemma index_space_word: "word_ok s \<Longrightarrow> index_space i s = None"
  by (induction s arbitrary: i) (auto simp: word_ok_def)

text \<open>
  C37: Parse reads back what Format writes: for an identity without white space and results whose
  texts need no quoting, of the kinds auth (without a reason, which Format leaves out), dkim,
  domainkeys, iprev, spf and dmarc, parsing the formatted header field gives the identity and the
  same results in the same order, whatever the order in which Go ranges over maps.
\<close>

theorem format_then_parse:
  assumes "word_ok ident" "\<forall>r \<in> set rs. round_ok r" "unicode_ok uni"
  shows "authres_Parse rng (authres_Format uni ident rs) = (ident, rs, None)"
proof (cases "rs = []")
  case True
  have "split_on CHR '';'' (ident @ CHR '';'' # crlf @ ''  none'') = [ident, crlf @ ''  none'']"
    using assms(1) by (subst split_on_append) (auto simp: word_ok_def split_on_absent)
  moreover have "parse_parts rng ident [] [crlf @ ''  none''] = (ident, [], None)"
  proof -
    have "trim_space (crlf @ ''  none'') = ''none''" "go_fields ''none'' = [''none'']" by code_simp+
    then show ?thesis by (simp add: parseResult_def)
  qed
  ultimately show ?thesis using True assms(1)
    by (simp add: authres_Parse_def authres_Format_def index_space_word)
next
  case False
  have j: "ident @ concat (map (format_result uni) rs) = join '';'' (ident # map (result_text uni) rs)" for ident
    by (simp add: join_concat comp_def flip: format_result_text)
  have "CHR '';'' \<notin> set (result_text uni r)" if "r \<in> set rs" for r
  proof -
    have w: "\<forall>w \<in> set (result_words uni r). CHR '';'' \<notin> set w"
      using result_words_ok [of r uni] assms that by (auto simp: word_ok_def)
    then show ?thesis using set_join [of "'' ''" "tl (result_words uni r)"]
      by (cases "result_words uni r") (auto simp: result_text_def result_words_def)
  qed
  then have "split_on CHR '';'' (authres_Format uni ident rs) = ident # map (result_text uni) rs"
    using False assms(1) unfolding authres_Format_def j
    by (simp only: if_False) (rule split_on_join, auto simp: word_ok_def)
  then show ?thesis using assms
    by (simp add: authres_Parse_def index_space_word parse_parts_round)
qed

definition w_results :: "result list" where
  "w_results =
     [SPF \<lparr>spf_Value = ''pass'', spf_Reason = [], spf_From = ''a@d'', spf_Helo = ''mx.d''\<rparr>,
      DMARC \<lparr>dm_Value = ''fail'', dm_Reason = ''policy'', dm_From = ''d''\<rparr>,
      DKIM \<lparr>dk_Value = ''pass'', dk_Reason = [], dk_Domain = ''d'', dk_Identifier = ''@d'',
        dk_Selector = ''s'', dk_Signature = ''aGkN''\<rparr>]"

lemma format_then_parse_witness:
  "authres_Parse id (authres_Format (\<lambda>_. True) ''mx.example'' w_results) = (''mx.example'', w_results, None)"
proof -
  have "word_ok ''mx.example''" "\<forall>r \<in> set w_results. round_ok r" by code_simp+
  moreover have "unicode_ok (\<lambda>_. True)" by (simp add: unicode_ok_def)
  ultimately show ?thesis by (rule format_then_parse)
qed

text \<open>
  Parse does not know the quoted strings Format writes: the semicolon in a reason ends the result,
  and what follows it is read as another result.
\<close>

lemma quoted_reason_splits:
  "authres_Parse id (authres_Format (\<lambda>_. True) ''mx''
     [DMARC \<lparr>dm_Value = ''none'', dm_Reason = ''x;dkim=pass header.d=d '', dm_From = ''e''\<rparr>]) =
   (''mx'', [DMARC \<lparr>dm_Value = ''none'', dm_Reason = [QUOTE] @ ''x'', dm_From = []\<rparr>,
     DKIM \<lparr>dk_Value = ''pass'', dk_Reason = [], dk_Domain = ''d'', dk_Identifier = [],
       dk_Selector = [], dk_Signature = []\<rparr>], None)"
  by code_simp

end
