(* ===== verification/Authentication.thy ===== *)
theory Authentication imports Middleware Dkim_Roundtrip Dmarc Authres Mail_Facts begin

text \<open>
  middleware/authentication.go: the middleware that checks a message with SPF, DKIM and DMARC and
  puts what it found in front of the message as an Authentication-Results field. What the code
  calls outside the repository is a record of functions: the cryptography, the DNS and the clock of
  the DKIM verification, the SPF library, the public suffix list, and the parsers of addresses.
\<close>

section \<open>What lies outside\<close>

text \<open>The result type of the SPF library: its constants, and any other string.\<close>

datatype spf_result =
    spf_None | spf_Neutral | spf_Pass | spf_Fail | spf_SoftFail | spf_TempError | spf_PermError
  | spf_Other string

record 'k auth_env =
  ae_crypto :: "'k crypto"
  ae_LookupTXT :: txtLookupFunc
  ae_now :: go_time
  ae_CheckHost :: "string option \<Rightarrow> string \<Rightarrow> string \<Rightarrow> spf_result \<times> string option"
  ae_EffectiveTLDPlusOne :: "string \<Rightarrow> string + string"
  ae_ParseIP :: "string \<Rightarrow> string option"
  ae_ParseAddress :: "string \<Rightarrow> string + address"
  ae_xtext :: xtext
  ae_range :: header_range
  ae_letters :: "string \<Rightarrow> bool"

section \<open>SPF\<close>

definition spf_value :: "spf_result \<Rightarrow> string" where
  "spf_value r =
     (case r of
        spf_None \<Rightarrow> ResultNone
      | spf_Neutral \<Rightarrow> ResultNeutral
      | spf_Pass \<Rightarrow> ResultPass
      | spf_Fail \<Rightarrow> ResultFail
      | spf_SoftFail \<Rightarrow> ResultSoftFail
      | spf_TempError \<Rightarrow> ResultTempError
      | spf_PermError \<Rightarrow> ResultPermError
      | spf_Other _ \<Rightarrow> ResultNone)"

text \<open>An envelope without a sender makes it panic (Inl).\<close>

definition spfCheck :: "'k auth_env \<Rightarrow> envelope \<Rightarrow> string + SPFResult" where
  "spfCheck env e =
     (case MailFrom e of
        None \<Rightarrow> Inl nil_pointer
      | Some a \<Rightarrow>
          (let sender = addr_Address a;
               (ip, _, _) = go_cut (RemoteAddr_String (RemoteAddr e)) '':'';
               (result, err) = ae_CheckHost env (ae_ParseIP env ip) (Helo e) sender;
               reason = (case err of None \<Rightarrow> [] | Some s \<Rightarrow> s)
           in Inr \<lparr>spf_Value = spf_value result, spf_Reason = reason, spf_From = sender, spf_Helo = Helo e\<rparr>))"

section \<open>DKIM\<close>

definition dkim_result :: "Verification \<Rightarrow> DKIMResult" where
  "dkim_result v =
     \<lparr>dk_Value = (case vf_Err v of None \<Rightarrow> ResultPass | Some _ \<Rightarrow> ResultFail),
      dk_Reason = (case vf_Err v of None \<Rightarrow> [] | Some err \<Rightarrow> dkim_Error err),
      dk_Domain = vf_Domain v, dk_Identifier = vf_Identifier v, dk_Selector = vf_Selector v,
      dk_Signature = vf_Signature v\<rparr>"

definition dkimCheck :: "'k auth_env \<Rightarrow> envelope \<Rightarrow> DKIMResult list" where
  "dkimCheck env e =
     (case dkim_Verify (ae_crypto env) (ae_LookupTXT env) (ae_now env) EOF (data_Bytes (Data e)) of
        Verified vs \<Rightarrow> map dkim_result vs
      | _ \<Rightarrow> [])"

section \<open>DMARC\<close>

definition checkSPFAlignment :: "'k auth_env \<Rightarrow> SPFResult \<Rightarrow> dmarc_record \<Rightarrow> string \<Rightarrow> string \<Rightarrow> bool" where
  "checkSPFAlignment env spf r spfDomain fromDomain =
     (if spf_Value spf \<noteq> ResultPass then False
      else if SPFAlignment r = AlignmentStrict then spfDomain = fromDomain
      else if SPFAlignment r = AlignmentRelaxed then
        (if has_suffix spfDomain fromDomain then True
         else case ae_EffectiveTLDPlusOne env spfDomain of
             Inl _ \<Rightarrow> False
           | Inr spfOrgDomain \<Rightarrow>
               (case ae_EffectiveTLDPlusOne env fromDomain of
                  Inl _ \<Rightarrow> False
                | Inr fromOrgDomain \<Rightarrow> spfOrgDomain = fromOrgDomain))
      else False)"

text \<open>One signature of the loop of checkDKIMAlignment.\<close>

definition dkim_aligned :: "'k auth_env \<Rightarrow> dmarc_record \<Rightarrow> string \<Rightarrow> DKIMResult \<Rightarrow> bool" where
  "dkim_aligned env r fromDomain dkim \<longleftrightarrow>
     (if dk_Value dkim \<noteq> ResultPass then False
      else if DKIMAlignment r = AlignmentStrict \<and> dk_Domain dkim = fromDomain then True
      else if DKIMAlignment r = AlignmentRelaxed then
        (case ae_EffectiveTLDPlusOne env (dk_Domain dkim) of
           Inl _ \<Rightarrow> False
         | Inr dkimOrgDomain \<Rightarrow>
             (case ae_EffectiveTLDPlusOne env fromDomain of
                Inl _ \<Rightarrow> False
              | Inr fromOrgDomain \<Rightarrow> dkimOrgDomain = fromOrgDomain))
      else False)"

definition checkDKIMAlignment :: "'k auth_env \<Rightarrow> DKIMResult list \<Rightarrow> dmarc_record \<Rightarrow> string \<Rightarrow> bool" where
  "checkDKIMAlignment env dkims r fromDomain = list_ex (dkim_aligned env r fromDomain) dkims"

definition determineDMARCResult :: "bool \<Rightarrow> bool \<Rightarrow> SPFResult \<Rightarrow> dmarc_record \<Rightarrow> DMARCResult" where
  "determineDMARCResult spfAligned dkimAligned spf r =
     (let (value0, reasons0) =
        (if spfAligned \<or> dkimAligned then (ResultPass, [''DMARC check passed''])
         else (ResultFail,
           [''DMARC check failed''] @
           (if spf_Value spf \<noteq> ResultPass then [''SPF failed or not aligned: '' @ spf_Reason spf] else []) @
           (if \<not> dkimAligned then [''DKIM failed or not aligned''] else [])));
          (value, reasons) =
        (if Policy r = PolicyNone then (ResultNone, [''DMARC policy is none'']) else (value0, reasons0))
      in \<lparr>dm_Value = value, dm_Reason = join '', '' reasons, dm_From = []\<rparr>)"

definition dmarcCheck :: "'k auth_env \<Rightarrow> envelope \<Rightarrow> SPFResult \<Rightarrow> DKIMResult list \<Rightarrow> DMARCResult" where
  "dmarcCheck env e spf dkims =
     (let domain = DomainOfEmail (MailFrom e);
          createErrorResult = (\<lambda>reason. \<lparr>dm_Value = ResultNone, dm_Reason = reason, dm_From = domain\<rparr>)
      in case Envelope_Mail e of
           Inl _ \<Rightarrow> createErrorResult ''unable to get mail''
         | Inr m \<Rightarrow>
         (case mail_Headers (ae_xtext env) (ae_range env) [] m of
            (_, Some _) \<Rightarrow> createErrorResult ''unable to get headers''
          | (headers, None) \<Rightarrow>
          (let fromHeader = header_Get headers ''From'' in
           case ae_ParseAddress env fromHeader of
             Inl _ \<Rightarrow> createErrorResult ''uo From header''
           | Inr sender \<Rightarrow>
           if fromHeader = [] then createErrorResult ''uo From header''
           else
             (let fromDomain = DomainOfEmail (Some sender) in
              case dmarc_Lookup (ae_LookupTXT env) fromDomain of
                Inl _ \<Rightarrow> createErrorResult ''DMARC lookup failed''
              | Inr dmarcRecord \<Rightarrow>
              (case ae_ParseAddress env (spf_From spf) of
                 Inl _ \<Rightarrow> createErrorResult ''Unable to parse spf from''
               | Inr spfFrom \<Rightarrow>
                   (let spfDomain = DomainOfEmail (Some spfFrom);
                        spfAligned = checkSPFAlignment env spf dmarcRecord spfDomain fromDomain;
                        dkimAligned = checkDKIMAlignment env dkims dmarcRecord fromDomain
                    in (determineDMARCResult spfAligned dkimAligned spf dmarcRecord)\<lparr>dm_From := domain\<rparr>))))))"

section \<open>The middleware\<close>

text \<open>The results in the order they are written.\<close>

definition auth_results :: "'k auth_env \<Rightarrow> envelope \<Rightarrow> string + result list" where
  "auth_results env e =
     (case spfCheck env e of
        Inl p \<Rightarrow> Inl p
      | Inr spfres \<Rightarrow>
          (let dkims = dkimCheck env e; dmarc = dmarcCheck env e spfres dkims
           in Inr ([SPF spfres, DMARC dmarc] @ map DKIM dkims)))"

definition AddAuthenticationResult :: "'k auth_env \<Rightarrow> string \<Rightarrow> Middleware" where
  "AddAuthenticationResult env hostname nxt e =
     (case auth_results env e of
        Inl p \<Rightarrow> (Panicked p, e)
      | Inr res \<Rightarrow>
          nxt (PrependHeader ''Authentication-Results'' (authres_Format (ae_letters env) hostname res) e))"

section \<open>What a passed check rests on\<close>

lemma parallelVerify_Inr:
  "parallelVerify cr lk now h e body sigs = Inr vs \<Longrightarrow>
     vs = map (\<lambda>(i, v). with_Err (verify cr lk now h EOF body (h ! i) v)) sigs"
  by (simp add: parallelVerify_def Let_def split: if_splits list.splits)

lemma Verified_all:
  assumes "dkim_Verify cr lk now EOF msg = Verified vs"
  shows "\<exists>h body. readHeader EOF msg = (Inr h, body) \<and>
    vs = map (\<lambda>(i, v). with_Err (verify cr lk now h EOF body (h ! i) v)) (signatures h)"
proof -
  obtain h body where h: "readHeader EOF msg = (Inr h, body)"
    using assms by (auto simp: dkim_Verify_def VerifyWithOptions_def split: prod.splits sum.splits)
  consider (one) i v where "signatures h = [(i, v)]"
    | (more) "\<And>f :: nat \<Rightarrow> string \<Rightarrow> dkim_error + Verification list. \<And>g. (case signatures h of [(i, v)] \<Rightarrow> f i v | _ \<Rightarrow> g) = g"
    by (cases "signatures h" rule: remdups_adj.cases) auto
  then show ?thesis
  proof cases
    case one
    then show ?thesis using assms h
      by (auto simp: dkim_Verify_def VerifyWithOptions_def Let_def split: option.splits if_splits)
  next
    case more
    then show ?thesis using assms h
      by (auto simp: dkim_Verify_def VerifyWithOptions_def more split: sum.splits dest!: parallelVerify_Inr)
  qed
qed

lemma verified_signature:
  assumes "dkim_Verify cr lk now EOF msg = Verified vs" "v \<in> set vs" "vf_Err v = None"
  shows "\<exists>h body i val w. readHeader EOF msg = (Inr h, body) \<and> (i, val) \<in> set (signatures h) \<and>
    verify cr lk now h EOF body (h ! i) val = (w, None) \<and> v = w\<lparr>vf_Err := None\<rparr>"
proof -
  from Verified_all [OF assms(1)] assms(2) obtain h body i val where
    h: "readHeader EOF msg = (Inr h, body)" "(i, val) \<in> set (signatures h)"
    and v: "v = with_Err (verify cr lk now h EOF body (h ! i) val)" by auto
  then show ?thesis using assms(3)
    by (cases "verify cr lk now h EOF body (h ! i) val") (auto simp: with_Err_def)
qed

text \<open>A DKIM result that passed belongs to a signature of the message that verifies.\<close>

definition verified_by :: "'k auth_env \<Rightarrow> envelope \<Rightarrow> Verification \<Rightarrow> bool" where
  "verified_by env e v \<longleftrightarrow>
     (\<exists>h body i val. readHeader EOF (data_Bytes (Data e)) = (Inr h, body) \<and> (i, val) \<in> set (signatures h) \<and>
        verify (ae_crypto env) (ae_LookupTXT env) (ae_now env) h EOF body (h ! i) val = (v, None))"

lemma dkimCheck_verified:
  assumes "d \<in> set (dkimCheck env e)"
  shows "\<exists>vs v. dkim_Verify (ae_crypto env) (ae_LookupTXT env) (ae_now env) EOF (data_Bytes (Data e)) = Verified vs \<and>
    v \<in> set vs \<and> d = dkim_result v"
proof (cases "dkim_Verify (ae_crypto env) (ae_LookupTXT env) (ae_now env) EOF (data_Bytes (Data e))")
  case (Verified vs)
  then show ?thesis using assms by (simp add: dkimCheck_def) blast
qed (use assms in \<open>simp_all add: dkimCheck_def\<close>)

lemma dkimCheck_pass:
  assumes "d \<in> set (dkimCheck env e)" "dk_Value d = ResultPass"
  shows "\<exists>v. verified_by env e v \<and> dk_Domain d = vf_Domain v \<and> dk_Selector d = vf_Selector v"
proof -
  obtain vs v where v: "dkim_Verify (ae_crypto env) (ae_LookupTXT env) (ae_now env) EOF
      (data_Bytes (Data e)) = Verified vs" "v \<in> set vs" "d = dkim_result v"
    using dkimCheck_verified [OF assms(1)] by blast
  have "vf_Err v = None" using assms(2)
    by (simp add: v(3) dkim_result_def ResultPass_def ResultFail_def split: option.splits)
  from verified_signature [OF v(1,2) this] obtain w where "verified_by env e w" "v = w\<lparr>vf_Err := None\<rparr>"
    unfolding verified_by_def by blast
  then show ?thesis using v(3) by (intro exI [of _ w]) (simp add: dkim_result_def)
qed

text \<open>The domains of two identities belong together: equal, or of one organisation.\<close>

definition same_organisation :: "'k auth_env \<Rightarrow> string \<Rightarrow> string \<Rightarrow> bool" where
  "same_organisation env a b \<longleftrightarrow>
     (\<exists>org. ae_EffectiveTLDPlusOne env a = Inr org \<and> ae_EffectiveTLDPlusOne env b = Inr org)"

lemma dkim_aligned_iff:
  "dkim_aligned env r domain d \<longleftrightarrow> dk_Value d = ResultPass \<and>
     (DKIMAlignment r = AlignmentStrict \<and> dk_Domain d = domain \<or>
      DKIMAlignment r = AlignmentRelaxed \<and> same_organisation env (dk_Domain d) domain)"
  by (auto simp: dkim_aligned_def same_organisation_def AlignmentStrict_def AlignmentRelaxed_def split: sum.splits)

lemma checkSPFAlignment_iff:
  "checkSPFAlignment env spf r spfDomain domain \<longleftrightarrow> spf_Value spf = ResultPass \<and>
     (SPFAlignment r = AlignmentStrict \<and> spfDomain = domain \<or>
      SPFAlignment r = AlignmentRelaxed \<and>
        (has_suffix spfDomain domain \<or> same_organisation env spfDomain domain))"
  by (auto simp: checkSPFAlignment_def same_organisation_def AlignmentStrict_def AlignmentRelaxed_def split: sum.splits)

lemma determine_pass:
  "dm_Value (determineDMARCResult spfAligned dkimAligned spf r) = ResultPass \<longleftrightarrow>
     (spfAligned \<or> dkimAligned) \<and> Policy r \<noteq> PolicyNone"
  by (auto simp: determineDMARCResult_def Let_def ResultPass_def ResultFail_def ResultNone_def)

text \<open>The From address of the message and the record of its domain, as dmarcCheck finds them.\<close>

definition from_record :: "'k auth_env \<Rightarrow> envelope \<Rightarrow> string \<Rightarrow> dmarc_record \<Rightarrow> bool" where
  "from_record env e domain r \<longleftrightarrow>
     (\<exists>m headers sender. Envelope_Mail e = Inr m \<and>
        mail_Headers (ae_xtext env) (ae_range env) [] m = (headers, None) \<and>
        header_Get headers ''From'' \<noteq> [] \<and> ae_ParseAddress env (header_Get headers ''From'') = Inr sender \<and>
        domain = DomainOfEmail (Some sender) \<and> dmarc_Lookup (ae_LookupTXT env) domain = Inr r)"

lemma dmarcCheck_found:
  assumes "from_record env e domain r" "ae_ParseAddress env (spf_From spf) = Inr spfFrom"
  shows "dmarcCheck env e spf dkims =
    (determineDMARCResult (checkSPFAlignment env spf r (DomainOfEmail (Some spfFrom)) domain)
       (checkDKIMAlignment env dkims r domain) spf r)\<lparr>dm_From := DomainOfEmail (MailFrom e)\<rparr>"
  using assms by (auto simp: from_record_def dmarcCheck_def Let_def)

lemma dmarcCheck_pass:
  assumes "dm_Value (dmarcCheck env e spf dkims) = ResultPass"
  shows "\<exists>domain r spfFrom. from_record env e domain r \<and> Policy r \<noteq> PolicyNone \<and>
    ae_ParseAddress env (spf_From spf) = Inr spfFrom \<and>
    (checkSPFAlignment env spf r (DomainOfEmail (Some spfFrom)) domain \<or> checkDKIMAlignment env dkims r domain)"
proof -
  have n: "ResultNone \<noteq> ResultPass" by (simp add: ResultNone_def ResultPass_def)
  have "\<exists>domain r spfFrom. from_record env e domain r \<and> ae_ParseAddress env (spf_From spf) = Inr spfFrom"
    using assms n unfolding dmarcCheck_def from_record_def Let_def
    by (auto split: sum.splits prod.splits option.splits if_splits)
  then obtain domain r spfFrom where f: "from_record env e domain r" "ae_ParseAddress env (spf_From spf) = Inr spfFrom"
    by blast
  with assms show ?thesis by (auto simp: dmarcCheck_found [OF f] determine_pass)
qed

lemma map_sum_Inr: "map_sum f id x = Inr y \<Longrightarrow> x = Inr y"
  by (cases x) auto

lemma from_record_valid: "from_record env e domain r \<Longrightarrow> record_ok r"
  by (auto simp: from_record_def dmarc_Lookup_def LookupWithOptions_def
      split: sum.splits dns_error.splits if_splits dest!: map_sum_Inr dmarc_Parse_ok)

section \<open>The middleware in a chain\<close>

text \<open>The middlewares of the package, authentication included.\<close>

definition library_middleware :: "'k auth_env set \<Rightarrow> Middleware \<Rightarrow> bool" where
  "library_middleware envs m \<longleftrightarrow>
     package_middleware m \<or> (\<exists>env \<in> envs. \<exists>hostname. m = AddAuthenticationResult env hostname)"

lemma adds_headers_library:
  assumes "library_middleware envs m" "adds_headers h"
  shows "adds_headers (m h)"
proof (cases "package_middleware m")
  case True
  then show ?thesis using assms(2) by (rule adds_headers_middleware)
next
  case False
  then obtain env hostname where "env \<in> envs" and m: "m = AddAuthenticationResult env hostname"
    using assms(1) unfolding library_middleware_def by blast
  show ?thesis unfolding adds_headers_def m
    by (auto simp: AddAuthenticationResult_def split: sum.splits
      intro: adds_headersD [OF assms(2)] only_adds_headers_steps)
qed

interpretation library_contract: handler_contract adds_headers "library_middleware envs"
  by unfold_locales (simp add: adds_headers_def snd_nil2success, rule adds_headers_library)

section \<open>Evidence\<close>

text \<open>What the SPF library says of the envelope's sender.\<close>

definition spf_of :: "'k auth_env \<Rightarrow> envelope \<Rightarrow> address \<Rightarrow> spf_result" where
  "spf_of env e a =
     fst (ae_CheckHost env (ae_ParseIP env (fst (go_cut (RemoteAddr_String (RemoteAddr e)) '':''))) (Helo e) (addr_Address a))"

text \<open>SPF passed for a sender whose domain is aligned, or a signature verifies whose domain is.\<close>

definition spf_evidence :: "'k auth_env \<Rightarrow> envelope \<Rightarrow> dmarc_record \<Rightarrow> string \<Rightarrow> bool" where
  "spf_evidence env e r domain \<longleftrightarrow>
     (\<exists>a sender. MailFrom e = Some a \<and> spf_of env e a = spf_Pass \<and>
        ae_ParseAddress env (addr_Address a) = Inr sender \<and>
        (if SPFAlignment r = AlignmentStrict then DomainOfEmail (Some sender) = domain
         else has_suffix (DomainOfEmail (Some sender)) domain \<or>
           same_organisation env (DomainOfEmail (Some sender)) domain))"

definition dkim_evidence :: "'k auth_env \<Rightarrow> envelope \<Rightarrow> dmarc_record \<Rightarrow> string \<Rightarrow> bool" where
  "dkim_evidence env e r domain \<longleftrightarrow>
     (\<exists>v. verified_by env e v \<and>
        (if DKIMAlignment r = AlignmentStrict then vf_Domain v = domain
         else same_organisation env (vf_Domain v) domain))"

lemma alignments_differ [simp]: "AlignmentStrict \<noteq> AlignmentRelaxed" "AlignmentRelaxed \<noteq> AlignmentStrict"
  by (simp_all add: AlignmentStrict_def AlignmentRelaxed_def)

lemma spf_value_pass:
  "spf_value r = ResultPass \<longleftrightarrow> r = spf_Pass" "ResultPass = spf_value r \<longleftrightarrow> r = spf_Pass"
  by (auto simp: spf_value_def ResultPass_def ResultNone_def ResultNeutral_def ResultFail_def
    ResultSoftFail_def ResultTempError_def ResultPermError_def split: spf_result.splits)

lemma spfCheck_Inr:
  "spfCheck env e = Inr spf \<Longrightarrow> \<exists>a. MailFrom e = Some a \<and> spf_From spf = addr_Address a \<and>
     spf_Helo spf = Helo e \<and> spf_Value spf = spf_value (spf_of env e a)"
  by (auto simp: spfCheck_def spf_of_def Let_def split: option.splits prod.splits)

lemma spf_evidenceI:
  assumes "spfCheck env e = Inr spf" "ae_ParseAddress env (spf_From spf) = Inr sender"
    and "checkSPFAlignment env spf r (DomainOfEmail (Some sender)) domain"
  shows "spf_evidence env e r domain"
  using spfCheck_Inr [OF assms(1)] assms(2,3)
  by (auto simp: spf_evidence_def checkSPFAlignment_iff spf_value_pass)

lemma dkim_evidenceI:
  assumes "checkDKIMAlignment env (dkimCheck env e) r domain"
  shows "dkim_evidence env e r domain"
proof -
  from assms obtain d where d: "d \<in> set (dkimCheck env e)" "dkim_aligned env r domain d"
    by (auto simp: checkDKIMAlignment_def list_ex_iff)
  then obtain v where "verified_by env e v" "dk_Domain d = vf_Domain v"
    using dkimCheck_pass [OF d(1)] by (auto simp: dkim_aligned_iff)
  then show ?thesis using d(2) by (auto simp: dkim_evidence_def dkim_aligned_iff)
qed

section \<open>Properties\<close>

text \<open>
  C6: A dmarc=pass of the middleware rests on evidence: the message has a From field that parses,
  the DNS has a valid record with the policy quarantine or reject for its domain, and either SPF
  passed for the address of the envelope's sender, whose domain is aligned with that domain, or a
  DKIM signature of the message as received verifies for a domain that is aligned with it. (What a
  signature that verifies promises is verify_sound.)
\<close>

theorem dmarc_pass_evidence:
  assumes "auth_results env e = Inr rs" "DMARC d \<in> set rs" "dm_Value d = ResultPass"
  shows "\<exists>domain r. from_record env e domain r \<and> record_ok r \<and> Policy r \<in> {PolicyQuarantine, PolicyReject} \<and>
    (spf_evidence env e r domain \<or> dkim_evidence env e r domain)"
proof -
  from assms(1,2) obtain spf where s: "spfCheck env e = Inr spf" "d = dmarcCheck env e spf (dkimCheck env e)"
    by (auto simp: auth_results_def Let_def split: sum.splits)
  from dmarcCheck_pass [OF assms(3) [unfolded s(2)]] obtain domain r sender where
    f: "from_record env e domain r" "Policy r \<noteq> PolicyNone" "ae_ParseAddress env (spf_From spf) = Inr sender"
      "checkSPFAlignment env spf r (DomainOfEmail (Some sender)) domain \<or> checkDKIMAlignment env (dkimCheck env e) r domain"
    by blast
  then have "spf_evidence env e r domain \<or> dkim_evidence env e r domain"
    using spf_evidenceI [OF s(1)] dkim_evidenceI by blast
  then show ?thesis using f(1,2) from_record_valid [OF f(1)] by (auto simp: record_ok_def valid_policy_def)
qed

definition w_env :: "unit auth_env" where
  "w_env = \<lparr>ae_crypto = w_crypto,
     ae_LookupTXT = (\<lambda>d. if d = ''_dmarc.d'' then Inr [''v=DMARC1; p=reject''] else Inl (DnsNotFound ''no such host'')),
     ae_now = w_time, ae_CheckHost = (\<lambda>ip helo sender. (spf_Pass, None)),
     ae_EffectiveTLDPlusOne = (\<lambda>d. Inl ''no suffix''), ae_ParseIP = Some,
     ae_ParseAddress = (\<lambda>s. Inr \<lparr>addr_Name = [], addr_Address = s\<rparr>),
     ae_xtext = (\<lambda>e r. r), ae_range = id, ae_letters = (\<lambda>s. True)\<rparr>"

definition w_sender :: address where
  "w_sender = \<lparr>addr_Name = [], addr_Address = ''m@evil-d''\<rparr>"

definition w_envelope :: envelope where
  "w_envelope = (NewEnvelope (PeerAddr ''1.2.3.4:5'') 1 ''x'')
     \<lparr>MailFrom := Some w_sender, Data := \<lparr>bufs = [''From: a@d'' @ crlf @ crlf]\<rparr>\<rparr>"

definition w_record :: dmarc_record where
  "w_record = first_Record PolicyReject"

lemma w_from_record: "from_record w_env w_envelope ''d'' w_record"
proof -
  let ?m = "\<lparr>mail_UTF8 = False, RawHeaders = ''From: a@d'', RawBody = []\<rparr>"
  have "Envelope_Mail w_envelope = Inr ?m" by code_simp
  moreover have "mail_Headers (\<lambda>e r. r) id [] ?m = ([(''From'', [''a@d''])], None)" by code_simp
  moreover have "header_Get [(''From'', [''a@d''])] ''From'' = ''a@d''" by code_simp
  moreover have "DomainOfEmail (Some \<lparr>addr_Name = [], addr_Address = ''a@d''\<rparr>) = ''d''" by code_simp
  moreover have "dmarc_Parse ''v=DMARC1; p=reject'' = Inr w_record" by code_simp
  ultimately show ?thesis
    unfolding from_record_def by (simp add: w_env_def dmarc_Lookup_def LookupWithOptions_def)
qed

lemma w_spf: "spf_of w_env w_envelope w_sender = spf_Pass" "MailFrom w_envelope = Some w_sender"
    "ae_ParseAddress w_env (addr_Address w_sender) = Inr w_sender" "DomainOfEmail (Some w_sender) = ''evil-d''"
  by (simp_all add: spf_of_def w_env_def w_envelope_def w_sender_def) code_simp

lemma w_record: "SPFAlignment w_record = AlignmentRelaxed" "Policy w_record = PolicyReject"
  by (simp_all add: w_record_def first_Record_def)

lemma w_auth_results: "\<exists>spf ds. auth_results w_env w_envelope = Inr (SPF spf # DMARC
    \<lparr>dm_Value = ResultPass, dm_Reason = ''DMARC check passed'', dm_From = ''evil-d''\<rparr> # map DKIM ds)"
proof -
  obtain spf where s: "spfCheck w_env w_envelope = Inr spf"
    using w_spf(2) by (cases "spfCheck w_env w_envelope") (auto simp: spfCheck_def Let_def split: prod.splits)
  then have spf: "spf_From spf = addr_Address w_sender" "spf_Value spf = ResultPass"
    using spfCheck_Inr [OF s] w_spf by (auto simp: spf_value_pass)
  have "has_suffix ''evil-d'' ''d''" by code_simp
  then have "dmarcCheck w_env w_envelope spf ds =
      \<lparr>dm_Value = ResultPass, dm_Reason = ''DMARC check passed'', dm_From = ''evil-d''\<rparr>" for ds
    using dmarcCheck_found [OF w_from_record, of spf w_sender ds] w_spf w_record spf
    by (simp add: checkSPFAlignment_iff determineDMARCResult_def PolicyReject_def PolicyNone_def)
  then show ?thesis by (auto simp: auth_results_def s Let_def)
qed

theorem dmarc_pass_evidence_witness:
  "\<exists>domain r. from_record w_env w_envelope domain r \<and> record_ok r \<and>
    (spf_evidence w_env w_envelope r domain \<or> dkim_evidence w_env w_envelope r domain)"
proof -
  obtain spf ds where "auth_results w_env w_envelope = Inr (SPF spf # DMARC
      \<lparr>dm_Value = ResultPass, dm_Reason = ''DMARC check passed'', dm_From = ''evil-d''\<rparr> # map DKIM ds)"
    using w_auth_results by blast
  from dmarc_pass_evidence [OF this, of "\<lparr>dm_Value = ResultPass, dm_Reason = ''DMARC check passed'', dm_From = ''evil-d''\<rparr>"]
  show ?thesis by auto
qed

text \<open>
  C23: Under relaxed alignment a sender domain that merely ends with the domain of the From field
  counts as aligned, a label of its own or not: whoever passes SPF for a domain evil-example.com
  gets dmarc=pass for any From address of example.com, with the policy reject too, and the field
  names the domain of the envelope's sender.
\<close>

theorem lookalike_sender_passes:
  assumes "from_record env e domain r" "SPFAlignment r = AlignmentRelaxed" "Policy r \<noteq> PolicyNone"
    and "MailFrom e = Some a" "spf_of env e a = spf_Pass" "ae_ParseAddress env (addr_Address a) = Inr sender"
    and "DomainOfEmail (Some sender) = lookalike @ domain"
  shows "\<exists>rs d. auth_results env e = Inr rs \<and> DMARC d \<in> set rs \<and> dm_Value d = ResultPass \<and>
    dm_From d = DomainOfEmail (Some a)"
proof -
  obtain spf where s: "spfCheck env e = Inr spf"
    using assms(4) by (cases "spfCheck env e") (auto simp: spfCheck_def Let_def split: prod.splits)
  have spf: "spf_From spf = addr_Address a" "spf_Value spf = ResultPass"
    using spfCheck_Inr [OF s] assms(4,5) by (auto simp: spf_value_pass)
  have "checkSPFAlignment env spf r (DomainOfEmail (Some sender)) domain"
    using assms(2,7) spf(2) by (auto simp: checkSPFAlignment_iff has_suffix_iff)
  then have "dm_Value (dmarcCheck env e spf (dkimCheck env e)) = ResultPass"
      "dm_From (dmarcCheck env e spf (dkimCheck env e)) = DomainOfEmail (Some a)"
    using assms(3,4,6) spf(1) by (simp_all add: dmarcCheck_found [OF assms(1)] determine_pass)
  then show ?thesis by (auto simp: auth_results_def s Let_def)
qed

theorem lookalike_sender_passes_witness:
  "\<exists>rs d. auth_results w_env w_envelope = Inr rs \<and> DMARC d \<in> set rs \<and> dm_Value d = ResultPass \<and>
    dm_From d = ''evil-d''"
  using lookalike_sender_passes [OF w_from_record w_record(1) _ w_spf(2,1,3), of "''evil-''"] w_spf(4) w_record(2)
  by (simp add: PolicyReject_def PolicyNone_def)

text \<open>
  C22: A chain of any of the package's middlewares, authentication included, around a handler that
  at most adds headers and drops recipients does no more: the received message is a suffix of what
  comes out, the recipients are a subsequence of the received ones, and the rest of the transaction
  is as received.
\<close>

theorem full_chain_only_adds_headers:
  assumes "\<And>m. Some m \<in> set mws \<Longrightarrow> library_middleware envs m" "\<And>e. only_adds_headers e (snd (h e))"
  shows "only_adds_headers e (snd (build_chain mws h e))"
  using library_contract.keeps_chain [of mws envs h] assms by (simp add: adds_headers_def)

theorem full_chain_only_adds_headers_witness:
  "only_adds_headers w_envelope
     (snd (build_chain [Some (AddAuthenticationResult w_env ''mx''), Some AddReturnPath, Some Recover, None] NoopBackend w_envelope))"
proof -
  have "library_middleware {w_env} m"
    if "Some m \<in> set [Some (AddAuthenticationResult w_env ''mx''), Some AddReturnPath, Some Recover, None]" for m
    using that by (auto simp: library_middleware_def intro: package_middleware.intros)
  moreover have "only_adds_headers e (snd (NoopBackend e))" for e
    by (simp add: NoopBackend_def NewHandler_def)
  ultimately show ?thesis by (rule full_chain_only_adds_headers)
qed

text \<open>
  The reason of the DMARC result has spaces, so Format quotes it and Parse, which splits at white
  space, reads only its first word, with the quote.
\<close>

lemma dmarc_reason_lost:
  "case authres_Parse id (authres_Format (\<lambda>s. True) ''mx''
       [DMARC \<lparr>dm_Value = ''pass'', dm_Reason = ''DMARC check passed'', dm_From = ''d''\<rparr>]) of
     (_, rs, _) \<Rightarrow> rs = [DMARC \<lparr>dm_Value = ''pass'', dm_Reason = [QUOTE] @ ''DMARC'', dm_From = ''d''\<rparr>]"
  by code_simp

end
