(* ===== verification/Transport.thy ===== *)
theory Transport imports Session_Delivery Authentication begin

text \<open>
  A message on its way: signed by its sender, sent over a connection, read by the server and
  checked by the authentication middleware. A client ends the lines with CRLF and stuffs the dots;
  the server's reader undoes the stuffing and leaves LF at the line ends, so the bytes a handler is
  given are not the bytes that were signed. DKIM does not see the difference.
\<close>

section \<open>Line ends\<close>

lemma Fix_line_ends:
  assumes "list_all no_break ls"
  shows "fst (Fix False (lf_lines ls)) = fst (Fix False (terminated ls))"
  using Fix_lines [OF assms] by (simp add: lf_lines_def)

lemma body_line_ends:
  assumes "list_all no_break ls" "canonicalizers can = Some c"
  shows "CanonicalizeBody c (lf_lines ls) = CanonicalizeBody c (terminated ls)"
  using canonicalizers_cases [OF assms(2)] Fix_line_ends [OF assms(1)]
  by (auto simp: simple_body_def relaxed_body_def)

text \<open>The header is read from lines of either kind, and leaves lines of that kind.\<close>

lemma line_of_either:
  assumes "no_break l"
  shows "line_of (l @ LF # s) = (l, s)" "line_of (l @ CR # LF # s) = (l, s)"
proof -
  have "LF \<notin> set l" "CR \<notin> set l" using assms by (simp_all add: no_break_def)
  moreover from this(2) have "chomp_cr l = l"
    by (cases l rule: rev_cases) (auto simp: chomp_cr_def)
  ultimately show "line_of (l @ LF # s) = (l, s)" "line_of (l @ CR # LF # s) = (l, s)"
    by (simp_all add: line_of_def cut_at_char line_of_crlf [unfolded line_of_def])
qed

lemma readHeader_line_ends:
  assumes "list_all no_break ls"
  shows "\<exists>r ms. list_all no_break ms \<and> readHeader_loop e h (lf_lines ls) = (r, lf_lines ms) \<and>
    readHeader_loop e h (terminated ls) = (r, terminated ms)"
  using assms
proof (induction ls arbitrary: h)
  case Nil
  then show ?case
    by (intro exI [of _ "Inl _"] exI [of _ "[]"]) (simp add: readHeader_loop.simps lf_lines_def terminated_def)
next
  case (Cons l ls)
  then have l: "no_break l" and ls: "list_all no_break ls" by simp_all
  have s: "lf_lines (l # ls) = l @ LF # lf_lines ls" "terminated (l # ls) = l @ CR # LF # terminated ls"
    by (simp_all add: lf_lines_def terminated_def)
  have step: "readHeader_loop e h t =
      (if l = [] then (Inr h, t')
       else if h \<noteq> [] \<and> (hd l = SP \<or> hd l = TAB) then readHeader_loop e (butlast h @ [last h @ l @ crlf]) t'
       else readHeader_loop e (h @ [l @ crlf]) t')" if "line_of t = (l, t')" "t \<noteq> []" for t t'
    using that by (simp add: readHeader_loop.simps [of e h t])
  note f = step [OF line_of_either(1) [OF l, of "lf_lines ls"]] step [OF line_of_either(2) [OF l, of "terminated ls"]]
  show ?case
  proof (cases "l = []")
    case True
    then show ?thesis using f ls unfolding s by (intro exI [of _ "Inr h"] exI [of _ ls]) simp
  next
    case False
    then show ?thesis using f Cons.IH [OF ls] unfolding s by simp
  qed
qed

text \<open>The body matters only through its canonical form, and the signatures only see the header.\<close>

lemma verify_line_ends:
  assumes "list_all no_break ls"
  shows "verify cr lk now h e (lf_lines ls) sigField sigValue = verify cr lk now h e (terminated ls) sigField sigValue"
proof -
  have "check_hashes cr h e (lf_lines ls) sigField params keys hc bc res =
      check_hashes cr h e (terminated ls) sigField params keys hc bc res"
    if "check_canonicalization params = Inr (hc, bc)" for params keys hc bc res
  proof -
    from that obtain can where c: "canonicalizers can = Some bc"
      by (auto simp: check_canonicalization_def split: prod.splits option.splits)
    show ?thesis unfolding check_hashes_def body_line_ends [OF assms c] ..
  qed
  then have "check_signature cr lk h e (lf_lines ls) sigField params v =
      check_signature cr lk h e (terminated ls) sigField params v" for params v
    by (auto simp: check_signature_def split: sum.splits option.splits)
  then show ?thesis by (simp add: verify_def cong: sum.case_cong)
qed

lemma dkim_line_ends:
  assumes "list_all no_break ls"
  shows "dkim_Verify cr lk now EOF (lf_lines ls) = dkim_Verify cr lk now EOF (terminated ls)"
proof -
  obtain r ms where ms: "list_all no_break ms" "readHeader EOF (lf_lines ls) = (r, lf_lines ms)"
      "readHeader EOF (terminated ls) = (r, terminated ms)"
    using readHeader_line_ends [OF assms, of EOF "[]"] by (auto simp: readHeader_def)
  show ?thesis
    unfolding dkim_Verify_def VerifyWithOptions_def parallelVerify_def ms(2,3) prod.case
      verify_line_ends [OF ms(1)] ..
qed

section \<open>From the signer to the handler\<close>

text \<open>The envelope after the DATA section of a client that sends the lines of a message.\<close>

lemma read_data_lines:
  assumes "reader_ok s (conn_in c)" "avail (conn_in c) = stuff ls @ rest" "Data (Env c) = empty_data"
    and "list_all no_break ls"
  shows "\<exists>c1. read_data c = (None, c1) \<and> data_Bytes (Data (Env c1)) = lf_lines ls"
proof -
  have "settled (conn_in c)" "length (buffered (conn_in c)) \<le> bufsize"
    using assms(1) by (simp_all add: reader_ok_def)
  moreover have "\<And>l. l \<in> set ls \<Longrightarrow> LF \<notin> set l" using assms(4) by (auto simp: list_all_iff no_break_def)
  ultimately obtain r where "ReadDot (conn_in c) = ((lf_lines ls, None), r)"
    using ReadDot_stuff assms(2) by blast
  then show ?thesis
    by (simp add: read_data_def set_env_def assms(3) data_Bytes_ReadFrom message.bytes_none)
qed


text \<open>The message of the signing example, on its way in one piece, to a server that accepts just its size.\<close>

definition w_message_lines :: "string list" where
  "w_message_lines = [''From: a'', [], ''hi'', []]"

definition w_signed_env :: "unit auth_env" where
  "w_signed_env = w_env\<lparr>ae_LookupTXT := w_lookup, ae_now := w_later\<rparr>"

definition w_incoming :: "string list \<Rightarrow> connection" where
  "w_incoming ls = (newConnection plain_platform \<lparr>chunks = [stuff ls], raw_end = EOF\<rparr> [] (PeerAddr ''::1'')
     (int (length (stuff ls))) 1)\<lparr>state := ConnData\<rparr>"


end
