(* ===== verification/Spec2Isabelle.thy ===== *)
theory Spec2Isabelle imports Middleware Session_View Session_Errors Session_Tls Session_Chunks
  Example Lifecycle Xid Mail_Tree Mail_Words Authentication Transport begin

text \<open>
  Verification of smtpx, a Go package for SMTP servers.

  Parts of the program. A Server (server.go) listens and runs one goroutine per client
  (ListenAndServe, Shutdown); handleConn serves a connection (connection.go) over a limited,
  buffered reader (reader.go); the DATA command fills an envelope (package envelope) and hands it
  to a chain of middlewares around a handler (backend.go, package middleware), whose response
  (response.go, package responses) is written to the client. The package middleware/authres holds
  the parsers and verifiers of DKIM, DMARC and Authentication-Results,
  and the middleware that uses them (middleware/authentication.go). envelope/mail.go reads the message
  of an envelope as a MIME tree, and utils/id.go makes the identifiers of connections and envelopes.
  Connections share nothing but the server's counters and the channel that Shutdown closes; an
  envelope is passed by pointer from the connection to the handlers, here it is passed and returned.

  Theories, in the order they build on each other. File names are those under src/.

  The library of Go.
  Prelude: shared lemmas, integers of 64 bits, the locales invariant_system (a transition system
  with an invariant) and functional_refinement (a concrete step and the abstract one it simulates).
  Go_Strings: the functions of strings, unicode and strconv the code uses, on byte strings. Upper
  and lower case are those of the ASCII letters and of the four code points outside ASCII whose
  other case is an ASCII letter; other letters are left alone.
  Go_Dict (maps from strings to strings), Go_Base64, Go_Dns, Go_Header (net/textproto's
  MIMEHeader), Go_Mime (media types, encoded words, quoted-printable, query escapes) and
  Go_Multipart (the parts of a multipart body).

  The session.
  Responses: packages responses and response.go.
  Reader, Textproto: reader.go and the parts of bufio and net/textproto it is built on; what is read
  depends on the available bytes only (avail), and the DotReader undoes dot stuffing.
  Envelope: envelope/data.go (locale byte_rope, interpreted on the rope of the code),
  envelope/envelope.go, utils/email.go.
  Handlers, Middleware: backend.go, the chain of the DATA command (locale handler_contract,
  interpreted for the contracts that a chain only adds headers and that it does not panic), and the
  middlewares of middleware.go, recover.go, email.go, domains.go and log.go.
  Connection, Session: connection.go, the configuration and handleConn of server.go: every command
  is a definition, one iteration of the loop a turn, the loop serve with a number of turns.
  Session_Facts: the invariant of a connection (invariant_system). Session_Termination: the loop
  ends. Session_Correct: replies and bounds. Session_View: the transaction the client can tell from
  the replies is the one the connection has (functional_refinement). Session_Delivery: a
  transaction from end to end. Session_Errors and Session_Tls: what happens without a sender, with
  wrapped responses and under STARTTLS. Session_Chunks: the chunks the bytes arrive in make no
  difference. Example: example/server.go, the configuration some of the witnesses run.
  Lifecycle: ListenAndServe and Shutdown with interleaved goroutines (invariant_system).
  Xid: utils/id.go, identifiers and that they are unique.

  Mails (envelope/mail.go, envelope/charsets.go, envelope/consts.go).
  Charsets, Mail: the definitions. Mail_Facts: headers, walking and flattening. Mail_Tree: a mail
  written from a tree of parts is read back as that tree, and Decode undoes the encodings.
  Mail_Words: encoded words.

  Authentication (middleware/authres and middleware/authentication.go).
  Dkim_Canonical: dkim/canonical.go (locale stream_transformer, interpreted for both
  canonicalizers and the limited writer: cutting the input makes no difference).
  Dkim_Header, Dkim_Tags: dkim/header.go, reading headers and tag lists, and the round trips.
  Dkim_Query, Dkim_Verify, Dkim_Sign: dkim/query.go, verify.go, sign.go. Dkim_Sound: what a
  verification without an error guarantees. Dkim_Roundtrip: what Sign makes, Verify accepts.
  Dmarc: dmarc/dmarc.go, dmarc/lookup.go. Authres: parse.go and format.go.
  Authentication: the middleware, and what a result of it rests on. Transport: a signed message
  passes the middleware after its way through an SMTP session.

  Parameters: what lies outside the repository is an argument. The record platform holds
  mail.ParseAddress, net.ParseIP, the TLS handshake, identifiers and the clock of a connection; the
  record crypto SHA-256, the parsers of keys and the verification of signatures; the record auth_env
  these, the DNS, the clock, the SPF library, the public suffix list, the Unicode letters and the
  decoders of character sets. rng is the order in which Go ranges over a map. Hypotheses on them
  are few and named: handshake_consumes (a handshake adds no bytes to the connection),
  range_ok (a range over a map visits every entry once), unicode_ok (ASCII letters are letters),
  one_hash and no_collision where a signature has to belong to one message, published (the DNS has
  the signer's key, and the key accepts what the signer makes).

  Bounds and fuel. serve takes a number of turns; the measure conn_measure is at most three per byte
  and per chunk boundary of the input, plus three, and handleConn_terminates shows that so many
  turns end every connection. All other functions are total: their loops are recursions with a
  measure. Integers of 64 and 32 bits are words, or ints cut to their width, where they can wrap.

  Not modelled: what is logged or printed (log.go, and the output of middleware/log.go, whose
  records are values here), the fields KilledAt and ConnectedAt beyond whether a connection is
  killed, MaxClients and allowedHosts (no code uses them), the certificates and the signals of
  example/server.go, example/envalope.go (it ranges over a struct and does not compile), and the
  mocks of the tests. Of Go's library: the limits of textproto and multipart on the header of a
  part, boundaries longer than 4096 bytes, letters outside ASCII in case mappings, and callbacks of
  Walk that change the content they are shown.
\<close>

end
